(* ===== verification/Vpn_Prelude.thy ===== *)
theory Vpn_Prelude
  imports Main "HOL-Library.Word" "HOL-Library.Sublist" "HOL-Library.AList" "HOL-Library.Monad_Syntax"
begin

text \<open>
  Shared ground of the development: machine integers and their big-endian bytes, Rust strings
  as lists of UTF-8 bytes, the operations of the Rust standard library the plugin calls
  (\<open>trim\<close>, \<open>split\<close>, \<open>parse\<close>, \<open>chunks\<close>, slicing), the sequencing of fallible
  calls, and the lemmas about them that the components share.

  A Rust \<open>String\<close> is its UTF-8 encoding, one \<^typ>\<open>char\<close> per byte, so that
  \<^const>\<open>length\<close> is Rust's \<open>len()\<close>. A slice that would panic is \<^const>\<open>None\<close>.
\<close>

named_theorems vpn_result \<open>rules for sequencing fallible calls\<close>
named_theorems vpn_codec \<open>rules for encoded bytes\<close>

type_synonym byte = "8 word"
type_synonym u16 = "16 word"
type_synonym u32 = "32 word"
type_synonym u64 = "64 word"

section \<open>Fallible calls\<close>

text \<open>
  The \<open>?\<close> operator: the first error is the result of the whole computation.
\<close>

definition and_then :: "'e + 'a \<Rightarrow> ('a \<Rightarrow> 'e + 'b) \<Rightarrow> 'e + 'b" where
  "and_then r f = (case r of Inl e \<Rightarrow> Inl e | Inr x \<Rightarrow> f x)"

lemma and_then_simps [simp, vpn_result]:
  "and_then (Inl e) f = Inl e"
  "and_then (Inr x) f = f x"
  by (simp_all add: and_then_def)

lemma and_then_Inr_iff [vpn_result]:
  "and_then r f = Inr y \<longleftrightarrow> (\<exists>x. r = Inr x \<and> f x = Inr y)"
  by (cases r) auto

lemma and_then_Inl_iff [vpn_result]:
  "and_then r f = Inl e \<longleftrightarrow> r = Inl e \<or> (\<exists>x. r = Inr x \<and> f x = Inl e)"
  by (cases r) auto

definition map_err :: "('e \<Rightarrow> 'f) \<Rightarrow> 'e + 'a \<Rightarrow> 'f + 'a" where
  "map_err g r = (case r of Inl e \<Rightarrow> Inl (g e) | Inr x \<Rightarrow> Inr x)"

lemma map_err_simps [simp, vpn_result]:
  "map_err g (Inl e) = Inl (g e)"
  "map_err g (Inr x) = Inr x"
  by (simp_all add: map_err_def)

lemma map_err_Inr_iff [vpn_result]: "map_err g r = Inr y \<longleftrightarrow> r = Inr y"
  by (cases r) auto

definition ok_or :: "'a option \<Rightarrow> 'e \<Rightarrow> 'e + 'a" where
  "ok_or v e = (case v of None \<Rightarrow> Inl e | Some x \<Rightarrow> Inr x)"

lemma ok_or_simps [simp, vpn_result]:
  "ok_or None e = Inl e"
  "ok_or (Some x) e = Inr x"
  by (simp_all add: ok_or_def)

lemma ok_or_iff [vpn_result]:
  "ok_or v e = Inr y \<longleftrightarrow> v = Some y"
  "ok_or v e = Inl e' \<longleftrightarrow> v = None \<and> e' = e"
  by (cases v; auto)+

text \<open>\<open>Option::unwrap_or\<close>, \<open>or_else\<close> and \<open>filter\<close>.\<close>

definition unwrap_or :: "'a option \<Rightarrow> 'a \<Rightarrow> 'a" where
  "unwrap_or v d = (case v of None \<Rightarrow> d | Some x \<Rightarrow> x)"

lemma unwrap_or_simps [simp]: "unwrap_or None d = d" "unwrap_or (Some x) d = x"
  by (simp_all add: unwrap_or_def)

definition or_else :: "'a option \<Rightarrow> 'a option \<Rightarrow> 'a option" where
  "or_else v w = (case v of None \<Rightarrow> w | Some x \<Rightarrow> Some x)"

lemma or_else_simps [simp]: "or_else None w = w" "or_else (Some x) w = Some x"
  by (simp_all add: or_else_def)

lemma or_else_None [simp]: "or_else v None = v"
  by (cases v) simp_all

definition opt_filter :: "('a \<Rightarrow> bool) \<Rightarrow> 'a option \<Rightarrow> 'a option" where
  "opt_filter p v = (case v of None \<Rightarrow> None | Some x \<Rightarrow> if p x then Some x else None)"

lemma opt_filter_simps [simp]:
  "opt_filter p None = None"
  "opt_filter p (Some x) = (if p x then Some x else None)"
  by (simp_all add: opt_filter_def)

lemma opt_filter_Some_iff: "opt_filter p v = Some x \<longleftrightarrow> v = Some x \<and> p x"
  by (cases v) auto

section \<open>Slices and chunks\<close>

text \<open>\<open>&xs[a..b]\<close>: \<^const>\<open>None\<close> where Rust panics.\<close>

definition slice_of :: "nat \<Rightarrow> nat \<Rightarrow> 'a list \<Rightarrow> 'a list option" where
  "slice_of a b xs = (if a \<le> b \<and> b \<le> length xs then Some (take (b - a) (drop a xs)) else None)"

lemma slice_of_ok [simp]:
  "a \<le> b \<Longrightarrow> b \<le> length xs \<Longrightarrow> slice_of a b xs = Some (take (b - a) (drop a xs))"
  by (simp add: slice_of_def)

text \<open>\<open>xs.chunks(n)\<close>, for a positive \<open>n\<close> (Rust panics on 0, which no caller passes).\<close>

function chunks :: "nat \<Rightarrow> 'a list \<Rightarrow> 'a list list" where
  "chunks n xs = (if n = 0 \<or> xs = [] then [] else take n xs # chunks n (drop n xs))"
  by pat_completeness auto
termination
  by (relation "measure (\<lambda>(n, xs). length xs)") (auto simp: neq_Nil_conv)

declare chunks.simps [simp del]

lemma chunks_Nil [simp]: "chunks n [] = []"
  by (simp add: chunks.simps)

lemma concat_chunks [simp]: "0 < n \<Longrightarrow> concat (chunks n xs) = xs"
proof (induction n xs rule: chunks.induct)
  case (1 n xs)
  then show ?case by (cases "xs = []") (simp_all add: chunks.simps [of n xs])
qed

lemma chunks_bounds: "0 < n \<Longrightarrow> c \<in> set (chunks n xs) \<Longrightarrow> 0 < length c \<and> length c \<le> n"
proof (induction n xs rule: chunks.induct)
  case (1 n xs)
  then show ?case by (cases "xs = []") (auto simp: chunks.simps [of n xs])
qed

lemma chunks_short: "0 < n \<Longrightarrow> xs \<noteq> [] \<Longrightarrow> length xs \<le> n \<Longrightarrow> chunks n xs = [xs]"
  by (simp add: chunks.simps [of n xs])

lemma length_chunks_le: "0 < n \<Longrightarrow> length xs \<le> k * n \<Longrightarrow> length (chunks n xs) \<le> k"
proof (induction n xs arbitrary: k rule: chunks.induct)
  case (1 n xs)
  show ?case
  proof (cases "xs = []")
    case False
    then obtain k' where k: "k = Suc k'"
      using "1.prems" by (cases k) auto
    with "1.prems" have "length (drop n xs) \<le> k' * n" by simp
    with "1.IH" "1.prems"(1) False have "length (chunks n (drop n xs)) \<le> k'" by simp
    then show ?thesis using False "1.prems"(1) by (simp add: chunks.simps [of n xs] k)
  qed simp
qed

section \<open>Big-endian integers\<close>

lemma unat_bound: "unat (w :: 'a::len word) < 2 ^ LENGTH('a)"
  by (rule unsigned_less)

fun be_bytes :: "nat \<Rightarrow> nat \<Rightarrow> byte list" where
  "be_bytes 0 v = []"
| "be_bytes (Suc n) v = be_bytes n (v div 256) @ [of_nat (v mod 256)]"

definition from_be :: "byte list \<Rightarrow> nat" where
  "from_be bs = foldl (\<lambda>a b. a * 256 + unat b) 0 bs"

lemma length_be_bytes [simp]: "length (be_bytes n v) = n"
  by (induction n arbitrary: v) auto

lemma from_be_snoc: "from_be (bs @ [b]) = from_be bs * 256 + unat b"
  by (simp add: from_be_def)

lemma unat_byte_of_nat: "unat (of_nat n :: byte) = n mod 256"
  by (simp add: unat_of_nat)

lemma from_be_bytes: "from_be (be_bytes n v) = v mod 256 ^ n"
proof (induction n arbitrary: v)
  case 0
  then show ?case by (simp add: from_be_def)
next
  case (Suc n)
  have "v mod (256 * 256 ^ n) = 256 * (v div 256 mod 256 ^ n) + v mod 256"
    by (rule mod_mult2_eq)
  with Suc show ?case by (simp add: from_be_snoc unat_byte_of_nat)
qed

lemma from_be_bound: "from_be bs < 256 ^ length bs"
proof (induction bs rule: rev_induct)
  case Nil
  then show ?case by (simp add: from_be_def)
next
  case (snoc b bs)
  have "unat b < 256" using unat_bound [of b] by simp
  with snoc show ?case by (simp add: from_be_snoc)
qed

lemma be_bytes_from_be: "be_bytes (length bs) (from_be bs) = bs"
proof (induction bs rule: rev_induct)
  case Nil
  then show ?case by simp
next
  case (snoc b bs)
  have "unat b < 256" using unat_bound [of b] by simp
  then have "(from_be bs * 256 + unat b) div 256 = from_be bs"
    and "(from_be bs * 256 + unat b) mod 256 = unat b" by simp_all
  with snoc show ?case by (simp add: from_be_snoc)
qed

definition be_u16 :: "u16 \<Rightarrow> byte list" where
  "be_u16 w = be_bytes 2 (unat w)"

definition u16_from_be :: "byte list \<Rightarrow> u16" where
  "u16_from_be bs = of_nat (from_be bs)"

definition be_u32 :: "u32 \<Rightarrow> byte list" where
  "be_u32 w = be_bytes 4 (unat w)"

definition u32_from_be :: "byte list \<Rightarrow> u32" where
  "u32_from_be bs = of_nat (from_be bs)"

text \<open>
  What a fixed-width codec promises its clients. The frame format of the multiplexer, the
  SOCKS5 port and the random client id rest on this interface, not on the byte arithmetic.
\<close>

locale fixed_codec =
  fixes enc :: "'w \<Rightarrow> byte list"
    and dec :: "byte list \<Rightarrow> 'w"
    and width :: nat
  assumes dec_enc: "dec (enc w) = w"
    and enc_width: "length (enc w) = width"
    and enc_dec: "length bs = width \<Longrightarrow> enc (dec bs) = bs"
begin

lemma enc_inj: "enc v = enc w \<longleftrightarrow> v = w"
  using dec_enc by metis

lemma dec_inj: "length bs = width \<Longrightarrow> length cs = width \<Longrightarrow> dec bs = dec cs \<longleftrightarrow> bs = cs"
  using enc_dec by metis

lemma dec_prefix: "dec (take width (enc w @ rest)) = w"
  by (simp add: dec_enc enc_width)

lemma drop_enc: "drop width (enc w @ rest) = rest"
  by (simp add: enc_width)

lemma enc_not_Nil: "0 < width \<Longrightarrow> enc w \<noteq> []"
  using enc_width [of w] by auto

end

lemma of_nat_unat_id [simp]: "(of_nat (unat w) :: 'a::len word) = w"
  by simp

interpretation c16: fixed_codec be_u16 u16_from_be 2
proof unfold_locales
  fix w :: u16 and bs :: "byte list"
  have "unat w < 2 ^ 16" using unat_bound [of w] by simp
  then show "u16_from_be (be_u16 w) = w"
    by (simp add: u16_from_be_def be_u16_def from_be_bytes)
  show "length (be_u16 w) = 2" by (simp add: be_u16_def)
  assume len: "length bs = 2"
  then have "from_be bs < 2 ^ 16" using from_be_bound [of bs] by simp
  then have "unat (of_nat (from_be bs) :: u16) = from_be bs"
    by (simp add: unat_of_nat)
  then show "be_u16 (u16_from_be bs) = bs"
    using be_bytes_from_be [of bs] len by (simp add: be_u16_def u16_from_be_def)
qed

interpretation c32: fixed_codec be_u32 u32_from_be 4
proof unfold_locales
  fix w :: u32 and bs :: "byte list"
  have "unat w < 2 ^ 32" using unat_bound [of w] by simp
  then show "u32_from_be (be_u32 w) = w"
    by (simp add: u32_from_be_def be_u32_def from_be_bytes)
  show "length (be_u32 w) = 4" by (simp add: be_u32_def)
  assume len: "length bs = 4"
  then have "from_be bs < 2 ^ 32" using from_be_bound [of bs] by simp
  then have "unat (of_nat (from_be bs) :: u32) = from_be bs"
    by (simp add: unat_of_nat)
  then show "be_u32 (u32_from_be bs) = bs"
    using be_bytes_from_be [of bs] len by (simp add: be_u32_def u32_from_be_def)
qed

lemmas codec_rules [simp, vpn_codec] =
  c16.dec_enc c16.enc_width c16.enc_inj c32.dec_enc c32.enc_width c32.enc_inj

end
