(* ===== verification/Vpn_Strings.thy ===== *)
theory Vpn_Strings
  imports Vpn_Prelude
begin

text \<open>
  Rust string operations on UTF-8 byte lists: \<open>trim\<close>, \<open>trim_start_matches\<close>,
  \<open>split\<close>, \<open>split_once\<close>, decimal and hexadecimal printing, \<open>str::parse\<close> for unsigned
  integers and \<open>String::from_utf8\<close>.
\<close>

section \<open>Trimming\<close>

text \<open>
  The code points with the Unicode property \<open>White_Space\<close>, which is what \<open>str::trim\<close>
  removes, as UTF-8. No encoding is a suffix or a prefix of another character's encoding, so
  stripping byte patterns is stripping characters.
\<close>

definition white_space :: "string list" where
  "white_space =
     [[CHR 0x09], [CHR 0x0A], [CHR 0x0B], [CHR 0x0C], [CHR 0x0D], [CHR 0x20],
      [CHR 0xC2, CHR 0x85], [CHR 0xC2, CHR 0xA0], [CHR 0xE1, CHR 0x9A, CHR 0x80],
      [CHR 0xE2, CHR 0x80, CHR 0x80], [CHR 0xE2, CHR 0x80, CHR 0x81],
      [CHR 0xE2, CHR 0x80, CHR 0x82], [CHR 0xE2, CHR 0x80, CHR 0x83],
      [CHR 0xE2, CHR 0x80, CHR 0x84], [CHR 0xE2, CHR 0x80, CHR 0x85],
      [CHR 0xE2, CHR 0x80, CHR 0x86], [CHR 0xE2, CHR 0x80, CHR 0x87],
      [CHR 0xE2, CHR 0x80, CHR 0x88], [CHR 0xE2, CHR 0x80, CHR 0x89],
      [CHR 0xE2, CHR 0x80, CHR 0x8A], [CHR 0xE2, CHR 0x80, CHR 0xA8],
      [CHR 0xE2, CHR 0x80, CHR 0xA9], [CHR 0xE2, CHR 0x80, CHR 0xAF],
      [CHR 0xE2, CHR 0x81, CHR 0x9F], [CHR 0xE3, CHR 0x80, CHR 0x80]]"

text \<open>Strip every leading occurrence of the patterns, as \<open>trim_start_matches\<close> does.\<close>

function strip_start :: "string list \<Rightarrow> string \<Rightarrow> string" where
  "strip_start ps s =
     (case find (\<lambda>p. p \<noteq> [] \<and> prefix p s) ps of
        None \<Rightarrow> s
      | Some p \<Rightarrow> strip_start ps (drop (length p) s))"
  by pat_completeness auto
termination
proof (relation "measure (\<lambda>(ps, s). length s)", simp)
  fix ps :: "string list" and s p :: string
  assume "find (\<lambda>p. p \<noteq> [] \<and> prefix p s) ps = Some p"
  then have "p \<noteq> []" and "prefix p s" by (auto simp: find_Some_iff)
  then have "0 < length p" and "0 < length s" by (auto simp: prefix_def)
  then show "((ps, drop (length p) s), (ps, s)) \<in> measure (\<lambda>(ps, s). length s)" by simp
qed

declare strip_start.simps [simp del]

definition strip_end :: "string list \<Rightarrow> string \<Rightarrow> string" where
  "strip_end ps s = rev (strip_start (map rev ps) (rev s))"

definition trim :: "string \<Rightarrow> string" where
  "trim s = strip_end white_space (strip_start white_space s)"

lemma strip_start_suffix: "suffix (strip_start ps s) s"
proof (induction ps s rule: strip_start.induct)
  case (1 ps s)
  show ?case
  proof (cases "find (\<lambda>p. p \<noteq> [] \<and> prefix p s) ps")
    case None
    then show ?thesis by (simp add: strip_start.simps [of ps s])
  next
    case (Some p)
    with "1.IH" have "suffix (strip_start ps (drop (length p) s)) (drop (length p) s)" by blast
    then have "suffix (strip_start ps (drop (length p) s)) s"
      using suffix_drop suffix_order.trans by blast
    with Some show ?thesis by (simp add: strip_start.simps [of ps s])
  qed
qed

lemma strip_start_done: "p \<in> set ps \<Longrightarrow> p \<noteq> [] \<Longrightarrow> \<not> prefix p (strip_start ps s)"
proof (induction ps s rule: strip_start.induct)
  case (1 ps s)
  show ?case
  proof (cases "find (\<lambda>p. p \<noteq> [] \<and> prefix p s) ps")
    case None
    with "1.prems" have "\<not> prefix p s" by (auto simp: find_None_iff)
    with None show ?thesis by (simp add: strip_start.simps [of ps s])
  next
    case (Some q)
    with "1.IH" "1.prems" show ?thesis by (simp add: strip_start.simps [of ps s])
  qed
qed

lemma strip_start_id:
  "(\<And>p. p \<in> set ps \<Longrightarrow> p \<noteq> [] \<Longrightarrow> \<not> prefix p s) \<Longrightarrow> strip_start ps s = s"
proof -
  assume "\<And>p. p \<in> set ps \<Longrightarrow> p \<noteq> [] \<Longrightarrow> \<not> prefix p s"
  then have "find (\<lambda>p. p \<noteq> [] \<and> prefix p s) ps = None" by (auto simp: find_None_iff)
  then show ?thesis by (simp add: strip_start.simps [of ps s])
qed

lemma strip_start_idem [simp]: "strip_start ps (strip_start ps s) = strip_start ps s"
  by (rule strip_start_id) (rule strip_start_done)

lemma strip_start_Nil [simp]: "strip_start ps [] = []"
  by (rule strip_start_id) auto

lemma strip_end_prefix: "prefix (strip_end ps s) s"
proof -
  have "suffix (strip_start (map rev ps) (rev s)) (rev s)" by (rule strip_start_suffix)
  then show ?thesis by (simp add: strip_end_def suffix_to_prefix)
qed

lemma trim_sublist: "sublist (trim s) s"
proof -
  have "prefix (trim s) (strip_start white_space s)"
    by (simp add: trim_def strip_end_prefix)
  then have "sublist (trim s) (strip_start white_space s)" by (rule prefix_imp_sublist)
  moreover have "sublist (strip_start white_space s) s"
    by (rule suffix_imp_sublist) (rule strip_start_suffix)
  ultimately show ?thesis by (rule sublist_order.order.trans)
qed

lemma set_trim: "set (trim s) \<subseteq> set s"
  using trim_sublist by (rule set_mono_sublist)

lemma trim_Nil [simp]: "trim [] = []"
  by (simp add: trim_def strip_end_def)

lemma trim_idem [simp]: "trim (trim s) = trim s"
proof -
  let ?t = "strip_start white_space s"
  have keep: "strip_start white_space (strip_end white_space ?t) = strip_end white_space ?t"
  proof (rule strip_start_id)
    fix p assume p: "p \<in> set white_space" "p \<noteq> []"
    show "\<not> prefix p (strip_end white_space ?t)"
    proof
      assume "prefix p (strip_end white_space ?t)"
      then have "prefix p ?t" using strip_end_prefix prefix_order.trans by blast
      with strip_start_done [OF p] show False by blast
    qed
  qed
  have "strip_end white_space (strip_end white_space ?t) = strip_end white_space ?t"
    by (simp add: strip_end_def)
  with keep show ?thesis by (simp add: trim_def)
qed

text \<open>A string with no leading and no trailing white space is its own trim.\<close>

definition plain_edge :: "char \<Rightarrow> bool" where
  "plain_edge c \<longleftrightarrow> c \<notin> set (map hd white_space) \<and> c \<notin> set (map last white_space)"

lemma trim_plain:
  assumes "s \<noteq> []" and "plain_edge (hd s)" and "plain_edge (last s)"
  shows "trim s = s"
proof -
  have start: "strip_start white_space s = s"
  proof (rule strip_start_id)
    fix p assume p: "p \<in> set white_space" "p \<noteq> []"
    show "\<not> prefix p s"
    proof
      assume "prefix p s"
      then have "hd p = hd s" using p(2) by (auto simp: prefix_def)
      with p(1) have "hd s \<in> hd ` set white_space" by (metis imageI)
      with assms(2) show False by (simp add: plain_edge_def)
    qed
  qed
  have "strip_start (map rev white_space) (rev s) = rev s"
  proof (rule strip_start_id)
    fix p assume p: "p \<in> set (map rev white_space)" "p \<noteq> []"
    then obtain w where w: "w \<in> set white_space" "p = rev w" "w \<noteq> []" by auto
    show "\<not> prefix p (rev s)"
    proof
      assume "prefix p (rev s)"
      then have "hd p = hd (rev s)" using p(2) by (auto simp: prefix_def)
      with w assms(1) have "last w = last s" by (simp add: hd_rev)
      with w(1) have "last s \<in> last ` set white_space" by (metis imageI)
      with assms(3) show False by (simp add: plain_edge_def)
    qed
  qed
  with start show ?thesis by (simp add: trim_def strip_end_def)
qed

section \<open>Splitting\<close>

text \<open>\<open>s.split(c)\<close>: one more piece than separators.\<close>

fun split_char :: "char \<Rightarrow> string \<Rightarrow> string list" where
  "split_char c [] = [[]]"
| "split_char c (x # xs) =
     (if x = c then [] # split_char c xs
      else (case split_char c xs of [] \<Rightarrow> [[x]] | p # ps \<Rightarrow> (x # p) # ps))"

text \<open>\<open>s.split_once(c)\<close>: the text before and after the first \<open>c\<close>.\<close>

fun split_once :: "char \<Rightarrow> string \<Rightarrow> (string \<times> string) option" where
  "split_once c [] = None"
| "split_once c (x # xs) =
     (if x = c then Some ([], xs)
      else map_option (\<lambda>(a, b). (x # a, b)) (split_once c xs))"

lemma split_char_not_Nil [simp]: "split_char c s \<noteq> []"
  by (induction c s rule: split_char.induct) (auto split: list.splits)

lemma split_once_Some: "split_once c s = Some (a, b) \<Longrightarrow> s = a @ c # b \<and> c \<notin> set a"
  by (induction c s arbitrary: a b rule: split_once.induct) (auto split: if_splits)

lemma split_once_append [simp]: "c \<notin> set a \<Longrightarrow> split_once c (a @ c # b) = Some (a, b)"
  by (induction a) auto

lemma split_once_None_iff: "split_once c s = None \<longleftrightarrow> c \<notin> set s"
  by (induction c s rule: split_once.induct) auto

section \<open>Numbers\<close>

text \<open>\<open>char::to_digit(radix)\<close> and the lower-case digit of a value.\<close>

definition to_digit :: "nat \<Rightarrow> char \<Rightarrow> nat option" where
  "to_digit r c =
     (let n = of_char c :: nat;
          d = (if 48 \<le> n \<and> n \<le> 57 then n - 48
               else if 97 \<le> n \<and> n \<le> 122 then n - 87
               else if 65 \<le> n \<and> n \<le> 90 then n - 55 else 36)
      in if d < r then Some d else None)"

definition from_digit :: "nat \<Rightarrow> char" where
  "from_digit d = char_of (if d < 10 then 48 + d else 87 + d)"

lemma to_digit_from_digit [simp]: "d < r \<Longrightarrow> d < 16 \<Longrightarrow> to_digit r (from_digit d) = Some d"
  by (auto simp: to_digit_def from_digit_def Let_def)

lemma to_digit_bound: "to_digit r c = Some d \<Longrightarrow> d < r"
  by (simp add: to_digit_def Let_def split: if_splits)

fun parse_digits :: "nat \<Rightarrow> nat \<Rightarrow> string \<Rightarrow> nat option" where
  "parse_digits r acc [] = Some acc"
| "parse_digits r acc (c # cs) =
     (case to_digit r c of None \<Rightarrow> None | Some d \<Rightarrow> parse_digits r (acc * r + d) cs)"

text \<open>
  \<open>from_str_radix\<close> of an unsigned type with \<open>bits\<close> bits: an optional \<open>+\<close>, at least one
  digit, no overflow. \<open>str::parse\<close> is radix 10.
\<close>

definition from_str_radix :: "nat \<Rightarrow> nat \<Rightarrow> string \<Rightarrow> nat option" where
  "from_str_radix r bits s =
     (case s of
        [] \<Rightarrow> None
      | c # cs \<Rightarrow>
          opt_filter (\<lambda>n. n < 2 ^ bits)
            (parse_digits r 0 (if c = CHR ''+'' \<and> cs \<noteq> [] then cs else s)))"

function show_radix :: "nat \<Rightarrow> nat \<Rightarrow> string" where
  "show_radix r n =
     (if r < 2 \<or> n < r then [from_digit n]
      else show_radix r (n div r) @ [from_digit (n mod r)])"
  by pat_completeness auto
termination
  by (relation "measure snd") auto

declare show_radix.simps [simp del]

abbreviation show_nat :: "nat \<Rightarrow> string" where
  "show_nat \<equiv> show_radix 10"

lemma parse_digits_append:
  "parse_digits r acc (xs @ ys) =
     (case parse_digits r acc xs of None \<Rightarrow> None | Some a \<Rightarrow> parse_digits r a ys)"
  by (induction r acc xs rule: parse_digits.induct) (auto split: option.splits)

lemma parse_show_digits:
  assumes "2 \<le> r" and "r \<le> 16"
  shows "parse_digits r 0 (show_radix r n) = Some n"
  using assms
proof (induction r n rule: show_radix.induct)
  case (1 r n)
  show ?case
  proof (cases "n < r")
    case True
    with "1.prems" show ?thesis by (simp add: show_radix.simps [of r n])
  next
    case False
    with "1.IH" "1.prems" have "parse_digits r 0 (show_radix r (n div r)) = Some (n div r)" by simp
    moreover have "n mod r < r" using "1.prems" by simp
    moreover from this have "n mod r < 16" using "1.prems" by linarith
    ultimately show ?thesis using False "1.prems"
      by (simp add: show_radix.simps [of r n] parse_digits_append)
  qed
qed

lemma show_radix_not_Nil [simp]: "show_radix r n \<noteq> []"
  by (simp add: show_radix.simps [of r n])

lemma show_radix_chars:
  assumes "2 \<le> r"
  shows "set (show_radix r n) \<subseteq> from_digit ` {..<r}"
  using assms
proof (induction r n rule: show_radix.induct)
  case (1 r n)
  then show ?case
    by (cases "n < r") (auto simp: show_radix.simps [of r n])
qed

lemma show_radix_inj: "2 \<le> r \<Longrightarrow> r \<le> 16 \<Longrightarrow> show_radix r m = show_radix r n \<longleftrightarrow> m = n"
  using parse_show_digits by (metis option.inject)

lemma show_nat_inj [simp]: "show_nat m = show_nat n \<longleftrightarrow> m = n"
  by (rule show_radix_inj) simp_all

lemma show_nat_digits: "c \<in> set (show_nat n) \<Longrightarrow> 48 \<le> (of_char c :: nat) \<and> (of_char c :: nat) \<le> 57"
  using show_radix_chars [of 10 n] by (auto simp: from_digit_def)

lemma from_str_radix_show:
  assumes "n < 2 ^ bits"
  shows "from_str_radix 10 bits (show_nat n) = Some n"
proof -
  obtain c cs where s: "show_nat n = c # cs"
    by (cases "show_nat n") auto
  then have "c \<noteq> CHR ''+''" using show_nat_digits [of c n] by auto
  with s assms parse_show_digits [of 10 n] show ?thesis
    by (simp add: from_str_radix_def)
qed

lemma from_str_radix_bound: "from_str_radix r bits s = Some n \<Longrightarrow> n < 2 ^ bits"
  by (auto simp: from_str_radix_def opt_filter_Some_iff split: list.splits)

definition parse_u16 :: "string \<Rightarrow> u16 option" where
  "parse_u16 s = map_option of_nat (from_str_radix 10 16 s)"

lemma parse_u16_show [simp]: "parse_u16 (show_nat (unat (w :: u16))) = Some w"
  using unat_bound [of w] by (simp add: parse_u16_def from_str_radix_show)

definition is_hexdigit :: "char \<Rightarrow> bool" where
  "is_hexdigit c \<longleftrightarrow> to_digit 16 c \<noteq> None"

section \<open>Bytes and UTF-8\<close>

definition bytes_of :: "string \<Rightarrow> byte list" where
  "bytes_of s = map of_char s"

definition string_of :: "byte list \<Rightarrow> string" where
  "string_of bs = map (\<lambda>b. char_of (unat b)) bs"

lemma string_of_bytes_of [simp]: "string_of (bytes_of s) = s"
proof -
  have "char_of (unat (of_char c :: byte)) = c" for c :: char
  proof -
    have "unat (of_char c :: byte) = (of_char c :: nat) mod 256"
      by (metis of_nat_of_char unat_byte_of_nat)
    then show ?thesis by simp
  qed
  then show ?thesis by (simp add: string_of_def bytes_of_def map_idI)
qed

text \<open>The well-formed UTF-8 sequences, by their leading byte (Unicode table 3-7).\<close>

definition utf8_tail :: "nat \<Rightarrow> (nat \<times> nat) list option" where
  "utf8_tail b =
     (let t = (128, 191) in
      if b < 128 then Some []
      else if 194 \<le> b \<and> b \<le> 223 then Some [t]
      else if b = 224 then Some [(160, 191), t]
      else if b = 237 then Some [(128, 159), t]
      else if 225 \<le> b \<and> b \<le> 239 then Some [t, t]
      else if b = 240 then Some [(144, 191), t, t]
      else if 241 \<le> b \<and> b \<le> 243 then Some [t, t, t]
      else if b = 244 then Some [(128, 143), t, t]
      else None)"

fun utf8_scan :: "(nat \<times> nat) list \<Rightarrow> byte list \<Rightarrow> bool" where
  "utf8_scan ranges [] = (ranges = [])"
| "utf8_scan ((lo, hi) # ranges) (b # bs) =
     (lo \<le> unat b \<and> unat b \<le> hi \<and> utf8_scan ranges bs)"
| "utf8_scan [] (b # bs) =
     (case utf8_tail (unat b) of None \<Rightarrow> False | Some ranges \<Rightarrow> utf8_scan ranges bs)"

definition from_utf8 :: "byte list \<Rightarrow> string option" where
  "from_utf8 bs = (if utf8_scan [] bs then Some (string_of bs) else None)"

lemma utf8_scan_ascii: "(\<forall>b \<in> set bs. unat b < 128) \<Longrightarrow> utf8_scan [] bs"
  by (induction bs) (simp_all add: utf8_tail_def)

end
