(* ===== verification/Vpn_Models.thy ===== *)
theory Vpn_Models
  imports Vpn_Strings
begin

text \<open>
  The data of the plugin: \<open>src/errors.rs\<close>, \<open>src/models.rs\<close>, and the JSON values the code
  builds and reads. \<open>serde_json::Value\<close> is transcribed by the variants the code matches on;
  its parser and printer are parameters where they are used. An object, like every
  \<open>BTreeMap\<close> here, is an association list with distinct keys that is read by key only.
\<close>

section \<open>Errors\<close>

datatype vpn_error =
    Unsupported string
  | InvalidProfile string
  | Import string
  | AlreadyRunning
  | NotRunning
  | Engine string
  | Platform string
  | Io string

type_synonym 'a vpn_result = "vpn_error + 'a"

fun error_display :: "vpn_error \<Rightarrow> string" where
  "error_display (Unsupported m) = ''unsupported protocol or feature: '' @ m"
| "error_display (InvalidProfile m) = ''invalid VPN profile: '' @ m"
| "error_display (Import m) = ''import failed: '' @ m"
| "error_display AlreadyRunning = ''engine is already running''"
| "error_display NotRunning = ''engine is not running''"
| "error_display (Engine m) = ''engine failed: '' @ m"
| "error_display (Platform m) = m"
| "error_display (Io m) = ''io error: '' @ m"

text \<open>The two \<open>From\<close> conversions, from the text of the converted error.\<close>

definition from_io_error :: "string \<Rightarrow> vpn_error" where
  "from_io_error m = Io m"

definition from_parse_error :: "string \<Rightarrow> vpn_error" where
  "from_parse_error m = Import m"

section \<open>JSON values\<close>

datatype json_number = PosInt u64 | NegInt u64 | Float64 u64

datatype json =
    JNull
  | JBool bool
  | JNum json_number
  | JStr string
  | JArr "json list"
  | JObj "(string \<times> json) list"

fun as_str :: "json \<Rightarrow> string option" where
  "as_str (JStr s) = Some s"
| "as_str _ = None"

fun as_u64 :: "json \<Rightarrow> u64 option" where
  "as_u64 (JNum (PosInt n)) = Some n"
| "as_u64 _ = None"

fun is_null :: "json \<Rightarrow> bool" where
  "is_null JNull = True"
| "is_null _ = False"

text \<open>\<open>value["key"]\<close>: null for an absent key and for a value that is no object.\<close>

fun json_index :: "json \<Rightarrow> string \<Rightarrow> json" where
  "json_index (JObj kvs) k = unwrap_or (map_of kvs k) JNull"
| "json_index _ k = JNull"

text \<open>
  \<open>outbound["key"] = v\<close>. On null Rust first turns the value into an object, on any other
  value it panics (\<^const>\<open>None\<close>).
\<close>

fun json_set :: "string \<Rightarrow> json \<Rightarrow> json \<Rightarrow> json option" where
  "json_set k v (JObj kvs) = Some (JObj (AList.update k v kvs))"
| "json_set k v JNull = Some (JObj [(k, v)])"
| "json_set k v _ = None"

abbreviation jnat :: "nat \<Rightarrow> json" where
  "jnat n \<equiv> JNum (PosInt (of_nat n))"

abbreviation jstrs :: "string list \<Rightarrow> json" where
  "jstrs ss \<equiv> JArr (map JStr ss)"

definition json_u16 :: "u16 \<Rightarrow> json" where
  "json_u16 w = JNum (PosInt (ucast w))"

definition json_opt :: "('a \<Rightarrow> json) \<Rightarrow> 'a option \<Rightarrow> json" where
  "json_opt f v = (case v of None \<Rightarrow> JNull | Some x \<Rightarrow> f x)"

lemma json_opt_simps [simp]: "json_opt f None = JNull" "json_opt f (Some x) = f x"
  by (simp_all add: json_opt_def)

lemma json_index_set:
  "json_set k v j = Some j' \<Longrightarrow> json_index j' k' = (if k' = k then v else json_index j k')"
  by (cases "(k, v, j)" rule: json_set.cases) (auto simp: update_conv')

lemma as_u64_json_u16 [simp]: "as_u64 (json_u16 w) = Some (ucast w)"
  by (simp add: json_u16_def)

section \<open>Profiles\<close>

datatype vpn_protocol =
    Vless | Vmess | Trojan | Shadowsocks | WireGuard | Hysteria | Hysteria2
  | Tuic | Tun | Mixed | Socks | Http | OlcRtc

datatype transport_kind = Tcp | WebSocket | Grpc | HttpUpgrade | Xhttp | Quic

datatype dns_strategy = Ipv4Only | Ipv6Only | PreferIpv4 | PreferIpv6

datatype route_mode = Global | Rule

datatype connection_phase = Disconnected | Connecting | Connected | Disconnecting | Failed

type_synonym uuid = "128 word"

type_synonym ('k, 'v) btree_map = "('k \<times> 'v) list"

record auth_options =
  auth_uuid :: "string option"
  auth_password :: "string option"
  auth_method :: "string option"
  auth_username :: "string option"

record transport =
  transport_kind :: transport_kind
  transport_path :: "string option"
  transport_host :: "string option"
  transport_service_name :: "string option"
  transport_headers :: "(string, string) btree_map"

record tls_options =
  tls_enabled :: bool
  tls_server_name :: "string option"
  tls_alpn :: "string list"
  tls_insecure :: bool
  tls_fingerprint :: "string option"

record reality_options =
  reality_public_key :: string
  reality_short_id :: "string option"
  reality_spider_x :: "string option"

record wireguard_options =
  wg_private_key :: string
  wg_peer_public_key :: "string option"
  wg_pre_shared_key :: "string option"
  wg_local_address :: "string list"
  wg_reserved :: "byte list option"

record vpn_profile =
  profile_id :: uuid
  profile_name :: string
  profile_protocol :: vpn_protocol
  profile_server :: string
  profile_port :: u16
  profile_auth :: auth_options
  profile_transport :: transport
  profile_tls :: "tls_options option"
  profile_reality :: "reality_options option"
  profile_wireguard :: "wireguard_options option"
  profile_extra :: "(string, json) btree_map"

record dns_options =
  dns_opt_strategy :: dns_strategy
  dns_servers :: "string list"

record connect_options =
  opt_profile :: vpn_profile
  opt_route_mode :: route_mode
  opt_route_bypass_cidrs :: "string list"
  opt_dns :: dns_options
  opt_kill_switch :: bool

record imported_server =
  imported_profile :: vpn_profile
  imported_warnings :: "string list"

record validation_result =
  valid :: bool
  errors :: "string list"
  warnings :: "string list"

record protocol_info =
  info_protocol :: vpn_protocol
  info_display_name :: string
  info_supported_on :: "string list"
  info_uri_schemes :: "string list"

record traffic_stats =
  uploaded_bytes :: u64
  downloaded_bytes :: u64

record connection_status =
  phase :: connection_phase
  active_profile_id :: "uuid option"
  message :: "string option"
  stats :: traffic_stats

section \<open>Default values\<close>

definition default_transport :: transport where
  "default_transport =
     \<lparr>transport_kind = Tcp, transport_path = None, transport_host = None,
      transport_service_name = None, transport_headers = []\<rparr>"

definition default_dns_options :: dns_options where
  "default_dns_options = \<lparr>dns_opt_strategy = Ipv4Only, dns_servers = [''1.1.1.1'', ''8.8.8.8'']\<rparr>"

definition default_connection_status :: connection_status where
  "default_connection_status =
     \<lparr>phase = Disconnected, active_profile_id = None, message = None,
      stats = \<lparr>uploaded_bytes = 0, downloaded_bytes = 0\<rparr>\<rparr>"

instantiation route_mode :: default
begin

definition default_route_mode :: route_mode where
  "default_route_mode = Global"

instance ..

end

instantiation vpn_protocol :: enum
begin

definition enum_vpn_protocol :: "vpn_protocol list" where
  "enum_vpn_protocol =
     [Vless, Vmess, Trojan, Shadowsocks, WireGuard, Hysteria, Hysteria2,
      Tuic, Tun, Mixed, Socks, Http, OlcRtc]"

definition enum_all_vpn_protocol :: "(vpn_protocol \<Rightarrow> bool) \<Rightarrow> bool" where
  "enum_all_vpn_protocol P \<longleftrightarrow> list_all P Enum.enum"

definition enum_ex_vpn_protocol :: "(vpn_protocol \<Rightarrow> bool) \<Rightarrow> bool" where
  "enum_ex_vpn_protocol P \<longleftrightarrow> list_ex P Enum.enum"

instance
proof
  have all: "p \<in> set (Enum.enum :: vpn_protocol list)" for p :: vpn_protocol
    by (cases p) (simp_all add: enum_vpn_protocol_def)
  then show "(UNIV :: vpn_protocol set) = set Enum.enum" by blast
  show "distinct (Enum.enum :: vpn_protocol list)" by (simp add: enum_vpn_protocol_def)
  fix P :: "vpn_protocol \<Rightarrow> bool"
  show "Enum.enum_all P \<longleftrightarrow> Ball UNIV P"
    using all by (auto simp: enum_all_vpn_protocol_def list_all_iff)
  show "Enum.enum_ex P \<longleftrightarrow> Bex UNIV P"
    using all by (auto simp: enum_ex_vpn_protocol_def list_ex_iff)
qed

end

end
