(* ===== verification/Vpn_Protocols.thy ===== *)
theory Vpn_Protocols
  imports Vpn_Models
begin

text \<open>
  \<open>src/platform.rs\<close> and \<open>src/protocols.rs\<close>: the compile-time target as a parameter, the
  protocol table and the validation of a profile.
\<close>

named_theorems vpn_validate \<open>characterisations of the validator\<close>

section \<open>The target\<close>

text \<open>\<open>cfg(target_os = ...)\<close> as a value; \<open>OtherOs\<close> is any target the code does not name.\<close>

datatype target_os = Windows | MacOS | Linux | Android | IOS | OtherOs

definition is_mobile :: "target_os \<Rightarrow> bool" where
  "is_mobile os \<longleftrightarrow> os = Android \<or> os = IOS"

definition supported_platforms :: "string list" where
  "supported_platforms = [''windows'', ''macos'', ''linux'', ''android'', ''ios'']"

definition default_core_name :: "target_os \<Rightarrow> string" where
  "default_core_name os = (if os = Windows then ''sing-box.exe'' else ''sing-box'')"

text \<open>
  \<open>token_elevated\<close> stands for what the Windows token query answers; on other targets
  \<open>is_elevated\<close> is constantly true.
\<close>

definition is_elevated :: "target_os \<Rightarrow> bool \<Rightarrow> bool" where
  "is_elevated os token_elevated \<longleftrightarrow> os \<noteq> Windows \<or> token_elevated"

definition check_platform_requirements :: "target_os \<Rightarrow> bool \<Rightarrow> string list vpn_result" where
  "check_platform_requirements os token_elevated =
     (if os = Windows \<and> \<not> is_elevated os token_elevated
      then Inl (Platform ''Windows TUN mode requires running KOSTRA VPN as Administrator'')
      else Inr
        ((if os = Linux
          then [''Linux TUN mode may require CAP_NET_ADMIN or root privileges''] else []) @
         (if os = MacOS
          then [''macOS system tunnel requires administrator approval to configure the TUN interface'']
          else []) @
         (if os = IOS
          then [''iOS requires NetworkExtension entitlements and an app group''] else []) @
         (if os = Android
          then [''Android requires VpnService consent before connecting''] else [])))"

section \<open>The protocol table\<close>

definition protocol_table :: "(vpn_protocol \<times> string \<times> string list) list" where
  "protocol_table =
     [(Vless, ''VLESS'', [''vless'']),
      (Vmess, ''VMess'', [''vmess'']),
      (Trojan, ''Trojan'', [''trojan'']),
      (Shadowsocks, ''Shadowsocks'', [''ss'']),
      (WireGuard, ''WireGuard'', [''wireguard'', ''wg'']),
      (Hysteria, ''Hysteria'', [''hysteria'']),
      (Hysteria2, ''Hysteria2'', [''hysteria2'', ''hy2'']),
      (Tuic, ''TUIC'', [''tuic'']),
      (Tun, ''TUN'', []),
      (Mixed, ''Mixed'', []),
      (Socks, ''SOCKS'', [''socks'', ''socks5'']),
      (Http, ''HTTP'', [''http'', ''https'']),
      (OlcRtc, ''OLC RTC'', [''olcrtc'', ''olcrtc+wbstream'', ''wbstream''])]"

definition list_protocols :: "protocol_info list" where
  "list_protocols =
     map (\<lambda>(p, display_name, uri_schemes).
            \<lparr>info_protocol = p, info_display_name = display_name,
             info_supported_on = supported_platforms, info_uri_schemes = uri_schemes\<rparr>)
         protocol_table"

section \<open>Validation\<close>

definition blank_opt :: "string option \<Rightarrow> bool" where
  "blank_opt v \<longleftrightarrow> unwrap_or v [] = []"

lemma blank_opt_simps [simp]: "blank_opt None" "blank_opt (Some s) \<longleftrightarrow> s = []"
  by (simp_all add: blank_opt_def)

definition valid_key_hex :: "string \<Rightarrow> bool" where
  "valid_key_hex key \<longleftrightarrow> length key = 64 \<and> list_all is_hexdigit key"

definition extra_str :: "vpn_profile \<Rightarrow> string \<Rightarrow> string option" where
  "extra_str p key = Option.bind (map_of (profile_extra p) key) as_str"

text \<open>
  The \<open>match profile.protocol\<close> of \<open>validate\<close>: the errors and the warnings it pushes.
\<close>

definition validate_protocol :: "vpn_profile \<Rightarrow> string list \<times> string list" where
  "validate_protocol p =
     (let a = profile_auth p;
          password_required = (if blank_opt (auth_password a) then [''password is required''] else [])
      in case profile_protocol p of
        Vless \<Rightarrow> (if blank_opt (auth_uuid a) then [''uuid is required''] else [], [])
      | Vmess \<Rightarrow> (if blank_opt (auth_uuid a) then [''uuid is required''] else [], [])
      | Trojan \<Rightarrow> (password_required, [])
      | Hysteria \<Rightarrow> (password_required, [])
      | Hysteria2 \<Rightarrow> (password_required, [])
      | Tuic \<Rightarrow> (password_required, [])
      | Shadowsocks \<Rightarrow>
          (password_required @
           (if blank_opt (auth_method a) then [''cipher method is required''] else []), [])
      | WireGuard \<Rightarrow>
          (if profile_wireguard p = None then [''wireGuard options are required''] else [], [])
      | Tun \<Rightarrow> ([''local inbound modes cannot be used as remote server protocols''], [])
      | Mixed \<Rightarrow> ([''local inbound modes cannot be used as remote server protocols''], [])
      | Socks \<Rightarrow>
          ([], [''SOCKS/HTTP are proxy protocols and may not provide full VPN semantics''])
      | Http \<Rightarrow>
          ([], [''SOCKS/HTTP are proxy protocols and may not provide full VPN semantics''])
      | OlcRtc \<Rightarrow>
          ((if blank_opt (auth_password a) then [''OLC RTC shared key is required''] else []) @
           (case auth_password a of
              None \<Rightarrow> []
            | Some key \<Rightarrow>
                if length key \<noteq> 64 \<or> \<not> list_all is_hexdigit key
                then [''OLC RTC shared key must be a 32-byte hex string''] else []) @
           (if unwrap_or (extra_str p ''provider'') ''wb_stream'' \<noteq> ''wb_stream''
            then [''only OLC RTC wb_stream provider is supported''] else []),
           []))"

definition validate :: "vpn_profile \<Rightarrow> validation_result" where
  "validate p =
     (let (protocol_errors, protocol_warnings) = validate_protocol p;
          es =
            (if trim (profile_name p) = [] then [''name is required''] else []) @
            (if trim (profile_server p) = [] then [''server is required''] else []) @
            (if profile_port p = 0 then [''port must be greater than zero''] else []) @
            protocol_errors @
            (if profile_reality p \<noteq> None \<and> profile_protocol p \<noteq> Vless
             then [''REALITY options are only supported for VLESS''] else []);
          ws =
            protocol_warnings @
            (if transport_kind (profile_transport p) = Xhttp
             then [''XHTTP compatibility depends on the bundled sing-box version''] else []) @
            (if profile_protocol p = OlcRtc
             then [''OLC RTC starts a local SOCKS5 client and routes sing-box through stream.wb.ru'']
             else [])
      in \<lparr>valid = (es = []), errors = es, warnings = ws\<rparr>)"

section \<open>What validation means\<close>

text \<open>The credentials each protocol needs, stated without the error list.\<close>

fun credentials_ok :: "vpn_profile \<Rightarrow> vpn_protocol \<Rightarrow> bool" where
  "credentials_ok p Vless \<longleftrightarrow> \<not> blank_opt (auth_uuid (profile_auth p))"
| "credentials_ok p Vmess \<longleftrightarrow> \<not> blank_opt (auth_uuid (profile_auth p))"
| "credentials_ok p Trojan \<longleftrightarrow> \<not> blank_opt (auth_password (profile_auth p))"
| "credentials_ok p Hysteria \<longleftrightarrow> \<not> blank_opt (auth_password (profile_auth p))"
| "credentials_ok p Hysteria2 \<longleftrightarrow> \<not> blank_opt (auth_password (profile_auth p))"
| "credentials_ok p Tuic \<longleftrightarrow> \<not> blank_opt (auth_password (profile_auth p))"
| "credentials_ok p Shadowsocks \<longleftrightarrow>
     \<not> blank_opt (auth_password (profile_auth p)) \<and> \<not> blank_opt (auth_method (profile_auth p))"
| "credentials_ok p WireGuard \<longleftrightarrow> profile_wireguard p \<noteq> None"
| "credentials_ok p Tun \<longleftrightarrow> False"
| "credentials_ok p Mixed \<longleftrightarrow> False"
| "credentials_ok p Socks \<longleftrightarrow> True"
| "credentials_ok p Http \<longleftrightarrow> True"
| "credentials_ok p OlcRtc \<longleftrightarrow>
     (\<exists>key. auth_password (profile_auth p) = Some key \<and> valid_key_hex key) \<and>
     unwrap_or (extra_str p ''provider'') ''wb_stream'' = ''wb_stream''"

lemma validate_protocol_ok [vpn_validate]:
  "fst (validate_protocol p) = [] \<longleftrightarrow> credentials_ok p (profile_protocol p)"
  by (cases "profile_protocol p")
    (auto simp: validate_protocol_def valid_key_hex_def Let_def split: option.splits)

lemma validate_errors_Nil:
  "errors (validate p) = [] \<longleftrightarrow> valid (validate p)"
  by (cases "validate_protocol p") (simp add: validate_def Let_def split del: if_split)

lemma validate_correct [vpn_validate]:
  "valid (validate p) \<longleftrightarrow>
     trim (profile_name p) \<noteq> [] \<and> trim (profile_server p) \<noteq> [] \<and> profile_port p \<noteq> 0 \<and>
     credentials_ok p (profile_protocol p) \<and>
     (profile_reality p \<noteq> None \<longrightarrow> profile_protocol p = Vless)"
proof -
  obtain es ws where v: "validate_protocol p = (es, ws)" by (cases "validate_protocol p")
  then have "es = [] \<longleftrightarrow> credentials_ok p (profile_protocol p)"
    using validate_protocol_ok [of p] by simp
  then show ?thesis by (auto simp: validate_def v)
qed

lemmas validate_rules = validate_correct validate_protocol_ok

lemma list_protocols_complete: "map info_protocol list_protocols = Enum.enum"
  by (simp add: list_protocols_def protocol_table_def enum_vpn_protocol_def)

text \<open>C7: a validator correct for every protocol: it accepts exactly the profiles with a name,
  a server, a port, the credentials of their protocol, and REALITY only with VLESS; the flag
  agrees with the error list.\<close>

theorem validate_iff:
  "(valid (validate p) \<longleftrightarrow> errors (validate p) = []) \<and>
   (valid (validate p) \<longleftrightarrow>
      trim (profile_name p) \<noteq> [] \<and> trim (profile_server p) \<noteq> [] \<and> profile_port p \<noteq> 0 \<and>
      credentials_ok p (profile_protocol p) \<and>
      (profile_reality p = None \<or> profile_protocol p = Vless))"
  by (auto simp: validate_errors_Nil validate_correct)

end
