(* ===== verification/Olc_Config.thy ===== *)
theory Olc_Config
  imports Vpn_Protocols
begin

text \<open>
  \<open>src/olcrtc/mod.rs\<close> and \<open>src/olcrtc/crypto.rs\<close>: reading the OLC RTC settings out of a
  profile, decoding the shared key and the encrypted envelope. The AEAD itself
  (\<open>chacha20poly1305\<close>) and the random nonce are arguments.
\<close>

section \<open>Settings\<close>

definition default_provider :: string where
  "default_provider = ''wb_stream''"

definition default_local_host :: string where
  "default_local_host = ''127.0.0.1''"

definition default_local_port :: u16 where
  "default_local_port = 10808"

record olc_rtc_config =
  cfg_provider :: string
  cfg_room_id :: string
  cfg_key_hex :: string
  cfg_local_host :: string
  cfg_local_port :: u16
  cfg_display_name :: string

definition string_extra :: "vpn_profile \<Rightarrow> string \<Rightarrow> string option" where
  "string_extra p key = opt_filter (\<lambda>v. trim v \<noteq> []) (extra_str p key)"

text \<open>\<open>u16::try_from\<close> of a \<open>u64\<close>.\<close>

definition u16_try_from :: "u64 \<Rightarrow> u16 option" where
  "u16_try_from v = (if v < 65536 then Some (ucast v) else None)"

definition u16_extra :: "vpn_profile \<Rightarrow> string \<Rightarrow> u16 option" where
  "u16_extra p key =
     (case map_of (profile_extra p) key of
        Some (JNum n) \<Rightarrow> Option.bind (as_u64 (JNum n)) u16_try_from
      | Some (JStr s) \<Rightarrow> parse_u16 s
      | _ \<Rightarrow> None)"

definition from_profile :: "vpn_profile \<Rightarrow> olc_rtc_config vpn_result" where
  "from_profile p =
     (let provider = unwrap_or (string_extra p ''provider'') default_provider in
      if provider \<noteq> default_provider
      then Inl (Unsupported (''unsupported OLC RTC provider '' @ provider))
      else
        let room_id = unwrap_or (string_extra p ''roomId'') (profile_server p) in
        if trim room_id = [] then Inl (InvalidProfile ''OLC RTC room id is required'')
        else
          and_then
            (ok_or (or_else (string_extra p ''key'') (auth_password (profile_auth p)))
                   (InvalidProfile ''OLC RTC shared key is required''))
            (\<lambda>key_hex.
               if length key_hex \<noteq> 64 \<or> \<not> list_all is_hexdigit key_hex
               then Inl (InvalidProfile ''OLC RTC shared key must be a 32-byte hex string'')
               else Inr
                 \<lparr>cfg_provider = provider, cfg_room_id = room_id, cfg_key_hex = key_hex,
                  cfg_local_host =
                    unwrap_or (string_extra p ''localHost'') default_local_host,
                  cfg_local_port = unwrap_or (u16_extra p ''localPort'') default_local_port,
                  cfg_display_name = profile_name p\<rparr>))"

definition local_socks_endpoint :: "vpn_profile \<Rightarrow> (string \<times> u16) vpn_result" where
  "local_socks_endpoint p =
     and_then (from_profile p) (\<lambda>config. Inr (cfg_local_host config, cfg_local_port config))"

text \<open>What the rest of the program may assume of settings that were read successfully.\<close>

definition config_ok :: "olc_rtc_config \<Rightarrow> bool" where
  "config_ok c \<longleftrightarrow>
     cfg_provider c = default_provider \<and> trim (cfg_room_id c) \<noteq> [] \<and>
     valid_key_hex (cfg_key_hex c) \<and> trim (cfg_local_host c) \<noteq> []"

lemma trim_wb_stream [simp]: "trim ''wb_stream'' = ''wb_stream''"
  by (rule trim_plain) (simp_all add: plain_edge_def white_space_def)

lemma trim_localhost [simp]: "trim ''127.0.0.1'' = ''127.0.0.1''"
  by (rule trim_plain) (simp_all add: plain_edge_def white_space_def)

lemma string_extra_nonblank: "string_extra p k = Some v \<Longrightarrow> trim v \<noteq> []"
  by (simp add: string_extra_def opt_filter_Some_iff)

lemma unwrap_nonblank: "trim d \<noteq> [] \<Longrightarrow> trim (unwrap_or (string_extra p k) d) \<noteq> []"
  by (cases "string_extra p k") (auto dest: string_extra_nonblank)

text \<open>Settings read from a profile always satisfy what the client relies on: the
  \<open>wb_stream\<close> provider, a room, a 64-digit key, a local host, and the display name is the
  profile's.\<close>

theorem from_profile_sound:
  assumes "from_profile p = Inr c"
  shows "config_ok c \<and> cfg_display_name c = profile_name p \<and>
         cfg_key_hex c = the (or_else (string_extra p ''key'') (auth_password (profile_auth p)))"
proof -
  have host: "trim (unwrap_or (string_extra p ''localHost'') default_local_host) \<noteq> []"
    by (rule unwrap_nonblank) (simp add: default_local_host_def)
  from assms host show ?thesis
    by (auto simp: from_profile_def config_ok_def valid_key_hex_def Let_def vpn_result
             split: if_splits)
qed

lemma validated_provider:
  assumes "unwrap_or (extra_str p ''provider'') ''wb_stream'' = ''wb_stream''"
  shows "unwrap_or (string_extra p ''provider'') default_provider = default_provider"
  using assms by (cases "extra_str p ''provider''")
    (simp_all add: string_extra_def default_provider_def)

text \<open>C34: the validator and the settings reader agree but for one field: a validated OLC RTC
  profile yields settings exactly when its \<open>extra\<close> map holds no non-blank \<open>key\<close> that is
  malformed; that key, which the validator never reads, overrides the validated password.\<close>

theorem validated_olcrtc_settings:
  assumes "valid (validate p)" and "profile_protocol p = OlcRtc"
  shows "(\<exists>c. from_profile p = Inr c) \<longleftrightarrow>
         (\<nexists>k. string_extra p ''key'' = Some k \<and> \<not> valid_key_hex k)"
proof -
  from assms obtain key where key: "auth_password (profile_auth p) = Some key" "valid_key_hex key"
    and prov: "unwrap_or (string_extra p ''provider'') default_provider = default_provider"
    and room: "trim (profile_server p) \<noteq> []"
    by (auto simp: validate_correct intro: validated_provider)
  from room have room': "trim (unwrap_or (string_extra p ''roomId'') (profile_server p)) \<noteq> []"
    by (rule unwrap_nonblank)
  show ?thesis
    by (cases "string_extra p ''key''")
      (use key in \<open>auto simp: from_profile_def Let_def prov room' valid_key_hex_def\<close>)
qed

section \<open>The shared key\<close>

text \<open>\<open>&s[a..b]\<close> on a string also panics where an end is inside a character.\<close>

definition char_boundary :: "string \<Rightarrow> nat \<Rightarrow> bool" where
  "char_boundary s i \<longleftrightarrow>
     i = 0 \<or> i = length s \<or>
     (i < length s \<and> \<not> (128 \<le> (of_char (s ! i) :: nat) \<and> (of_char (s ! i) :: nat) \<le> 191))"

definition str_slice :: "nat \<Rightarrow> nat \<Rightarrow> string \<Rightarrow> string option" where
  "str_slice a b s =
     (if char_boundary s a \<and> char_boundary s b then slice_of a b s else None)"

text \<open>
  The loop of \<open>decode_hex_32\<close> over the remaining indices. \<^const>\<open>None\<close> is a panic.
\<close>

fun decode_hex_loop :: "string \<Rightarrow> nat list \<Rightarrow> byte list \<Rightarrow> (byte list vpn_result) option" where
  "decode_hex_loop input [] bytes = Some (Inr bytes)"
| "decode_hex_loop input (index # rest) bytes =
     (case str_slice (index * 2) (index * 2 + 2) input of
        None \<Rightarrow> None
      | Some h \<Rightarrow>
          (case from_str_radix 16 8 h of
             None \<Rightarrow> Some (Inl (InvalidProfile ''OLC RTC shared key must be hexadecimal''))
           | Some v \<Rightarrow> decode_hex_loop input rest (bytes @ [of_nat v])))"

definition decode_hex_32 :: "string \<Rightarrow> (byte list vpn_result) option" where
  "decode_hex_32 input =
     (if length input \<noteq> 64
      then Some (Inl (InvalidProfile ''OLC RTC shared key must be a 32-byte hex string''))
      else decode_hex_loop input [0..<32] [])"

lemma hexdigit_value:
  assumes "is_hexdigit c"
  obtains d where "to_digit 16 c = Some d" and "d < 16"
  using assms to_digit_bound by (auto simp: is_hexdigit_def)

lemma hexdigit_ascii: "is_hexdigit c \<Longrightarrow> (of_char c :: nat) < 128"
  by (auto simp: is_hexdigit_def to_digit_def Let_def split: if_splits)

lemma hex_pair:
  assumes "is_hexdigit a" and "is_hexdigit b"
  obtains x y where "to_digit 16 a = Some x" and "to_digit 16 b = Some y"
    and "from_str_radix 16 8 [a, b] = Some (x * 16 + y)" and "x * 16 + y < 256"
proof -
  obtain x where x: "to_digit 16 a = Some x" "x < 16" using assms(1) by (rule hexdigit_value)
  obtain y where y: "to_digit 16 b = Some y" "y < 16" using assms(2) by (rule hexdigit_value)
  have "to_digit 16 (CHR ''+'') = None" by (simp add: to_digit_def)
  with x have "a \<noteq> CHR ''+''" by auto
  with x y have "from_str_radix 16 8 [a, b] = Some (x * 16 + y)"
    by (simp add: from_str_radix_def)
  moreover have "x * 16 + y < 256" using x(2) y(2) by simp
  ultimately show ?thesis using that x(1) y(1) by blast
qed

lemma hex_boundary: "list_all is_hexdigit s \<Longrightarrow> i \<le> length s \<Longrightarrow> char_boundary s i"
  using hexdigit_ascii [of "s ! i"] by (auto simp: char_boundary_def list_all_length)

lemma hex_pair_slice:
  assumes "list_all is_hexdigit s" and "i * 2 + 2 \<le> length s"
  shows "str_slice (i * 2) (i * 2 + 2) s = Some [s ! (2 * i), s ! Suc (2 * i)]"
proof -
  have "take 2 (drop (i * 2) s) = [s ! (i * 2), s ! Suc (i * 2)]"
    using assms(2) by (simp add: numeral_2_eq_2 take_Suc_conv_app_nth)
  with assms show ?thesis
    by (simp add: str_slice_def hex_boundary mult.commute)
qed

text \<open>
  The loop invariant: the bytes decoded so far are the number read off the digits consumed.
\<close>

lemma decode_hex_loop_value:
  assumes "list_all is_hexdigit s" and "2 * n \<le> length s" and "i \<le> n"
    and "length acc = i" and "parse_digits 16 0 (take (2 * i) s) = Some (from_be acc)"
  shows "\<exists>bs. decode_hex_loop s [i..<n] acc = Some (Inr bs) \<and> length bs = n \<and>
              parse_digits 16 0 (take (2 * n) s) = Some (from_be bs)"
  using assms(3-5)
proof (induction "n - i" arbitrary: i acc)
  case 0
  then show ?case by auto
next
  case (Suc k)
  then have i: "i < n" by simp
  with assms(2) have len: "i * 2 + 2 \<le> length s" by simp
  have "is_hexdigit (s ! (2 * i))" and "is_hexdigit (s ! Suc (2 * i))"
    using assms(1) len by (auto simp: list_all_length)
  then obtain x y where xy: "to_digit 16 (s ! (2 * i)) = Some x" "to_digit 16 (s ! Suc (2 * i)) = Some y"
      "from_str_radix 16 8 [s ! (2 * i), s ! Suc (2 * i)] = Some (x * 16 + y)" "x * 16 + y < 256"
    by (rule hex_pair)
  let ?acc = "acc @ [of_nat (x * 16 + y)]"
  have "take (2 * Suc i) s = take (2 * i) s @ [s ! (2 * i), s ! Suc (2 * i)]"
    using len by (simp add: take_Suc_conv_app_nth)
  with Suc.prems(3) xy have num: "parse_digits 16 0 (take (2 * Suc i) s) = Some (from_be ?acc)"
    by (simp add: parse_digits_append from_be_snoc unat_byte_of_nat del: of_nat_add of_nat_mult)
  have "decode_hex_loop s [i..<n] acc = decode_hex_loop s [Suc i..<n] ?acc"
    using i by (simp only: upt_conv_Cons decode_hex_loop.simps hex_pair_slice [OF assms(1) len]
        option.case xy(3))
  with Suc.hyps(1) [of "Suc i" ?acc] Suc.hyps(2) Suc.prems i num show ?case
    by (simp del: of_nat_add of_nat_mult)
qed

lemma decoded_key:
  assumes "valid_key_hex key"
  shows "\<exists>bs. decode_hex_32 key = Some (Inr bs) \<and> length bs = 32 \<and>
              parse_digits 16 0 key = Some (from_be bs)"
proof -
  from assms have hex: "list_all is_hexdigit key" and len: "length key = 64"
    by (simp_all add: valid_key_hex_def)
  have "\<exists>bs. decode_hex_loop key [0..<32] [] = Some (Inr bs) \<and> length bs = 32 \<and>
             parse_digits 16 0 (take (2 * 32) key) = Some (from_be bs)"
    by (rule decode_hex_loop_value) (use hex len in \<open>simp_all add: from_be_def\<close>)
  then show ?thesis by (simp add: decode_hex_32_def len)
qed

text \<open>A key that passed the format check decodes without panic or error to the 32
  big-endian bytes of the number its digits write.\<close>

theorem decode_hex_32_correct:
  assumes "valid_key_hex key"
  shows "\<exists>bs. decode_hex_32 key = Some (Inr bs) \<and> length bs = 32 \<and>
              parse_digits 16 0 key = Some (from_be bs)"
  using assms by (rule decoded_key)

section \<open>The encrypted envelope\<close>

text \<open>
  \<open>aead\<close> is the pair of AEAD functions: key, nonce and text to the result, or the error's text.
  The cipher object is the key it was made with.
\<close>

type_synonym aead_fn = "byte list \<Rightarrow> byte list \<Rightarrow> byte list \<Rightarrow> string + byte list"

definition nonce_len :: nat where
  "nonce_len = 24"

definition cipher_from_hex :: "string \<Rightarrow> (byte list vpn_result) option" where
  "cipher_from_hex key_hex = decode_hex_32 key_hex"

definition encrypt :: "aead_fn \<Rightarrow> byte list \<Rightarrow> byte list \<Rightarrow> byte list \<Rightarrow> byte list vpn_result" where
  "encrypt aead_encrypt key nonce plaintext =
     and_then
       (map_err (\<lambda>error. Engine (''OLC RTC encrypt failed: '' @ error))
                (aead_encrypt key nonce plaintext))
       (\<lambda>encrypted. Inr (nonce @ encrypted))"

definition decrypt :: "aead_fn \<Rightarrow> byte list \<Rightarrow> byte list \<Rightarrow> byte list vpn_result" where
  "decrypt aead_decrypt key ciphertext =
     (if length ciphertext < nonce_len
      then Inl (Engine ''OLC RTC ciphertext shorter than nonce'')
      else map_err (\<lambda>error. Engine (''OLC RTC decrypt failed: '' @ error))
             (aead_decrypt key (take nonce_len ciphertext) (drop nonce_len ciphertext)))"

text \<open>What one side seals the other opens, for every AEAD that opens its own output: the
  envelope puts the 24-byte nonce where \<open>decrypt\<close> looks for it.\<close>

theorem decrypt_encrypt:
  assumes aead: "\<And>k n m c. aead_encrypt k n m = Inr c \<Longrightarrow> aead_decrypt k n c = Inr m"
    and nonce: "length nonce = nonce_len"
    and sealed: "encrypt aead_encrypt key nonce plaintext = Inr out"
  shows "decrypt aead_decrypt key out = Inr plaintext \<and> take nonce_len out = nonce"
  using assms by (auto simp: encrypt_def decrypt_def vpn_result)

section \<open>Test vectors\<close>

text \<open>The profile of the test \<open>imports_olcrtc_wbstream_uri\<close>, and its key.\<close>

definition sample_key :: string where
  "sample_key = ''000102030405060708090a0b0c0d0e0f101112131415161718191a1b1c1d1e1f''"

definition sample_olcrtc :: vpn_profile where
  "sample_olcrtc =
     \<lparr>profile_id = 1, profile_name = ''WB'', profile_protocol = OlcRtc,
      profile_server = ''room-123'', profile_port = 443,
      profile_auth = \<lparr>auth_uuid = None, auth_password = Some sample_key,
                      auth_method = None, auth_username = None\<rparr>,
      profile_transport = default_transport, profile_tls = None, profile_reality = None,
      profile_wireguard = None,
      profile_extra = [(''key'', JStr sample_key), (''localPort'', JStr ''18080'')]\<rparr>"

lemma sample_key_valid: "valid_key_hex sample_key"
  by (simp add: valid_key_hex_def sample_key_def is_hexdigit_def to_digit_def)

lemma trim_ends:
  "s = [] \<longleftrightarrow> False \<Longrightarrow> plain_edge (hd s) \<Longrightarrow> plain_edge (last s) \<Longrightarrow> trim s = s"
  by (rule trim_plain) auto

lemma sample_trims [simp]:
  "trim ''WB'' = ''WB''" "trim ''room-123'' = ''room-123''" "trim sample_key = sample_key"
  by (rule trim_plain; simp add: plain_edge_def white_space_def sample_key_def)+

lemma sample_valid: "valid (validate sample_olcrtc)"
  using sample_key_valid
  by (simp add: validate_correct sample_olcrtc_def extra_str_def)

lemma sample_key_not_Nil [simp]: "sample_key \<noteq> []"
  by (simp add: sample_key_def)

lemma sample_settings:
  "from_profile sample_olcrtc =
     Inr \<lparr>cfg_provider = ''wb_stream'', cfg_room_id = ''room-123'', cfg_key_hex = sample_key,
          cfg_local_host = ''127.0.0.1'', cfg_local_port = 18080, cfg_display_name = ''WB''\<rparr>"
proof -
  have port: "parse_u16 ''18080'' = Some 18080"
    by (simp add: parse_u16_def from_str_radix_def to_digit_def)
  from sample_key_valid have "length sample_key = 64" "list_all is_hexdigit sample_key"
    by (simp_all add: valid_key_hex_def)
  with port show ?thesis
    by (simp add: from_profile_def sample_olcrtc_def string_extra_def extra_str_def
        u16_extra_def default_provider_def default_local_host_def)
qed

theorem from_profile_sound_witness:
  "config_ok (the (case from_profile sample_olcrtc of Inr c \<Rightarrow> Some c | Inl _ \<Rightarrow> None))"
  using from_profile_sound [OF sample_settings, THEN conjunct1] by (simp only: sample_settings) simp

theorem validated_olcrtc_settings_witness:
  "valid (validate sample_olcrtc) \<and> (\<exists>c. from_profile sample_olcrtc = Inr c)"
proof -
  have "profile_protocol sample_olcrtc = OlcRtc" by (simp add: sample_olcrtc_def)
  moreover have "\<nexists>k. string_extra sample_olcrtc ''key'' = Some k \<and> \<not> valid_key_hex k"
    using sample_key_valid by (simp add: sample_olcrtc_def string_extra_def extra_str_def)
  ultimately show ?thesis
    using validated_olcrtc_settings [OF sample_valid] sample_valid by blast
qed

theorem decode_hex_32_correct_witness:
  "\<exists>bs. decode_hex_32 sample_key = Some (Inr bs) \<and> length bs = 32 \<and>
        parse_digits 16 0 sample_key = Some (from_be bs)"
  by (rule decode_hex_32_correct) (rule sample_key_valid)

text \<open>A stand-in AEAD for the witness: the text with the key's first byte as its tag.\<close>

theorem decrypt_encrypt_witness:
  "decrypt (\<lambda>k n c. case c of [] \<Rightarrow> Inl ''short'' | t # m \<Rightarrow> if [t] = take 1 k then Inr m else Inl ''tag'')
     [7, 8] (replicate 24 1 @ [7, 104, 105]) = Inr [104, 105]"
proof -
  have "encrypt (\<lambda>k n m. if k = [] then Inl ''key'' else Inr (hd k # m)) [7, 8]
          (replicate 24 1) [104, 105] = Inr (replicate 24 1 @ [7, 104, 105])"
    by (simp add: encrypt_def)
  then show ?thesis
    by (rule decrypt_encrypt [THEN conjunct1, rotated 2])
      (auto simp: nonce_len_def neq_Nil_conv split: if_splits)
qed

end
