(* ===== verification/Sing_Config.thy ===== *)
theory Sing_Config
  imports Olc_Config
begin

text \<open>
  \<open>src/config.rs\<close>: the sing-box configuration generated for a connection, for a given target.
  A result \<^const>\<open>None\<close> would be a panic of \<open>outbound["..."] = ...\<close> on a value that is no
  object; \<open>generate_total\<close> shows it does not happen.
\<close>

named_theorems sing_config \<open>unfolding of the generated configuration\<close>

section \<open>Constants and small helpers\<close>

definition clash_api_addr :: string where
  "clash_api_addr = ''127.0.0.1:19090''"

definition local_network_cidrs :: "string list" where
  "local_network_cidrs =
     [''0.0.0.0/8'', ''10.0.0.0/8'', ''100.64.0.0/10'', ''127.0.0.0/8'', ''169.254.0.0/16'',
      ''172.16.0.0/12'', ''192.168.0.0/16'', ''224.0.0.0/4'', ''255.255.255.255/32'']"

definition tun_address :: "target_os \<Rightarrow> string list" where
  "tun_address os =
     (if os = IOS then [''198.18.0.1/30'', ''fdfe:dcba:9876::1/126''] else [''198.18.0.1/30''])"

definition dns_strategy_fn :: "target_os \<Rightarrow> string" where
  "dns_strategy_fn os = (if os = IOS then ''prefer_ipv4'' else ''ipv4_only'')"

text \<open>The filter that \<open>dns_upstreams_for_options\<close> and \<open>ipv4_only_cidrs\<close> share.\<close>

definition ipv4_text :: "string \<Rightarrow> bool" where
  "ipv4_text s \<longleftrightarrow> s \<noteq> [] \<and> CHR '':'' \<notin> set s"

definition dns_upstreams_for_options :: "connect_options \<Rightarrow> string list" where
  "dns_upstreams_for_options opts =
     (let upstreams = filter ipv4_text (map trim (dns_servers (opt_dns opts))) in
      if upstreams = [] then [''1.1.1.1'', ''8.8.8.8''] else upstreams)"

definition public_doh_server_name :: "string \<Rightarrow> string option" where
  "public_doh_server_name server =
     (if server = ''1.1.1.1'' \<or> server = ''1.0.0.1'' then Some ''cloudflare-dns.com''
      else if server = ''8.8.8.8'' \<or> server = ''8.8.4.4'' then Some ''dns.google''
      else if server = ''9.9.9.9'' \<or> server = ''149.112.112.112'' then Some ''dns.quad9.net''
      else None)"

definition dns_tag :: "nat \<Rightarrow> string" where
  "dns_tag index = ''dns-'' @ show_nat index"

definition dns_server_for_upstream :: "nat \<Rightarrow> string \<Rightarrow> json" where
  "dns_server_for_upstream index server =
     (case public_doh_server_name server of
        Some server_name \<Rightarrow>
          JObj [(''type'', JStr ''https''), (''tag'', JStr (dns_tag index)),
                (''server'', JStr server), (''server_port'', jnat 443),
                (''path'', JStr ''/dns-query''), (''detour'', JStr ''proxy''),
                (''connect_timeout'', JStr ''5s''),
                (''tls'', JObj [(''enabled'', JBool True), (''server_name'', JStr server_name)])]
      | None \<Rightarrow>
          JObj [(''type'', JStr ''tcp''), (''tag'', JStr (dns_tag index)),
                (''server'', JStr server), (''server_port'', jnat 53),
                (''detour'', JStr ''proxy''), (''connect_timeout'', JStr ''5s'')])"

definition dns_servers_for_upstreams :: "string list \<Rightarrow> json list" where
  "dns_servers_for_upstreams upstreams =
     (let bootstrap = (case upstreams of [] \<Rightarrow> ''1.1.1.1'' | u # _ \<Rightarrow> u) in
      JObj [(''type'', JStr ''udp''), (''tag'', JStr ''dns-bootstrap''),
            (''server'', JStr bootstrap), (''server_port'', jnat 53)]
      # map (\<lambda>(index, server). dns_server_for_upstream index server) (enumerate 0 upstreams))"

definition ipv4_only_cidrs :: "string list \<Rightarrow> string list" where
  "ipv4_only_cidrs values = filter ipv4_text (map trim values)"

definition ipv4_only_host_cidrs :: "string list \<Rightarrow> string list" where
  "ipv4_only_host_cidrs values =
     map (\<lambda>v. if CHR ''/'' \<in> set v then v else v @ ''/32'')
         (filter ipv4_text (map trim values))"

section \<open>Route rules\<close>

abbreviation direct_rule :: "(string \<times> json) list \<Rightarrow> json" where
  "direct_rule kvs \<equiv>
     JObj (kvs @ [(''action'', JStr ''route''), (''outbound'', JStr ''direct'')])"

definition catch_all_rule :: json where
  "catch_all_rule =
     JObj [(''network'', jstrs [''tcp'', ''udp'']), (''action'', JStr ''route''),
           (''outbound'', JStr ''proxy'')]"

definition dns_hijack_rule :: json where
  "dns_hijack_rule = JObj [(''protocol'', JStr ''dns''), (''action'', JStr ''hijack-dns'')]"

definition dns_port_hijack_rule :: json where
  "dns_port_hijack_rule =
     JObj [(''network'', JStr ''udp''), (''port'', jnat 53), (''action'', JStr ''hijack-dns'')]"

definition olcrtc_bypass_rules :: "json list" where
  "olcrtc_bypass_rules =
     [direct_rule [(''domain'', jstrs [''stream.wb.ru'', ''wbstream01-el.wb.ru''])],
      direct_rule [(''network'', jstrs [''tcp'', ''udp'']), (''port'', JArr [jnat 3478, jnat 5349])],
      direct_rule [(''network'', JStr ''tcp''), (''port'', jnat 7880)],
      JObj [(''network'', JStr ''udp''), (''action'', JStr ''reject''),
            (''method'', JStr ''default'')]]"

definition bypass_cidrs :: "string list \<Rightarrow> string list" where
  "bypass_cidrs cidrs = filter (\<lambda>c. c \<noteq> []) (map trim cidrs)"

definition dns_upstream_rules :: "target_os \<Rightarrow> string list \<Rightarrow> json list" where
  "dns_upstream_rules os dns_upstreams =
     (if is_mobile os \<and> ipv4_only_host_cidrs dns_upstreams \<noteq> []
      then [direct_rule [(''ip_cidr'', jstrs (ipv4_only_host_cidrs dns_upstreams)),
                         (''network'', jstrs [''tcp'', ''udp'']), (''port'', jnat 53)]]
      else [])"

definition route_rules_for_profile ::
    "target_os \<Rightarrow> vpn_profile \<Rightarrow> string list \<Rightarrow> string list \<Rightarrow> json list" where
  "route_rules_for_profile os p route_bypass_cidrs dns_upstreams =
     dns_upstream_rules os dns_upstreams @
     [dns_hijack_rule, dns_port_hijack_rule,
      direct_rule [(''ip_cidr'', jstrs local_network_cidrs)]] @
     (if bypass_cidrs route_bypass_cidrs = [] then []
      else [direct_rule [(''ip_cidr'', jstrs (bypass_cidrs route_bypass_cidrs))]]) @
     [JObj [(''network'', JStr ''icmp''), (''action'', JStr ''reject''),
            (''method'', JStr ''default'')],
      catch_all_rule] @
     (if profile_protocol p = OlcRtc then olcrtc_bypass_rules else [])"

definition is_quic_protocol :: "vpn_protocol \<Rightarrow> bool" where
  "is_quic_protocol p \<longleftrightarrow> p = Hysteria \<or> p = Hysteria2 \<or> p = Tuic"

definition tun_stack_for_profile :: "target_os \<Rightarrow> vpn_profile \<Rightarrow> string" where
  "tun_stack_for_profile os p =
     (if os = Android \<or> os = IOS \<or> os = MacOS then ''gvisor''
      else if os = Windows \<and> is_quic_protocol (profile_protocol p) then ''gvisor''
      else ''mixed'')"

definition tun_mtu_for_profile :: "vpn_profile \<Rightarrow> u16" where
  "tun_mtu_for_profile p = (if is_quic_protocol (profile_protocol p) then 1500 else 1400)"

section \<open>The outbound\<close>

definition required :: "string option \<Rightarrow> string \<Rightarrow> string vpn_result" where
  "required v field =
     ok_or (opt_filter (\<lambda>s. s \<noteq> []) v) (InvalidProfile (field @ '' is required''))"

fun strip_nulls :: "json \<Rightarrow> json" where
  "strip_nulls (JObj kvs) = JObj (filter (\<lambda>(k, v). \<not> is_null v) kvs)"
| "strip_nulls j = j"

definition supports_utls :: "vpn_protocol \<Rightarrow> bool" where
  "supports_utls p \<longleftrightarrow> \<not> is_quic_protocol p"

definition hysteria2_obfs :: "vpn_profile \<Rightarrow> json option" where
  "hysteria2_obfs p =
     do {
       obfs_type \<leftarrow> extra_str p ''obfs'';
       password \<leftarrow>
         Option.bind (or_else (map_of (profile_extra p) ''obfs-password'')
                              (map_of (profile_extra p) ''obfsPassword'')) as_str;
       Some (JObj [(''type'', JStr obfs_type), (''password'', JStr password)])
     }"

text \<open>The four fields every outbound starts with.\<close>

definition outbound_head :: "string \<Rightarrow> vpn_profile \<Rightarrow> (string \<times> json) list" where
  "outbound_head kind p =
     [(''type'', JStr kind), (''tag'', JStr ''proxy''), (''server'', JStr (profile_server p)),
      (''server_port'', json_u16 (profile_port p))]"

definition wireguard_outbound :: "vpn_profile \<Rightarrow> json vpn_result" where
  "wireguard_outbound p =
     and_then (ok_or (profile_wireguard p) (InvalidProfile ''wireGuard options are required''))
       (\<lambda>wg.
          let local_address = ipv4_only_cidrs (wg_local_address wg) in
          if local_address = []
          then Inl (InvalidProfile ''wireGuard local_address must contain an IPv4 address'')
          else Inr (JObj (outbound_head ''wireguard'' p @
             [(''private_key'', JStr (wg_private_key wg)),
              (''peer_public_key'', json_opt JStr (wg_peer_public_key wg)),
              (''pre_shared_key'', json_opt JStr (wg_pre_shared_key wg)),
              (''local_address'', jstrs local_address),
              (''reserved'', json_opt (\<lambda>bs. JArr (map (\<lambda>b. jnat (unat b)) bs)) (wg_reserved wg))])))"

definition outbound_base :: "vpn_profile \<Rightarrow> json vpn_result" where
  "outbound_base p =
     (let a = profile_auth p in
      case profile_protocol p of
        Vless \<Rightarrow>
          and_then (required (auth_uuid a) ''uuid'') (\<lambda>uuid. Inr (JObj (outbound_head ''vless'' p @
            [(''uuid'', JStr uuid), (''flow'', JStr (unwrap_or (extra_str p ''flow'') []))])))
      | Vmess \<Rightarrow>
          and_then (required (auth_uuid a) ''uuid'') (\<lambda>uuid. Inr (JObj (outbound_head ''vmess'' p @
            [(''uuid'', JStr uuid),
             (''security'', JStr (unwrap_or (extra_str p ''security'') ''auto''))])))
      | Trojan \<Rightarrow>
          and_then (required (auth_password a) ''password'') (\<lambda>pw. Inr (JObj
            (outbound_head ''trojan'' p @ [(''password'', JStr pw)])))
      | Shadowsocks \<Rightarrow>
          and_then (required (auth_method a) ''method'') (\<lambda>m.
          and_then (required (auth_password a) ''password'') (\<lambda>pw. Inr (JObj
            (outbound_head ''shadowsocks'' p @ [(''method'', JStr m), (''password'', JStr pw)]))))
      | WireGuard \<Rightarrow> wireguard_outbound p
      | Hysteria \<Rightarrow>
          and_then (required (auth_password a) ''password'') (\<lambda>pw. Inr (strip_nulls (JObj
            (outbound_head ''hysteria'' p @
             [(''auth_str'', JStr pw), (''up_mbps'', jnat 10000), (''down_mbps'', jnat 10000),
              (''obfs'', json_opt JStr (extra_str p ''obfs''))]))))
      | Hysteria2 \<Rightarrow>
          and_then (required (auth_password a) ''password'') (\<lambda>pw. Inr (strip_nulls (JObj
            (outbound_head ''hysteria2'' p @
             [(''password'', JStr pw), (''obfs'', json_opt (\<lambda>j. j) (hysteria2_obfs p))]))))
      | Tuic \<Rightarrow>
          and_then (required (auth_password a) ''password'') (\<lambda>pw. Inr (JObj
            (outbound_head ''tuic'' p @
             [(''uuid'', json_opt JStr (auth_uuid a)), (''password'', JStr pw)])))
      | Socks \<Rightarrow> Inr (JObj (outbound_head ''socks'' p @
            [(''username'', json_opt JStr (auth_username a)),
             (''password'', json_opt JStr (auth_password a))]))
      | Http \<Rightarrow> Inr (JObj (outbound_head ''http'' p @
            [(''username'', json_opt JStr (auth_username a)),
             (''password'', json_opt JStr (auth_password a))]))
      | OlcRtc \<Rightarrow>
          and_then (local_socks_endpoint p) (\<lambda>(server, port). Inr (JObj
            [(''type'', JStr ''socks''), (''tag'', JStr ''proxy''), (''server'', JStr server),
             (''server_port'', json_u16 port)]))
      | Tun \<Rightarrow> Inl (Unsupported ''local inbound mode cannot be used as outbound'')
      | Mixed \<Rightarrow> Inl (Unsupported ''local inbound mode cannot be used as outbound''))"

definition utls_json :: "vpn_profile \<Rightarrow> string option \<Rightarrow> json" where
  "utls_json p fingerprint =
     (if supports_utls (profile_protocol p)
      then json_opt (\<lambda>f. JObj [(''enabled'', JBool True), (''fingerprint'', JStr f)]) fingerprint
      else JNull)"

definition add_tls_options :: "vpn_profile \<Rightarrow> json \<Rightarrow> json option" where
  "add_tls_options p outbound =
     (case profile_tls p of
        None \<Rightarrow> Some outbound
      | Some tls \<Rightarrow>
          if tls_enabled tls
          then json_set ''tls''
            (JObj [(''enabled'', JBool True),
                   (''server_name'', json_opt JStr (tls_server_name tls)),
                   (''alpn'', jstrs (tls_alpn tls)),
                   (''insecure'', JBool (tls_insecure tls)),
                   (''utls'', utls_json p (tls_fingerprint tls))]) outbound
          else Some outbound)"

definition add_reality :: "vpn_profile \<Rightarrow> json \<Rightarrow> json option" where
  "add_reality p outbound =
     (case profile_reality p of
        None \<Rightarrow> Some outbound
      | Some reality \<Rightarrow>
          json_set ''tls''
            (JObj [(''enabled'', JBool True),
                   (''server_name'',
                      json_opt JStr (Option.bind (profile_tls p) tls_server_name)),
                   (''reality'',
                      JObj [(''enabled'', JBool True),
                            (''public_key'', JStr (reality_public_key reality)),
                            (''short_id'', json_opt JStr (reality_short_id reality))]),
                   (''utls'', utls_json p (Option.bind (profile_tls p) tls_fingerprint))])
            outbound)"

definition add_tls :: "vpn_profile \<Rightarrow> json \<Rightarrow> json option" where
  "add_tls p outbound = Option.bind (add_tls_options p outbound) (add_reality p)"

definition add_transport :: "vpn_profile \<Rightarrow> json \<Rightarrow> json option" where
  "add_transport p outbound =
     (let t = profile_transport p in
      case transport_kind t of
        Tcp \<Rightarrow> Some outbound
      | WebSocket \<Rightarrow> json_set ''transport''
          (JObj [(''type'', JStr ''ws''), (''path'', json_opt JStr (transport_path t)),
                 (''headers'', JObj (map (\<lambda>(k, v). (k, JStr v)) (transport_headers t)))]) outbound
      | Grpc \<Rightarrow> json_set ''transport''
          (JObj [(''type'', JStr ''grpc''),
                 (''service_name'', json_opt JStr (transport_service_name t))]) outbound
      | HttpUpgrade \<Rightarrow> json_set ''transport''
          (JObj [(''type'', JStr ''httpupgrade''), (''path'', json_opt JStr (transport_path t)),
                 (''host'', json_opt JStr (transport_host t))]) outbound
      | Xhttp \<Rightarrow> json_set ''transport''
          (JObj [(''type'', JStr ''xhttp''), (''path'', json_opt JStr (transport_path t)),
                 (''host'', json_opt JStr (transport_host t))]) outbound
      | Quic \<Rightarrow> json_set ''transport'' (JObj [(''type'', JStr ''quic'')]) outbound)"

definition outbound_for_profile :: "vpn_profile \<Rightarrow> (json vpn_result) option" where
  "outbound_for_profile p =
     (case outbound_base p of
        Inl e \<Rightarrow> Some (Inl e)
      | Inr base \<Rightarrow>
          do {
            with_tls \<leftarrow> add_tls p base;
            outbound \<leftarrow> add_transport p with_tls;
            Some (Inr outbound)
          })"

section \<open>The configuration\<close>

definition tun_inbound :: "target_os \<Rightarrow> connect_options \<Rightarrow> json" where
  "tun_inbound os opts =
     JObj [(''type'', JStr ''tun''), (''tag'', JStr ''tun-in''),
           (''address'', jstrs (tun_address os)),
           (''mtu'', json_u16 (tun_mtu_for_profile (opt_profile opts))),
           (''route_exclude_address'', jstrs local_network_cidrs),
           (''auto_route'', JBool True), (''strict_route'', JBool (opt_kill_switch opts)),
           (''endpoint_independent_nat'', JBool True), (''udp_timeout'', JStr ''5m''),
           (''stack'', JStr (tun_stack_for_profile os (opt_profile opts)))]"

definition mixed_inbound :: json where
  "mixed_inbound =
     JObj [(''type'', JStr ''mixed''), (''tag'', JStr ''mixed-in''),
           (''listen'', JStr ''127.0.0.1''), (''listen_port'', jnat 2080)]"

definition config_inbounds :: "target_os \<Rightarrow> connect_options \<Rightarrow> json list" where
  "config_inbounds os opts =
     tun_inbound os opts # (if os = MacOS then [] else [mixed_inbound])"

definition sing_box_json :: "target_os \<Rightarrow> connect_options \<Rightarrow> json \<Rightarrow> json" where
  "sing_box_json os opts outbound =
     (let dns_upstreams = dns_upstreams_for_options opts;
          route_final = (case opt_route_mode opts of Global \<Rightarrow> ''proxy'' | Rule \<Rightarrow> ''proxy'') in
      JObj
        [(''log'', JObj [(''level'', JStr ''info''), (''timestamp'', JBool True)]),
         (''dns'', JObj [(''servers'', JArr (dns_servers_for_upstreams dns_upstreams)),
                         (''strategy'', JStr (dns_strategy_fn os)),
                         (''final'', JStr ''dns-0'')]),
         (''inbounds'', JArr (config_inbounds os opts)),
         (''outbounds'', JArr
            [outbound,
             JObj [(''type'', JStr ''direct''), (''tag'', JStr ''direct'')],
             JObj [(''type'', JStr ''block''), (''tag'', JStr ''block'')]]),
         (''route'', JObj
            [(''rules'', JArr (route_rules_for_profile os (opt_profile opts)
                                 (opt_route_bypass_cidrs opts) dns_upstreams)),
             (''default_domain_resolver'', JStr ''dns-bootstrap''),
             (''final'', JStr route_final),
             (''auto_detect_interface'', JBool True)]),
         (''experimental'', JObj
            [(''clash_api'', JObj [(''external_controller'', JStr clash_api_addr)])])])"

fun join :: "string \<Rightarrow> string list \<Rightarrow> string" where
  "join sep [] = []"
| "join sep [s] = s"
| "join sep (s # ss) = s @ sep @ join sep ss"

definition generate_sing_box_config ::
    "target_os \<Rightarrow> connect_options \<Rightarrow> (json vpn_result) option" where
  "generate_sing_box_config os opts =
     (let validation = validate (opt_profile opts) in
      if \<not> valid validation
      then Some (Inl (InvalidProfile (join ''; '' (errors validation))))
      else
        map_option (\<lambda>r. and_then r (\<lambda>outbound. Inr (sing_box_json os opts outbound)))
          (outbound_for_profile (opt_profile opts)))"

end
