(* ===== verification/Sing_Config_Props.thy ===== *)
theory Sing_Config_Props
  imports Sing_Config
begin

text \<open>
  What the generated configuration promises: generation never panics and fails only for the
  stated reasons, the references between its parts resolve, the DNS servers are the IPv4
  upstreams, and the route rules stand in the stated order.
\<close>

section \<open>The outbound\<close>

fun outbound_type :: "vpn_protocol \<Rightarrow> string" where
  "outbound_type Vless = ''vless''"
| "outbound_type Vmess = ''vmess''"
| "outbound_type Trojan = ''trojan''"
| "outbound_type Shadowsocks = ''shadowsocks''"
| "outbound_type WireGuard = ''wireguard''"
| "outbound_type Hysteria = ''hysteria''"
| "outbound_type Hysteria2 = ''hysteria2''"
| "outbound_type Tuic = ''tuic''"
| "outbound_type Socks = ''socks''"
| "outbound_type Http = ''http''"
| "outbound_type OlcRtc = ''socks''"
| "outbound_type Tun = []"
| "outbound_type Mixed = []"

text \<open>The endpoint sing-box dials: the profile's server, or the local SOCKS5 client.\<close>

definition dial_endpoint :: "vpn_profile \<Rightarrow> (string \<times> u16) vpn_result" where
  "dial_endpoint p =
     (if profile_protocol p = OlcRtc then local_socks_endpoint p
      else Inr (profile_server p, profile_port p))"

text \<open>What a validated profile still needs for an outbound.\<close>

definition outbound_possible :: "vpn_profile \<Rightarrow> bool" where
  "outbound_possible p \<longleftrightarrow>
     (case profile_protocol p of
        WireGuard \<Rightarrow>
          (case profile_wireguard p of
             None \<Rightarrow> False | Some wg \<Rightarrow> ipv4_only_cidrs (wg_local_address wg) \<noteq> [])
      | OlcRtc \<Rightarrow> (case from_profile p of Inl _ \<Rightarrow> False | Inr _ \<Rightarrow> True)
      | _ \<Rightarrow> True)"

text \<open>The object has the outbound's kind, the tag \<open>proxy\<close> and the endpoint.\<close>

definition outbound_fields :: "vpn_profile \<Rightarrow> json \<Rightarrow> bool" where
  "outbound_fields p j \<longleftrightarrow>
     (\<exists>kvs server port. j = JObj kvs \<and> dial_endpoint p = Inr (server, port) \<and>
        map_of kvs ''type'' = Some (JStr (outbound_type (profile_protocol p))) \<and>
        map_of kvs ''tag'' = Some (JStr ''proxy'') \<and>
        map_of kvs ''server'' = Some (JStr server) \<and>
        map_of kvs ''server_port'' = Some (json_u16 port))"

lemma required_ok [simp]: "\<not> blank_opt v \<Longrightarrow> \<exists>s. required v f = Inr s"
  by (cases v) (simp_all add: required_def)

lemma required_unwrap: "\<not> blank_opt v \<Longrightarrow> required v f = Inr (the v)"
  by (cases v) (simp_all add: required_def)

lemma wireguard_outbound_fields:
  assumes "profile_protocol p = WireGuard" and "wireguard_outbound p = Inr j"
  shows "outbound_fields p j"
  using assms
  by (auto simp: wireguard_outbound_def outbound_fields_def outbound_head_def dial_endpoint_def
      Let_def vpn_result split: if_splits)

lemma outbound_base_fields:
  assumes "outbound_base p = Inr j"
  shows "outbound_fields p j"
proof (cases "profile_protocol p = WireGuard")
  case True
  with assms wireguard_outbound_fields show ?thesis by (simp add: outbound_base_def)
next
  case False
  with assms show ?thesis
    by (cases "profile_protocol p")
      (auto simp: outbound_base_def outbound_fields_def outbound_head_def dial_endpoint_def
        Let_def vpn_result is_null.simps json_u16_def)
qed

lemma outbound_base_possible:
  assumes "credentials_ok p (profile_protocol p)"
  shows "(\<exists>j. outbound_base p = Inr j) \<longleftrightarrow> outbound_possible p"
  using assms
  by (cases "profile_protocol p")
    (auto simp: outbound_base_def outbound_possible_def wireguard_outbound_def required_unwrap
      local_socks_endpoint_def Let_def vpn_result split: sum.splits option.splits)

lemma json_set_fields:
  assumes "outbound_fields p j" and "k \<in> {''tls'', ''transport''}"
  shows "\<exists>j'. json_set k v j = Some j' \<and> outbound_fields p j'"
  using assms by (auto simp: outbound_fields_def update_conv')

lemma add_tls_options_fields:
  "outbound_fields p j \<Longrightarrow> \<exists>j'. add_tls_options p j = Some j' \<and> outbound_fields p j'"
  by (simp add: add_tls_options_def json_set_fields split: option.split)

lemma add_reality_fields:
  "outbound_fields p j \<Longrightarrow> \<exists>j'. add_reality p j = Some j' \<and> outbound_fields p j'"
  by (simp add: add_reality_def json_set_fields split: option.split)

lemma add_tls_fields:
  "outbound_fields p j \<Longrightarrow> \<exists>j'. add_tls p j = Some j' \<and> outbound_fields p j'"
  using add_tls_options_fields add_reality_fields by (fastforce simp: add_tls_def)

lemma add_transport_fields:
  "outbound_fields p j \<Longrightarrow> \<exists>j'. add_transport p j = Some j' \<and> outbound_fields p j'"
  by (cases "transport_kind (profile_transport p)")
    (simp_all add: add_transport_def json_set_fields Let_def)

lemma outbound_for_profile_cases:
  obtains (error) e where "outbound_base p = Inl e" "outbound_for_profile p = Some (Inl e)"
  | (ok) base j where "outbound_base p = Inr base" "outbound_for_profile p = Some (Inr j)"
      "outbound_fields p j"
proof (cases "outbound_base p")
  case (Inl e)
  then show ?thesis using error by (simp add: outbound_for_profile_def)
next
  case (Inr base)
  then have "outbound_fields p base" by (rule outbound_base_fields)
  then obtain t where t: "add_tls p base = Some t" "outbound_fields p t"
    using add_tls_fields by blast
  then obtain j where j: "add_transport p t = Some j" "outbound_fields p j"
    using add_transport_fields by blast
  show ?thesis by (rule ok [of base j]) (use Inr t j in \<open>simp_all add: outbound_for_profile_def\<close>)
qed

section \<open>Generation\<close>

lemma generate_ok_iff:
  "generate_sing_box_config os opts = Some (Inr cfg) \<longleftrightarrow>
     valid (validate (opt_profile opts)) \<and>
     (\<exists>j. outbound_for_profile (opt_profile opts) = Some (Inr j) \<and> cfg = sing_box_json os opts j)"
  by (auto simp: generate_sing_box_config_def Let_def vpn_result)

lemma generate_not_None: "generate_sing_box_config os opts \<noteq> None"
  by (cases rule: outbound_for_profile_cases [of "opt_profile opts"])
    (simp_all add: generate_sing_box_config_def Let_def)

lemma generate_success_iff:
  "(\<exists>cfg. generate_sing_box_config os opts = Some (Inr cfg)) \<longleftrightarrow>
     valid (validate (opt_profile opts)) \<and> outbound_possible (opt_profile opts)"
proof (cases "valid (validate (opt_profile opts))")
  case False
  then show ?thesis by (simp add: generate_sing_box_config_def)
next
  case True
  then have "credentials_ok (opt_profile opts) (profile_protocol (opt_profile opts))"
    by (simp add: validate_correct)
  then have base: "(\<exists>j. outbound_base (opt_profile opts) = Inr j) \<longleftrightarrow>
      outbound_possible (opt_profile opts)"
    by (rule outbound_base_possible)
  show ?thesis
    by (cases rule: outbound_for_profile_cases [of "opt_profile opts"])
      (use True base in \<open>auto simp: generate_sing_box_config_def Let_def\<close>)
qed

text \<open>C9: generation is total and its failures are exactly the stated ones: it never panics,
  and it returns a configuration exactly for a validated profile that, for WireGuard, has an
  IPv4 local address and, for OLC RTC, has readable settings.\<close>

theorem generate_total:
  "generate_sing_box_config os opts \<noteq> None \<and>
   ((\<exists>cfg. generate_sing_box_config os opts = Some (Inr cfg)) \<longleftrightarrow>
      valid (validate (opt_profile opts)) \<and> outbound_possible (opt_profile opts))"
  by (simp add: generate_not_None generate_success_iff)

text \<open>An invalid profile is refused with every validation message, and nothing else is
  computed.\<close>

theorem generate_invalid:
  assumes "\<not> valid (validate (opt_profile opts))"
  shows "generate_sing_box_config os opts =
           Some (Inl (InvalidProfile (join ''; '' (errors (validate (opt_profile opts))))))"
  using assms by (simp add: generate_sing_box_config_def)

fun elems :: "json \<Rightarrow> json list" where
  "elems (JArr js) = js"
| "elems _ = []"

lemma generated_outbound:
  assumes "generate_sing_box_config os opts = Some (Inr cfg)"
  obtains j where "cfg = sing_box_json os opts j" "outbound_fields (opt_profile opts) j"
proof -
  from assms obtain j where j: "outbound_for_profile (opt_profile opts) = Some (Inr j)"
    "cfg = sing_box_json os opts j" by (auto simp: generate_ok_iff)
  from j(1) have "outbound_fields (opt_profile opts) j"
    by (cases rule: outbound_for_profile_cases [of "opt_profile opts"]) auto
  with j(2) that show ?thesis by blast
qed

text \<open>C24: the first outbound is the profile: its sing-box type, the tag \<open>proxy\<close>, and the
  endpoint to dial (the local SOCKS5 client for OLC RTC, the server otherwise).\<close>

theorem generated_proxy_outbound:
  assumes "generate_sing_box_config os opts = Some (Inr cfg)"
  shows "\<exists>server port. dial_endpoint (opt_profile opts) = Inr (server, port) \<and>
     (let proxy = hd (elems (json_index cfg ''outbounds'')) in
      json_index proxy ''type'' = JStr (outbound_type (profile_protocol (opt_profile opts))) \<and>
      json_index proxy ''tag'' = JStr ''proxy'' \<and>
      json_index proxy ''server'' = JStr server \<and>
      json_index proxy ''server_port'' = json_u16 port)"
proof -
  from assms obtain j where cfg: "cfg = sing_box_json os opts j"
    and j: "outbound_fields (opt_profile opts) j" by (rule generated_outbound)
  have "json_index cfg ''outbounds'' =
      JArr [j, JObj [(''type'', JStr ''direct''), (''tag'', JStr ''direct'')],
            JObj [(''type'', JStr ''block''), (''tag'', JStr ''block'')]]"
    by (simp add: cfg sing_box_json_def Let_def)
  with j show ?thesis by (auto simp: outbound_fields_def)
qed

section \<open>References between the parts\<close>

definition config_outbounds :: "json \<Rightarrow> json list" where
  "config_outbounds cfg = elems (json_index cfg ''outbounds'')"

definition config_dns_servers :: "json \<Rightarrow> json list" where
  "config_dns_servers cfg = elems (json_index (json_index cfg ''dns'') ''servers'')"

definition config_rules :: "json \<Rightarrow> json list" where
  "config_rules cfg = elems (json_index (json_index cfg ''route'') ''rules'')"

definition tags_of :: "json list \<Rightarrow> json list" where
  "tags_of js = map (\<lambda>j. json_index j ''tag'') js"

definition outbound_refs :: "json \<Rightarrow> json list" where
  "outbound_refs cfg =
     json_index (json_index cfg ''route'') ''final'' #
     filter (\<lambda>j. j \<noteq> JNull)
       (map (\<lambda>s. json_index s ''detour'') (config_dns_servers cfg) @
        map (\<lambda>r. json_index r ''outbound'') (config_rules cfg))"

definition dns_refs :: "json \<Rightarrow> json list" where
  "dns_refs cfg =
     [json_index (json_index cfg ''dns'') ''final'',
      json_index (json_index cfg ''route'') ''default_domain_resolver'']"

lemma config_parts [simp, sing_config]:
  "config_outbounds (sing_box_json os opts j) =
     [j, JObj [(''type'', JStr ''direct''), (''tag'', JStr ''direct'')],
      JObj [(''type'', JStr ''block''), (''tag'', JStr ''block'')]]"
  "config_dns_servers (sing_box_json os opts j) =
     dns_servers_for_upstreams (dns_upstreams_for_options opts)"
  "config_rules (sing_box_json os opts j) =
     route_rules_for_profile os (opt_profile opts) (opt_route_bypass_cidrs opts)
       (dns_upstreams_for_options opts)"
  "json_index (json_index (sing_box_json os opts j) ''route'') ''final'' = JStr ''proxy''"
  "json_index (json_index (sing_box_json os opts j) ''route'') ''default_domain_resolver'' =
     JStr ''dns-bootstrap''"
  "json_index (json_index (sing_box_json os opts j) ''dns'') ''final'' = JStr ''dns-0''"
  "json_index (json_index (sing_box_json os opts j) ''dns'') ''strategy'' = JStr (dns_strategy_fn os)"
  by (simp_all add: config_outbounds_def config_dns_servers_def config_rules_def
      sing_box_json_def Let_def split: route_mode.split)

lemma dns_server_fields [simp, sing_config]:
  "json_index (dns_server_for_upstream i s) ''tag'' = JStr (dns_tag i)"
  "json_index (dns_server_for_upstream i s) ''detour'' = JStr ''proxy''"
  "json_index (dns_server_for_upstream i s) ''server'' = JStr s"
  by (simp_all add: dns_server_for_upstream_def split: option.split)

lemma dns_tag_inj [simp]: "dns_tag i = dns_tag j \<longleftrightarrow> i = j"
  by (simp add: dns_tag_def)

lemma dns_tag_not_bootstrap [simp]: "dns_tag i \<noteq> ''dns-bootstrap''"
proof
  assume "dns_tag i = ''dns-bootstrap''"
  then have "CHR ''b'' \<in> set (show_nat i)" by (simp add: dns_tag_def)
  from show_nat_digits [OF this] show False by simp
qed

text \<open>The servers of the upstreams from a given index on.\<close>

definition upstream_servers :: "nat \<Rightarrow> string list \<Rightarrow> json list" where
  "upstream_servers n us = map (\<lambda>(i, s). dns_server_for_upstream i s) (enumerate n us)"

lemma upstream_servers_simps [simp]:
  "upstream_servers n [] = []"
  "upstream_servers n (u # us) = dns_server_for_upstream n u # upstream_servers (Suc n) us"
  by (simp_all add: upstream_servers_def)

lemma dns_servers_eq:
  "us \<noteq> [] \<Longrightarrow> dns_servers_for_upstreams us =
     JObj [(''type'', JStr ''udp''), (''tag'', JStr ''dns-bootstrap''),
           (''server'', JStr (hd us)), (''server_port'', jnat 53)] # upstream_servers 0 us"
  by (cases us) (simp_all add: dns_servers_for_upstreams_def upstream_servers_def)

lemma upstream_server_fields [sing_config]:
  "map (\<lambda>s. json_index s ''tag'') (upstream_servers n us) =
     map (\<lambda>i. JStr (dns_tag i)) [n..<n + length us]"
  "map (\<lambda>s. json_index s ''server'') (upstream_servers n us) = map JStr us"
  "map (\<lambda>s. json_index s ''detour'') (upstream_servers n us) =
     replicate (length us) (JStr ''proxy'')"
  by (induction us arbitrary: n) (simp_all add: upt_conv_Cons del: upt_Suc)

lemma dns_tags:
  "us \<noteq> [] \<Longrightarrow> tags_of (dns_servers_for_upstreams us) =
     JStr ''dns-bootstrap'' # map (\<lambda>i. JStr (dns_tag i)) [0..<length us]"
  by (simp add: tags_of_def dns_servers_eq upstream_server_fields)

lemma dns_upstreams_ok:
  "dns_upstreams_for_options opts \<noteq> []"
  "list_all ipv4_text (dns_upstreams_for_options opts)"
  by (auto simp: dns_upstreams_for_options_def list_all_iff Let_def ipv4_text_def)

lemma rule_outbounds:
  "r \<in> set (route_rules_for_profile os p cidrs us) \<Longrightarrow>
     json_index r ''outbound'' \<in> {JNull, JStr ''direct'', JStr ''proxy''}"
  by (auto simp: route_rules_for_profile_def dns_upstream_rules_def dns_hijack_rule_def
      dns_port_hijack_rule_def catch_all_rule_def olcrtc_bypass_rules_def split: if_splits)

lemma dns_detours:
  "s \<in> set (dns_servers_for_upstreams us) \<Longrightarrow>
     json_index s ''detour'' \<in> {JNull, JStr ''proxy''}"
  by (auto simp: dns_servers_for_upstreams_def Let_def)

lemma proxy_tags:
  "outbound_fields p j \<Longrightarrow>
     tags_of [j, JObj [(''type'', JStr ''direct''), (''tag'', JStr ''direct'')],
              JObj [(''type'', JStr ''block''), (''tag'', JStr ''block'')]] =
       [JStr ''proxy'', JStr ''direct'', JStr ''block'']"
  by (auto simp: tags_of_def outbound_fields_def)

text \<open>C5: no dangling reference. Every outbound a rule, a DNS detour or the final route names is
  defined, every DNS server the DNS and route sections name is defined, and no tag is defined
  twice, whatever the profile, the bypass list and the number of upstreams.\<close>

theorem generated_references:
  assumes "generate_sing_box_config os opts = Some (Inr cfg)"
  shows "set (outbound_refs cfg) \<subseteq> set (tags_of (config_outbounds cfg)) \<and>
         set (dns_refs cfg) \<subseteq> set (tags_of (config_dns_servers cfg)) \<and>
         distinct (tags_of (config_outbounds cfg)) \<and>
         distinct (tags_of (config_dns_servers cfg))"
proof -
  from assms obtain j where cfg: "cfg = sing_box_json os opts j"
    and j: "outbound_fields (opt_profile opts) j" by (rule generated_outbound)
  let ?us = "dns_upstreams_for_options opts"
  have out: "set (tags_of (config_outbounds cfg)) = {JStr ''proxy'', JStr ''direct'', JStr ''block''}"
    using j by (simp add: cfg proxy_tags)
  have "set (outbound_refs cfg) \<subseteq> {JStr ''proxy'', JStr ''direct''}"
    using rule_outbounds dns_detours by (fastforce simp: outbound_refs_def cfg)
  moreover have "set (dns_refs cfg) \<subseteq> set (tags_of (config_dns_servers cfg))"
  proof -
    have "dns_tag 0 = ''dns-0''"
      by code_simp
    moreover have "JStr (dns_tag 0) \<in> (\<lambda>i. JStr (dns_tag i)) ` {0..<length ?us}"
      using dns_upstreams_ok(1) [of opts] by (intro imageI) simp
    ultimately show ?thesis
      using dns_upstreams_ok(1) [of opts] by (simp add: dns_refs_def cfg dns_tags)
  qed
  moreover have "distinct (tags_of (config_outbounds cfg))"
    using j by (simp add: cfg proxy_tags)
  moreover have "distinct (tags_of (config_dns_servers cfg))"
    using dns_upstreams_ok(1) [of opts] by (auto simp: cfg dns_tags distinct_map inj_on_def
        dest: sym [of "''dns-bootstrap''"])
  ultimately show ?thesis by (auto simp: out)
qed

section \<open>DNS and the order of the rules\<close>

text \<open>The resolvers are the trimmed IPv4 upstreams in the user's order (or the two public
  defaults when none is left); the bootstrap resolver is the first of them and is dialled
  directly, all others go through the proxy.\<close>

theorem generated_dns:
  assumes "generate_sing_box_config os opts = Some (Inr cfg)"
  shows "\<exists>us. us = (let v4 = filter ipv4_text (map trim (dns_servers (opt_dns opts)))
                     in if v4 = [] then [''1.1.1.1'', ''8.8.8.8''] else v4) \<and>
           us \<noteq> [] \<and> list_all ipv4_text us \<and>
           map (\<lambda>s. json_index s ''server'') (config_dns_servers cfg) = map JStr (hd us # us) \<and>
           map (\<lambda>s. json_index s ''detour'') (config_dns_servers cfg) =
             JNull # replicate (length us) (JStr ''proxy'')"
proof -
  from assms obtain j where cfg: "cfg = sing_box_json os opts j" by (rule generated_outbound)
  have us: "dns_upstreams_for_options opts =
      (let v4 = filter ipv4_text (map trim (dns_servers (opt_dns opts)))
       in if v4 = [] then [''1.1.1.1'', ''8.8.8.8''] else v4)"
    by (simp add: dns_upstreams_for_options_def)
  have ne: "dns_upstreams_for_options opts \<noteq> []"
    and v4: "list_all ipv4_text (dns_upstreams_for_options opts)" by (rule dns_upstreams_ok)+
  show ?thesis
    unfolding us [symmetric] cfg config_parts dns_servers_eq [OF ne]
    using ne v4 by (simp add: upstream_server_fields)
qed

text \<open>C23: the order of the rules. On Android and iOS the first rule sends the upstream resolvers
  directly, before any DNS hijack, and it is never missing; elsewhere the hijack rules come
  first. Local networks are routed directly before the rule that sends the rest to the proxy.\<close>

theorem generated_rule_order:
  assumes "generate_sing_box_config os opts = Some (Inr cfg)"
  shows "\<exists>direct_dns post.
           config_rules cfg =
             direct_dns @ [dns_hijack_rule, dns_port_hijack_rule,
                           direct_rule [(''ip_cidr'', jstrs local_network_cidrs)]] @ post \<and>
           catch_all_rule \<in> set post \<and>
           (if is_mobile os
            then direct_dns =
              [direct_rule
                 [(''ip_cidr'', jstrs (ipv4_only_host_cidrs (dns_upstreams_for_options opts))),
                  (''network'', jstrs [''tcp'', ''udp'']), (''port'', jnat 53)]]
            else direct_dns = [])"
proof -
  from assms obtain j where cfg: "cfg = sing_box_json os opts j" by (rule generated_outbound)
  have "set (dns_upstreams_for_options opts) \<subseteq> {s. trim s = s}"
    by (auto simp: dns_upstreams_for_options_def Let_def trim_plain plain_edge_def white_space_def)
  then have "filter ipv4_text (map trim (dns_upstreams_for_options opts)) \<noteq> []"
    using dns_upstreams_ok [of opts]
    by (cases "dns_upstreams_for_options opts") auto
  then have "ipv4_only_host_cidrs (dns_upstreams_for_options opts) \<noteq> []"
    by (simp add: ipv4_only_host_cidrs_def)
  then have dns: "dns_upstream_rules os (dns_upstreams_for_options opts) =
      (if is_mobile os
       then [direct_rule
               [(''ip_cidr'', jstrs (ipv4_only_host_cidrs (dns_upstreams_for_options opts))),
                (''network'', jstrs [''tcp'', ''udp'']), (''port'', jnat 53)]]
       else [])"
    by (simp add: dns_upstream_rules_def)
  show ?thesis
    unfolding cfg config_parts route_rules_for_profile_def append_assoc
    by (intro exI conjI, rule refl) (simp_all add: dns)
qed

text \<open>The transport bypass rules of an OLC RTC connection stand after the rule that sends
  all TCP and UDP to the proxy, and none of them stands before it.\<close>

theorem olcrtc_bypass_after_catch_all:
  assumes "generate_sing_box_config os opts = Some (Inr cfg)"
    and "profile_protocol (opt_profile opts) = OlcRtc"
  shows "\<exists>pre. config_rules cfg = pre @ catch_all_rule # olcrtc_bypass_rules \<and>
               set pre \<inter> set olcrtc_bypass_rules = {}"
proof -
  from assms(1) obtain j where cfg: "cfg = sing_box_json os opts j" by (rule generated_outbound)
  let ?pre = "dns_upstream_rules os (dns_upstreams_for_options opts) @
      [dns_hijack_rule, dns_port_hijack_rule,
       direct_rule [(''ip_cidr'', jstrs local_network_cidrs)]] @
      (if bypass_cidrs (opt_route_bypass_cidrs opts) = [] then []
       else [direct_rule [(''ip_cidr'', jstrs (bypass_cidrs (opt_route_bypass_cidrs opts)))]]) @
      [JObj [(''network'', JStr ''icmp''), (''action'', JStr ''reject''),
             (''method'', JStr ''default'')]]"
  have "config_rules cfg = ?pre @ catch_all_rule # olcrtc_bypass_rules"
    using assms(2) by (simp add: cfg route_rules_for_profile_def)
  moreover have "set ?pre \<inter> set olcrtc_bypass_rules = {}"
    by (simp add: dns_upstream_rules_def dns_hijack_rule_def dns_port_hijack_rule_def
        olcrtc_bypass_rules_def)
  ultimately show ?thesis by blast
qed

text \<open>The TUN address and the resolver strategy are IPv4-only on every target but iOS.\<close>

theorem ipv4_only_targets:
  assumes "generate_sing_box_config os opts = Some (Inr cfg)"
  shows "json_index (json_index cfg ''dns'') ''strategy'' = JStr ''ipv4_only'' \<and>
         elems (json_index (hd (elems (json_index cfg ''inbounds''))) ''address'') =
           [JStr ''198.18.0.1/30''] \<longleftrightarrow> os \<noteq> IOS"
proof -
  from assms obtain j where cfg: "cfg = sing_box_json os opts j" by (rule generated_outbound)
  have "hd (elems (json_index cfg ''inbounds'')) = tun_inbound os opts"
    by (simp add: cfg sing_box_json_def config_inbounds_def Let_def)
  then show ?thesis
    by (simp add: cfg tun_inbound_def tun_address_def dns_strategy_fn_def)
qed

section \<open>Witnesses\<close>

text \<open>The options of the tests, over the OLC RTC test profile.\<close>

definition sample_options :: connect_options where
  "sample_options =
     \<lparr>opt_profile = sample_olcrtc, opt_route_mode = Global, opt_route_bypass_cidrs = [],
      opt_dns = default_dns_options, opt_kill_switch = True\<rparr>"

definition sample_config :: "target_os \<Rightarrow> json" where
  "sample_config os =
     (case generate_sing_box_config os sample_options of
        Some (Inr cfg) \<Rightarrow> cfg | _ \<Rightarrow> JNull)"

lemma sample_protocol [simp]: "profile_protocol sample_olcrtc = OlcRtc"
  by (simp add: sample_olcrtc_def)

lemma sample_generates:
  "generate_sing_box_config os sample_options = Some (Inr (sample_config os))"
proof -
  have "outbound_possible sample_olcrtc"
    by (simp add: outbound_possible_def sample_settings)
  then have "\<exists>cfg. generate_sing_box_config os sample_options = Some (Inr cfg)"
    using sample_valid by (simp add: generate_success_iff sample_options_def)
  then show ?thesis by (auto simp: sample_config_def)
qed

theorem generate_invalid_witness:
  "generate_sing_box_config Linux
     (sample_options\<lparr>opt_profile := sample_olcrtc\<lparr>profile_port := 0\<rparr>\<rparr>) =
     Some (Inl (InvalidProfile ''port must be greater than zero''))"
proof -
  let ?opts = "sample_options\<lparr>opt_profile := sample_olcrtc\<lparr>profile_port := 0\<rparr>\<rparr>"
  have "valid_key_hex sample_key" by (rule sample_key_valid)
  then have e: "errors (validate (opt_profile ?opts)) = [''port must be greater than zero'']"
    by (simp add: validate_def validate_protocol_def sample_olcrtc_def valid_key_hex_def
        extra_str_def)
  moreover have "\<not> valid (validate (opt_profile ?opts))"
    by (simp add: validate_correct)
  ultimately show ?thesis using generate_invalid [of ?opts Linux] by simp
qed

theorem generated_proxy_outbound_witness:
  "json_index (hd (elems (json_index (sample_config Linux) ''outbounds''))) ''server_port'' =
     json_u16 18080"
  using generated_proxy_outbound [OF sample_generates [of Linux]]
  by (simp add: sample_options_def dial_endpoint_def local_socks_endpoint_def sample_settings Let_def)

theorem generated_references_witness:
  "distinct (tags_of (config_dns_servers (sample_config Linux)))"
  using generated_references [OF sample_generates [of Linux]] by blast

theorem generated_dns_witness:
  "map (\<lambda>s. json_index s ''server'') (config_dns_servers (sample_config Linux)) =
     [JStr ''1.1.1.1'', JStr ''1.1.1.1'', JStr ''8.8.8.8'']"
proof -
  have "trim ''1.1.1.1'' = ''1.1.1.1''" and "trim ''8.8.8.8'' = ''8.8.8.8''"
    by (rule trim_plain; simp add: plain_edge_def white_space_def)+
  then show ?thesis
    using generated_dns [OF sample_generates [of Linux]]
    by (simp add: sample_options_def default_dns_options_def ipv4_text_def)
qed

theorem generated_rule_order_witness:
  "catch_all_rule \<in> set (config_rules (sample_config Android))"
  using generated_rule_order [OF sample_generates [of Android]] by auto

theorem olcrtc_bypass_after_catch_all_witness:
  "\<exists>pre. config_rules (sample_config Windows) = pre @ catch_all_rule # olcrtc_bypass_rules"
  using olcrtc_bypass_after_catch_all [OF sample_generates [of Windows]]
  by (auto simp: sample_options_def sample_olcrtc_def)

theorem ipv4_only_targets_witness:
  "json_index (json_index (sample_config Linux) ''dns'') ''strategy'' = JStr ''ipv4_only''"
  using ipv4_only_targets [OF sample_generates [of Linux]] by simp

end
