(* ===== verification/Mux.thy ===== *)
theory Mux
  imports Vpn_Models
begin

text \<open>
  \<open>src/olcrtc/mux.rs\<close>: many byte streams over one channel of frames. The state behind the lock is
  a value that every operation takes and returns; one call of an operation here is one critical
  section of the code (\<open>send_data\<close> takes the lock once per chunk). A \<open>tokio::sync::Notify\<close> is
  a handle, and the handles that hold a stored permit are part of the state. The send callback is
  an argument that threads its own state.

  The frame is \<open>client (4) | sid (2) | length (2) | seq (4) | payload\<close>, big-endian.
\<close>

named_theorems mux \<open>lookup and update of multiplexer states\<close>

definition header_size :: nat where
  "header_size = 12"

definition chunk_size :: nat where
  "chunk_size = 7000"

definition control_stream_id :: u16 where
  "control_stream_id = 0xFFFF"

definition control_reset_client :: u32 where
  "control_reset_client = 1"

definition max_out_of_order :: nat where
  "max_out_of_order = 100"

record stream =
  st_client_id :: u32
  recv_buf :: "byte list"
  closed :: bool
  next_recv_seq :: u32
  next_send_seq :: u32
  out_of_order :: "(u32, byte list) btree_map"
  notify :: nat

record multiplexer =
  mux_client_id :: u32
  streams :: "(u16, stream) btree_map"
  next_id :: u16
  permits :: "nat list"
  next_notify :: nat

record control_frame =
  ctl_client_id :: u32
  ctl_kind :: u32

type_synonym frame = "byte list"
type_synonym 'p send_fn = "frame \<Rightarrow> 'p \<Rightarrow> unit vpn_result \<times> 'p"

section \<open>State helpers\<close>

text \<open>\<open>Stream { client_id, notify, ..Stream::default() }\<close>.\<close>

definition new_stream :: "u32 \<Rightarrow> nat \<Rightarrow> stream" where
  "new_stream client_id h =
     \<lparr>st_client_id = client_id, recv_buf = [], closed = False, next_recv_seq = 0,
      next_send_seq = 0, out_of_order = [], notify = h\<rparr>"

definition mux_new :: "u32 \<Rightarrow> multiplexer" where
  "mux_new client_id =
     \<lparr>mux_client_id = client_id, streams = [], next_id = 1, permits = [], next_notify = 0\<rparr>"

abbreviation stream_at :: "multiplexer \<Rightarrow> u16 \<Rightarrow> stream option" where
  "stream_at m sid \<equiv> map_of (streams m) sid"

definition put_stream :: "u16 \<Rightarrow> stream \<Rightarrow> multiplexer \<Rightarrow> multiplexer" where
  "put_stream sid st m = m\<lparr>streams := AList.update sid st (streams m)\<rparr>"

text \<open>\<open>notify_one\<close>: store a permit; at most one is kept per handle.\<close>

definition notify_one :: "nat \<Rightarrow> multiplexer \<Rightarrow> multiplexer" where
  "notify_one h m = m\<lparr>permits := List.insert h (permits m)\<rparr>"

text \<open>\<open>streams.entry(sid).or_insert_with(...)\<close> with a fresh \<open>Notify\<close>.\<close>

definition entry_or_insert :: "u16 \<Rightarrow> u32 \<Rightarrow> multiplexer \<Rightarrow> stream \<times> multiplexer" where
  "entry_or_insert sid client_id m =
     (case stream_at m sid of
        Some st \<Rightarrow> (st, m)
      | None \<Rightarrow>
          let st = new_stream client_id (next_notify m)
          in (st, put_stream sid st (m\<lparr>next_notify := Suc (next_notify m)\<rparr>)))"

section \<open>Opening a stream\<close>

text \<open>
  The loop of \<open>open_stream\<close> runs under the lock and has no bound of its own; \<^const>\<open>None\<close> is a
  run that does not return.
\<close>

partial_function (option) open_stream :: "multiplexer \<Rightarrow> (u16 \<times> multiplexer) option" where
  "open_stream m =
     (let fetched = next_id m;
          m' = m\<lparr>next_id := fetched + 1\<rparr>;
          sid = (if fetched = 0 then 1 else fetched)
      in case stream_at m' sid of
           None \<Rightarrow>
             Some (sid, put_stream sid (new_stream 0 (next_notify m'))
                          (m'\<lparr>next_notify := Suc (next_notify m')\<rparr>))
         | Some _ \<Rightarrow> open_stream m')"

section \<open>Sending\<close>

definition data_frame :: "u32 \<Rightarrow> u16 \<Rightarrow> u32 \<Rightarrow> byte list \<Rightarrow> frame" where
  "data_frame client_id sid seq chunk =
     be_u32 client_id @ be_u16 sid @ be_u16 (of_nat (length chunk)) @ be_u32 seq @ chunk"

fun send_chunks ::
    "'p send_fn \<Rightarrow> u16 \<Rightarrow> byte list list \<Rightarrow> multiplexer \<Rightarrow> 'p \<Rightarrow>
     unit vpn_result \<times> multiplexer \<times> 'p" where
  "send_chunks send sid [] m p = (Inr (), m, p)"
| "send_chunks send sid (chunk # rest) m p =
     (case stream_at m sid of
        None \<Rightarrow> (Inr (), m, p)
      | Some st \<Rightarrow>
          if closed st then (Inr (), m, p)
          else
            let seq = next_send_seq st;
                m' = put_stream sid (st\<lparr>next_send_seq := next_send_seq st + 1\<rparr>) m
            in case send (data_frame (mux_client_id m) sid seq chunk) p of
                 (Inl e, p') \<Rightarrow> (Inl e, m', p')
               | (Inr _, p') \<Rightarrow> send_chunks send sid rest m' p')"

definition send_data ::
    "'p send_fn \<Rightarrow> u16 \<Rightarrow> byte list \<Rightarrow> multiplexer \<Rightarrow> 'p \<Rightarrow> unit vpn_result \<times> multiplexer \<times> 'p" where
  "send_data send sid data m p = send_chunks send sid (chunks chunk_size data) m p"

text \<open>The state change of \<open>close_stream\<close>, and the close frame it sends.\<close>

definition close_local :: "u16 \<Rightarrow> multiplexer \<Rightarrow> multiplexer" where
  "close_local sid m =
     (case stream_at m sid of
        None \<Rightarrow> m
      | Some st \<Rightarrow> notify_one (notify st) (put_stream sid (st\<lparr>closed := True\<rparr>) m))"

definition close_frame :: "u32 \<Rightarrow> u16 \<Rightarrow> frame" where
  "close_frame client_id sid = be_u32 client_id @ be_u16 sid @ be_u16 0 @ be_u32 0"

definition close_stream ::
    "'p send_fn \<Rightarrow> u16 \<Rightarrow> multiplexer \<Rightarrow> 'p \<Rightarrow> unit vpn_result \<times> multiplexer \<times> 'p" where
  "close_stream send sid m p =
     (let m' = close_local sid m;
          (r, p') = send (close_frame (mux_client_id m) sid) p
      in (r, m', p'))"

definition reset_frame :: "u32 \<Rightarrow> frame" where
  "reset_frame client_id =
     be_u32 client_id @ be_u16 control_stream_id @ be_u16 0xFFFF @ be_u32 control_reset_client"

definition send_client_reset :: "'p send_fn \<Rightarrow> multiplexer \<Rightarrow> 'p \<Rightarrow> unit vpn_result \<times> 'p" where
  "send_client_reset send m p =
     (if mux_client_id m = 0
      then (Inl (Engine ''OLC RTC client reset requires a non-zero client id''), p)
      else send (reset_frame (mux_client_id m)) p)"

section \<open>Receiving\<close>

text \<open>\<^const>\<open>None\<close> is a panic of a slice, \<open>Some None\<close> is no control frame.\<close>

definition parse_control_frame :: "frame \<Rightarrow> control_frame option option" where
  "parse_control_frame frame =
     do {
       sid \<leftarrow> slice_of 4 6 frame;
       len \<leftarrow> slice_of 6 8 frame;
       if u16_from_be sid \<noteq> control_stream_id \<or> u16_from_be len \<noteq> 0xFFFF then Some None
       else do {
         client \<leftarrow> slice_of 0 4 frame;
         kind \<leftarrow> slice_of 8 12 frame;
         Some (Some \<lparr>ctl_client_id = u32_from_be client, ctl_kind = u32_from_be kind\<rparr>)
       }
     }"

definition reset_client :: "u32 \<Rightarrow> multiplexer \<Rightarrow> multiplexer" where
  "reset_client client_id m =
     (let gone = filter (\<lambda>(sid, st). st_client_id st = client_id) (streams m);
          m' = m\<lparr>streams := filter (\<lambda>(sid, st). st_client_id st \<noteq> client_id) (streams m)\<rparr>
      in fold (\<lambda>(sid, st). notify_one (notify st)) gone m')"

definition mark_closed :: "u16 \<Rightarrow> u32 \<Rightarrow> multiplexer \<Rightarrow> multiplexer" where
  "mark_closed sid client_id m =
     (case stream_at m sid of
        None \<Rightarrow> m
      | Some st \<Rightarrow>
          if st_client_id st = client_id
          then notify_one (notify st) (put_stream sid (st\<lparr>closed := True\<rparr>) m)
          else m)"

text \<open>The \<open>while let\<close> loop that moves buffered segments into the receive buffer.\<close>

function drain :: "stream \<Rightarrow> stream" where
  "drain st =
     (case map_of (out_of_order st) (next_recv_seq st) of
        None \<Rightarrow> st
      | Some data \<Rightarrow>
          drain (st\<lparr>recv_buf := recv_buf st @ data,
                    next_recv_seq := next_recv_seq st + 1,
                    out_of_order := AList.delete (next_recv_seq st) (out_of_order st)\<rparr>))"
  by pat_completeness auto
termination
proof (relation "measure (\<lambda>st. length (out_of_order st))", simp)
  fix st :: stream and data
  assume "map_of (out_of_order st) (next_recv_seq st) = Some data"
  then have "(next_recv_seq st, data) \<in> set (out_of_order st)" by (rule map_of_SomeD)
  then have "length (AList.delete (next_recv_seq st) (out_of_order st)) < length (out_of_order st)"
    unfolding AList.delete_eq by (rule length_filter_less) simp
  then show "(st\<lparr>recv_buf := recv_buf st @ data,
                next_recv_seq := next_recv_seq st + 1,
                out_of_order := AList.delete (next_recv_seq st) (out_of_order st)\<rparr>, st)
          \<in> measure (\<lambda>st. length (out_of_order st))"
    by simp
qed

declare drain.simps [simp del]

text \<open>One segment for a stream: the new stream and whether its reader is notified.\<close>

definition accept_segment :: "u32 \<Rightarrow> byte list \<Rightarrow> stream \<Rightarrow> stream \<times> bool" where
  "accept_segment seq payload st =
     (if seq = next_recv_seq st
      then (drain (st\<lparr>recv_buf := recv_buf st @ payload,
                      next_recv_seq := next_recv_seq st + 1\<rparr>), True)
      else if next_recv_seq st < seq \<and> length (out_of_order st) < max_out_of_order
      then (st\<lparr>out_of_order := AList.update seq payload (out_of_order st)\<rparr>, False)
      else (st, False))"

definition adopt_client :: "u32 \<Rightarrow> stream \<Rightarrow> stream" where
  "adopt_client client_id st =
     (if st_client_id st \<noteq> client_id then new_stream client_id (notify st) else st)"

definition receive_data :: "u32 \<Rightarrow> u16 \<Rightarrow> u32 \<Rightarrow> byte list \<Rightarrow> multiplexer \<Rightarrow> multiplexer" where
  "receive_data client_id sid seq payload m =
     (let (st, m') = entry_or_insert sid client_id m;
          (st', wake) = accept_segment seq payload (adopt_client client_id st);
          m'' = put_stream sid st' m'
      in if wake then notify_one (notify st') m'' else m'')"

definition handle_frame :: "frame \<Rightarrow> multiplexer \<Rightarrow> multiplexer option" where
  "handle_frame frame m =
     (if length frame < header_size then Some m
      else do {
        control \<leftarrow> parse_control_frame frame;
        case control of
          Some c \<Rightarrow>
            Some (if ctl_kind c = control_reset_client then reset_client (ctl_client_id c) m else m)
        | None \<Rightarrow>
            do {
              client \<leftarrow> slice_of 0 4 frame;
              sid \<leftarrow> slice_of 4 6 frame;
              len \<leftarrow> slice_of 6 8 frame;
              seq \<leftarrow> slice_of 8 12 frame;
              let n = unat (u16_from_be len);
              if n = 0 then Some (mark_closed (u16_from_be sid) (u32_from_be client) m)
              else if length frame < header_size + n then Some m
              else do {
                payload \<leftarrow> slice_of header_size (header_size + n) frame;
                Some (receive_data (u32_from_be client) (u16_from_be sid) (u32_from_be seq) payload m)
              }
            }
      })"

section \<open>Reading\<close>

definition read_stream :: "u16 \<Rightarrow> multiplexer \<Rightarrow> byte list \<times> multiplexer" where
  "read_stream sid m =
     (case stream_at m sid of
        None \<Rightarrow> ([], m)
      | Some st \<Rightarrow> (recv_buf st, put_stream sid (st\<lparr>recv_buf := []\<rparr>) m))"

definition ready :: "stream \<Rightarrow> bool" where
  "ready st \<longleftrightarrow> recv_buf st \<noteq> [] \<or> closed st"

text \<open>
  One round of \<open>wait_for_data\<close>: \<^const>\<open>None\<close> when it returns, the handle to wait on otherwise.
  A missing stream is created.
\<close>

definition wait_check :: "u16 \<Rightarrow> multiplexer \<Rightarrow> nat option \<times> multiplexer" where
  "wait_check sid m =
     (let (st, m') = entry_or_insert sid (mux_client_id m) m
      in (if ready st then None else Some (notify st), m'))"

text \<open>\<open>notified().await\<close> returns when the handle holds a permit, and takes it.\<close>

definition consume_permit :: "nat \<Rightarrow> multiplexer \<Rightarrow> multiplexer option" where
  "consume_permit h m =
     (if h \<in> set (permits m) then Some (m\<lparr>permits := removeAll h (permits m)\<rparr>) else None)"

definition stream_closed :: "u16 \<Rightarrow> multiplexer \<Rightarrow> bool" where
  "stream_closed sid m = (case stream_at m sid of None \<Rightarrow> True | Some st \<Rightarrow> closed st)"

section \<open>Basic facts\<close>

lemma stream_at_put [simp, mux]:
  "stream_at (put_stream sid st m) k = (if k = sid then Some st else stream_at m k)"
  by (simp add: put_stream_def update_conv')

lemma put_stream_other [simp, mux]:
  "mux_client_id (put_stream sid st m) = mux_client_id m"
  "next_id (put_stream sid st m) = next_id m"
  "permits (put_stream sid st m) = permits m"
  "next_notify (put_stream sid st m) = next_notify m"
  by (simp_all add: put_stream_def)

lemma notify_one_other [simp, mux]:
  "streams (notify_one h m) = streams m"
  "mux_client_id (notify_one h m) = mux_client_id m"
  "next_id (notify_one h m) = next_id m"
  "next_notify (notify_one h m) = next_notify m"
  "set (permits (notify_one h m)) = insert h (set (permits m))"
  by (simp_all add: notify_one_def)

lemma new_stream_fields [simp, mux]:
  "st_client_id (new_stream c h) = c" "recv_buf (new_stream c h) = []"
  "closed (new_stream c h) = False" "next_recv_seq (new_stream c h) = 0"
  "next_send_seq (new_stream c h) = 0" "out_of_order (new_stream c h) = []"
  "notify (new_stream c h) = h"
  by (simp_all add: new_stream_def)

lemma drain_frame [simp, mux]:
  "st_client_id (drain st) = st_client_id st" "closed (drain st) = closed st"
  "next_send_seq (drain st) = next_send_seq st" "notify (drain st) = notify st"
proof (induction st rule: drain.induct)
  case (1 st)
  { case 1 then show ?case using "1.IH" by (simp add: drain.simps [of st] split: option.split) }
  { case 2 then show ?case using "1.IH" by (simp add: drain.simps [of st] split: option.split) }
  { case 3 then show ?case using "1.IH" by (simp add: drain.simps [of st] split: option.split) }
  { case 4 then show ?case using "1.IH" by (simp add: drain.simps [of st] split: option.split) }
qed

lemma accept_segment_frame [simp, mux]:
  "st_client_id (fst (accept_segment q d st)) = st_client_id st"
  "closed (fst (accept_segment q d st)) = closed st"
  "next_send_seq (fst (accept_segment q d st)) = next_send_seq st"
  "notify (fst (accept_segment q d st)) = notify st"
  by (simp_all add: accept_segment_def)

end
