(* ===== verification/Mux_Frames.thy ===== *)
theory Mux_Frames
  imports Mux
begin

text \<open>
  The frame format and the allocation of stream ids: what a sender writes is what a receiver
  reads, no bytes from the network panic the receiver, and \<open>open_stream\<close> returns exactly when an
  id is free.
\<close>

section \<open>Parsing\<close>

lemma header_slices:
  "slice_of 0 4 (be_u32 c @ rest) = Some (be_u32 c)"
  "slice_of 4 6 (be_u32 c @ be_u16 s @ rest) = Some (be_u16 s)"
  "slice_of 6 8 (be_u32 c @ be_u16 s @ be_u16 l @ rest) = Some (be_u16 l)"
  "slice_of 8 12 (be_u32 c @ be_u16 s @ be_u16 l @ be_u32 q @ rest) = Some (be_u32 q)"
  by (simp_all add: slice_of_def)

lemma payload_slice:
  "slice_of header_size (header_size + n) (be_u32 c @ be_u16 s @ be_u16 l @ be_u32 q @ rest) =
     (if n \<le> length rest then Some (take n rest) else None)"
  by (simp add: slice_of_def header_size_def)

text \<open>What \<open>handle_frame\<close> does with a frame given by its header fields.\<close>

lemma handle_frame_header:
  "handle_frame (be_u32 c @ be_u16 s @ be_u16 l @ be_u32 q @ rest) m =
     Some (if s = control_stream_id \<and> l = 0xFFFF
           then (if q = control_reset_client then reset_client c m else m)
           else if l = 0 then mark_closed s c m
           else if length rest < unat l then m
           else receive_data c s q (take (unat l) rest) m)"
proof -
  have len: "length (be_u32 c @ be_u16 s @ be_u16 l @ be_u32 q @ rest) = header_size + length rest"
    by (simp add: header_size_def)
  have ctl: "parse_control_frame (be_u32 c @ be_u16 s @ be_u16 l @ be_u32 q @ rest) =
      Some (if s \<noteq> control_stream_id \<or> l \<noteq> 0xFFFF then None
            else Some \<lparr>ctl_client_id = c, ctl_kind = q\<rparr>)"
    by (simp add: parse_control_frame_def header_slices)
  have zero: "unat l = 0 \<longleftrightarrow> l = 0" by (rule unat_eq_zero)
  show ?thesis
    unfolding handle_frame_def len ctl
    by (auto simp: header_slices payload_slice zero Let_def)
qed

lemma frame_header_exists:
  assumes "header_size \<le> length frame"
  obtains c s l q rest where "frame = be_u32 c @ be_u16 s @ be_u16 l @ be_u32 q @ rest"
proof -
  let ?a = "take 4 frame" and ?b = "take 2 (drop 4 frame)"
    and ?c = "take 2 (drop 6 frame)" and ?d = "take 4 (drop 8 frame)"
  have "drop 4 frame = ?b @ drop 6 frame" using append_take_drop_id [of 2 "drop 4 frame"] by simp
  moreover have "drop 6 frame = ?c @ drop 8 frame"
    using append_take_drop_id [of 2 "drop 6 frame"] by simp
  moreover have "drop 8 frame = ?d @ drop 12 frame"
    using append_take_drop_id [of 4 "drop 8 frame"] by simp
  ultimately have split: "frame = ?a @ ?b @ ?c @ ?d @ drop 12 frame"
    using append_take_drop_id [of 4 frame] by simp
  have len: "length ?a = 4" "length ?b = 2" "length ?c = 2" "length ?d = 4"
    using assms by (auto simp: header_size_def)
  have "be_u32 (u32_from_be ?a) = ?a" "be_u16 (u16_from_be ?b) = ?b"
    "be_u16 (u16_from_be ?c) = ?c" "be_u32 (u32_from_be ?d) = ?d"
    using len by (simp_all only: c16.enc_dec c32.enc_dec)
  with split that show ?thesis by metis
qed

lemma handle_frame_never_None: "handle_frame frame m \<noteq> None"
proof (cases "header_size \<le> length frame")
  case True
  then obtain c s l q rest where "frame = be_u32 c @ be_u16 s @ be_u16 l @ be_u32 q @ rest"
    by (rule frame_header_exists)
  then show ?thesis by (simp add: handle_frame_header)
next
  case False
  then show ?thesis by (simp add: handle_frame_def)
qed

text \<open>The length a frame announces, and the frames that do not hold what they announce.\<close>

definition announced :: "frame \<Rightarrow> u16" where
  "announced frame = u16_from_be (take 2 (drop 6 frame))"

definition truncated :: "frame \<Rightarrow> bool" where
  "truncated frame \<longleftrightarrow>
     length frame < header_size \<or>
     (announced frame \<noteq> 0xFFFF \<and> length frame < header_size + unat (announced frame))"

text \<open>C18: no frame from the network, of any length and content, makes \<open>handle_frame\<close> panic, and a
  frame shorter than its header or than the length it announces changes nothing.\<close>

theorem handle_frame_robust:
  "\<exists>m'. handle_frame frame m = Some m' \<and> (truncated frame \<longrightarrow> m' = m)"
proof (cases "header_size \<le> length frame")
  case True
  then obtain c s l q rest where frame: "frame = be_u32 c @ be_u16 s @ be_u16 l @ be_u32 q @ rest"
    by (rule frame_header_exists)
  have "announced frame = l" by (simp add: announced_def frame)
  moreover have "length frame = header_size + length rest" by (simp add: frame header_size_def)
  moreover have "l = 0 \<Longrightarrow> \<not> length rest < unat l" by simp
  ultimately show ?thesis
    unfolding frame handle_frame_header truncated_def by auto
next
  case False
  then show ?thesis by (simp add: handle_frame_def)
qed

theorem handle_frame_robust_witness:
  "truncated [1, 2, 3] \<and> handle_frame [1, 2, 3] (mux_new 7) = Some (mux_new 7)"
proof -
  have "truncated [1, 2, 3]" by (simp add: truncated_def header_size_def)
  with handle_frame_robust [of "[1, 2, 3]" "mux_new 7"] show ?thesis by blast
qed

section \<open>What is sent\<close>

text \<open>
  A data frame of at most \<open>chunk_size\<close> bytes announces its true length and is never taken for a
  control frame, not even on the control stream's id.
\<close>

lemma chunk_length_fits:
  "length chunk \<le> chunk_size \<Longrightarrow> unat (of_nat (length chunk) :: u16) = length chunk"
  by (simp add: chunk_size_def unat_of_nat)

lemma chunk_length_not_control:
  assumes "length chunk \<le> chunk_size"
  shows "(of_nat (length chunk) :: u16) \<noteq> 0xFFFF"
proof
  assume "(of_nat (length chunk) :: u16) = 0xFFFF"
  then have "unat (of_nat (length chunk) :: u16) = unat (0xFFFF :: u16)" by simp
  with assms show False by (simp add: chunk_length_fits) (simp add: chunk_size_def)
qed

lemma handle_data_frame:
  assumes "0 < length chunk" and "length chunk \<le> chunk_size"
  shows "handle_frame (data_frame c sid seq chunk) m = Some (receive_data c sid seq chunk m)"
proof -
  have "unat (of_nat (length chunk) :: u16) \<noteq> 0"
    using assms by (simp add: chunk_length_fits)
  then have "(of_nat (length chunk) :: u16) \<noteq> 0" by auto
  with assms show ?thesis
    unfolding data_frame_def handle_frame_header
    by (simp add: chunk_length_fits chunk_length_not_control)
qed

text \<open>C19: every frame this side writes is read back as what it meant: data frames as their
  segment, the close frame as a close of its stream, the reset frame as a reset of its client;
  no data frame is mistaken for a control frame.\<close>

theorem frame_roundtrip:
  "(0 < length chunk \<and> length chunk \<le> chunk_size \<longrightarrow>
      handle_frame (data_frame c sid seq chunk) m = Some (receive_data c sid seq chunk m)) \<and>
   handle_frame (close_frame c sid) m = Some (mark_closed sid c m) \<and>
   handle_frame (reset_frame c) m = Some (reset_client c m)"
proof (intro conjI impI)
  show "handle_frame (data_frame c sid seq chunk) m = Some (receive_data c sid seq chunk m)"
    if "0 < length chunk \<and> length chunk \<le> chunk_size"
    using that by (simp add: handle_data_frame)
  show "handle_frame (close_frame c sid) m = Some (mark_closed sid c m)"
    using handle_frame_header [of c sid 0 0 "[]" m] by (simp add: close_frame_def)
  show "handle_frame (reset_frame c) m = Some (reset_client c m)"
    using handle_frame_header [of c control_stream_id "0xFFFF" control_reset_client "[]" m]
    by (simp add: reset_frame_def)
qed

theorem frame_roundtrip_witness:
  "handle_frame (data_frame 1 5 0 [104, 105]) (mux_new 9) =
     Some (receive_data 1 5 0 [104, 105] (mux_new 9))"
  using frame_roundtrip [of "[104, 105]" 1 5 0 "mux_new 9"] by (simp add: chunk_size_def)

section \<open>Opening streams\<close>

definition id_free :: "multiplexer \<Rightarrow> u16 \<Rightarrow> bool" where
  "id_free m sid \<longleftrightarrow> sid \<noteq> 0 \<and> stream_at m sid = None"

text \<open>What \<open>open_stream\<close> returns, when it returns.\<close>

definition opened :: "multiplexer \<Rightarrow> u16 \<times> multiplexer \<Rightarrow> bool" where
  "opened m r \<longleftrightarrow>
     (case r of (sid, m') \<Rightarrow>
        id_free m sid \<and>
        (\<forall>k. stream_at m' k =
               (if k = sid then Some (new_stream 0 (next_notify m)) else stream_at m k)) \<and>
        next_notify m' = Suc (next_notify m) \<and> permits m' = permits m \<and>
        mux_client_id m' = mux_client_id m)"

lemma open_stream_opened:
  assumes "open_stream m = Some r"
  shows "opened m r"
proof (rule open_stream.raw_induct [where P = opened, OF _ assms])
  fix f :: "multiplexer \<Rightarrow> (u16 \<times> multiplexer) option" and m r
  assume IH: "\<And>m r. f m = Some r \<Longrightarrow> opened m r"
    and eq: "(let fetched = next_id m; m' = m\<lparr>next_id := fetched + 1\<rparr>;
                  sid = (if fetched = 0 then 1 else fetched)
              in case stream_at m' sid of
                   None \<Rightarrow> Some (sid, put_stream sid (new_stream 0 (next_notify m'))
                                      (m'\<lparr>next_notify := Suc (next_notify m')\<rparr>))
                 | Some _ \<Rightarrow> f m') = Some r"
  let ?sid = "if next_id m = 0 then 1 else next_id m"
  show "opened m r"
  proof (cases "stream_at m ?sid")
    case None
    with eq have "r = (?sid, put_stream ?sid (new_stream 0 (next_notify m))
        (m\<lparr>next_id := next_id m + 1, next_notify := Suc (next_notify m)\<rparr>))"
      by (simp add: Let_def)
    with None show ?thesis by (simp add: opened_def id_free_def)
  next
    case (Some st)
    with eq have "f (m\<lparr>next_id := next_id m + 1\<rparr>) = Some r" by (simp add: Let_def)
    then have "opened (m\<lparr>next_id := next_id m + 1\<rparr>) r" by (rule IH)
    then show ?thesis by (simp add: opened_def id_free_def split: prod.splits)
  qed
qed

lemma unat_minus_Suc:
  fixes s n :: u16
  assumes "s \<noteq> n"
  shows "unat (s - (n + 1)) < unat (s - n)"
proof -
  from assms have "s - n \<noteq> 0" by simp
  then have "unat (s - n - 1) < unat (s - n)" by (rule measure_unat)
  then show ?thesis by (simp add: algebra_simps)
qed

lemma open_stream_returns:
  assumes "id_free m s"
  shows "open_stream m \<noteq> None"
  using assms
proof (induction "unat (s - next_id m)" arbitrary: m rule: less_induct)
  case less
  let ?sid = "if next_id m = 0 then 1 else next_id m"
  show ?case
  proof (cases "stream_at m ?sid")
    case None
    then show ?thesis by (subst open_stream.simps) (simp add: Let_def)
  next
    case (Some st)
    with less.prems have "s \<noteq> next_id m" by (auto simp: id_free_def)
    then have "unat (s - (next_id m + 1)) < unat (s - next_id m)" by (rule unat_minus_Suc)
    with less.hyps [of "m\<lparr>next_id := next_id m + 1\<rparr>"] less.prems
    have "open_stream (m\<lparr>next_id := next_id m + 1\<rparr>) \<noteq> None"
      by (simp add: id_free_def)
    with Some show ?thesis by (subst open_stream.simps) (simp add: Let_def)
  qed
qed

lemma open_stream_None_iff: "open_stream m = None \<longleftrightarrow> (\<forall>sid. \<not> id_free m sid)"
proof
  show "open_stream m = None \<Longrightarrow> \<forall>sid. \<not> id_free m sid"
    using open_stream_returns by blast
  show "\<forall>sid. \<not> id_free m sid \<Longrightarrow> open_stream m = None"
    using open_stream_opened [of m] by (cases "open_stream m") (auto simp: opened_def)
qed

text \<open>C35: \<open>open_stream\<close> returns exactly when some id from 1 to 65535 is free; then the id it
  returns was free and is never 0, its stream is new, and no other stream changes. With every id
  taken the loop runs forever, holding the lock.\<close>

theorem open_stream_spec:
  "((\<exists>r. open_stream m = Some r) \<longleftrightarrow> (\<exists>sid. sid \<noteq> 0 \<and> stream_at m sid = None)) \<and>
   (case open_stream m of
      None \<Rightarrow> True
    | Some (sid, m') \<Rightarrow>
        sid \<noteq> 0 \<and> stream_at m sid = None \<and>
        (\<forall>k. stream_at m' k =
               (if k = sid then Some (new_stream 0 (next_notify m)) else stream_at m k)))"
proof -
  have "(\<exists>r. open_stream m = Some r) \<longleftrightarrow> (\<exists>sid. id_free m sid)"
    using open_stream_None_iff [of m] by (cases "open_stream m") auto
  then show ?thesis
    using open_stream_opened [of m] by (auto simp: id_free_def opened_def split: option.split)
qed

text \<open>Closing never gives an id back: \<open>close_stream\<close>, a close frame from the peer and reading
  keep every stream in the table, so only a client reset can free ids for \<open>open_stream\<close>.\<close>

theorem closing_keeps_ids:
  "(\<forall>k. stream_at (fst (snd (close_stream send sid m p))) k = None \<longleftrightarrow> stream_at m k = None) \<and>
   (\<forall>k. stream_at (mark_closed sid c m) k = None \<longleftrightarrow> stream_at m k = None) \<and>
   (\<forall>k. stream_at (snd (read_stream sid m)) k = None \<longleftrightarrow> stream_at m k = None)"
  by (auto simp: close_stream_def close_local_def mark_closed_def read_stream_def Let_def
      split: option.split prod.split)

end
