(* ===== verification/Mux_Delivery.thy ===== *)
theory Mux_Delivery
  imports Mux_Frames
begin

text \<open>
  Reassembly. The contract of a receiver that puts numbered segments back in order is a locale;
  the lemma that a whole run of arrivals delivers everything, in order and once, is proved there
  from the laws of one arrival. The stream of the multiplexer is shown to be such a receiver, for
  a window of 100 segments, and the result is carried to frames and to a sender and a receiver.
\<close>

section \<open>The contract\<close>

text \<open>
  \<open>got s\<close> is the set of segment numbers that have arrived, \<open>segs\<close> the segments in order and
  \<open>window\<close> how far ahead of a missing segment an arrival may be.
\<close>

locale reassembler =
  fixes deliver :: "nat \<Rightarrow> 's \<Rightarrow> 's"
    and got :: "'s \<Rightarrow> nat set"
    and invar :: "'s \<Rightarrow> bool"
    and out :: "'s \<Rightarrow> 'b list"
    and before :: "'b list"
    and segs :: "'b list list"
    and window :: nat
  assumes deliver_invar:
      "invar s \<Longrightarrow> i < length segs \<Longrightarrow> {..<i - window} \<subseteq> got s \<Longrightarrow> invar (deliver i s)"
    and deliver_got:
      "invar s \<Longrightarrow> i < length segs \<Longrightarrow> {..<i - window} \<subseteq> got s \<Longrightarrow>
         got (deliver i s) = insert i (got s)"
    and output_prefix:
      "invar s \<Longrightarrow> \<exists>k. k \<notin> got s \<and> {..<k} \<subseteq> got s \<and> out s = before @ concat (take k segs)"
begin

lemma run:
  assumes "invar s" and "set js \<subseteq> {..<length segs}"
    and "\<And>pre i post. js = pre @ i # post \<Longrightarrow> {..<i - window} \<subseteq> got s \<union> set pre"
  shows "invar (fold deliver js s) \<and> got (fold deliver js s) = got s \<union> set js"
  using assms
proof (induction js arbitrary: s)
  case Nil
  then show ?case by simp
next
  case (Cons i js)
  have win: "{..<i - window} \<subseteq> got s" using Cons.prems(3) [of "[]" i js] by simp
  have i: "i < length segs" using Cons.prems(2) by simp
  have inv: "invar (deliver i s)" and got: "got (deliver i s) = insert i (got s)"
    using deliver_invar deliver_got Cons.prems(1) i win by blast+
  have "invar (fold deliver js (deliver i s)) \<and>
        got (fold deliver js (deliver i s)) = got (deliver i s) \<union> set js"
  proof (rule Cons.IH [OF inv])
    show "set js \<subseteq> {..<length segs}" using Cons.prems(2) by simp
    fix pre j post assume "js = pre @ j # post"
    then show "{..<j - window} \<subseteq> got (deliver i s) \<union> set pre"
      using Cons.prems(3) [of "i # pre" j post] by (auto simp: got)
  qed
  with got show ?case by simp
qed

text \<open>At every moment the output is a prefix of what was sent.\<close>

lemma output_is_prefix: "invar s \<Longrightarrow> prefix (out s) (before @ concat segs)"
proof -
  assume "invar s"
  then obtain k where "out s = before @ concat (take k segs)" using output_prefix by blast
  moreover have "concat segs = concat (take k segs) @ concat (drop k segs)"
    by (metis append_take_drop_id concat_append)
  ultimately show ?thesis by (simp add: prefix_def)
qed

lemma complete:
  assumes "invar s" and "{..<length segs} \<subseteq> got s"
  shows "out s = before @ concat segs"
proof -
  obtain k where k: "k \<notin> got s" "out s = before @ concat (take k segs)"
    using output_prefix [OF assms(1)] by blast
  with assms(2) have "length segs \<le> k" by (meson lessThan_iff not_le subsetD)
  with k(2) show ?thesis by simp
qed

lemma run_complete:
  assumes "invar s" and "set js \<subseteq> {..<length segs}" and "{..<length segs} \<subseteq> got s \<union> set js"
    and "\<And>pre i post. js = pre @ i # post \<Longrightarrow> {..<i - window} \<subseteq> got s \<union> set pre"
  shows "out (fold deliver js s) = before @ concat segs"
proof -
  have "invar (fold deliver js s) \<and> got (fold deliver js s) = got s \<union> set js"
    by (rule run) (use assms in blast)+
  with assms(3) complete show ?thesis by simp
qed

end

section \<open>Sequence numbers\<close>

text \<open>Segment number \<open>i\<close> carries \<open>base + i\<close>; \<open>seg_index\<close> reads the number back.\<close>

definition seg_seq :: "u32 \<Rightarrow> nat \<Rightarrow> u32" where
  "seg_seq base i = base + of_nat i"

definition seg_index :: "u32 \<Rightarrow> u32 \<Rightarrow> nat" where
  "seg_index base q = unat (q - base)"

lemma seg_index_seq [simp]: "i < 2 ^ 32 \<Longrightarrow> seg_index base (seg_seq base i) = i"
  by (simp add: seg_index_def seg_seq_def unat_of_nat)

lemma seg_seq_index [simp]: "seg_seq base (seg_index base q) = q"
  by (simp add: seg_index_def seg_seq_def)

lemma seg_index_inj: "seg_index base p = seg_index base q \<longleftrightarrow> p = q"
  using seg_seq_index by metis

lemma seg_index_Suc:
  "seg_index base q + 1 < 2 ^ 32 \<Longrightarrow> seg_index base (q + 1) = seg_index base q + 1"
proof -
  assume "seg_index base q + 1 < 2 ^ 32"
  then have "seg_index base (seg_seq base (seg_index base q + 1)) = seg_index base q + 1"
    by (rule seg_index_seq)
  moreover have "seg_seq base (seg_index base q + 1) = q + 1"
    by (simp add: seg_index_def seg_seq_def algebra_simps)
  ultimately show ?thesis by simp
qed

lemma seg_less:
  assumes "unat base + seg_index base p < 2 ^ 32" and "unat base + seg_index base q < 2 ^ 32"
  shows "p < q \<longleftrightarrow> seg_index base p < seg_index base q"
proof -
  have "unat r = unat base + seg_index base r" if "unat base + seg_index base r < 2 ^ 32" for r
  proof -
    have "unat r = (unat base + unat (r - base)) mod 2 ^ 32"
      using unat_word_ariths(1) [of base "r - base"] by simp
    with that show ?thesis by (simp add: seg_index_def)
  qed
  with assms show ?thesis by (simp add: word_less_nat_alt)
qed

section \<open>A stream is such a receiver\<close>

definition stream_upto :: "u32 \<Rightarrow> stream \<Rightarrow> nat" where
  "stream_upto base st = seg_index base (next_recv_seq st)"

definition stream_got :: "u32 \<Rightarrow> stream \<Rightarrow> nat set" where
  "stream_got base st =
     {..<stream_upto base st} \<union> seg_index base ` fst ` set (out_of_order st)"

text \<open>
  The segments from \<open>lo\<close> on are missing or buffered; the buffered ones are true segments within
  the window; the receive buffer holds the segments below \<open>next_recv_seq\<close>.
\<close>

definition reassembly ::
    "nat \<Rightarrow> u32 \<Rightarrow> byte list \<Rightarrow> byte list list \<Rightarrow> stream \<Rightarrow> bool" where
  "reassembly lo base pre segs st \<longleftrightarrow>
     unat base + length segs < 2 ^ 32 \<and> stream_upto base st \<le> length segs \<and>
     recv_buf st = pre @ concat (take (stream_upto base st) segs) \<and>
     distinct (map fst (out_of_order st)) \<and>
     (\<forall>(q, d) \<in> set (out_of_order st).
        stream_upto base st + lo \<le> seg_index base q \<and> seg_index base q < length segs \<and>
        seg_index base q \<le> stream_upto base st + max_out_of_order \<and> d = segs ! seg_index base q)"

lemma update_new: "k \<notin> fst ` set al \<Longrightarrow> AList.update k v al = al @ [(k, v)]"
  by (induction al) auto

lemma set_delete: "set (AList.delete k al) = {(q, d) \<in> set al. q \<noteq> k}"
  by (auto simp: AList.delete_eq)

lemma drain_reassembly:
  "reassembly 0 base pre segs st \<Longrightarrow>
     reassembly 1 base pre segs (drain st) \<and> stream_got base (drain st) = stream_got base st"
proof (induction st rule: drain.induct)
  case (1 st)
  let ?k = "stream_upto base st"
  show ?case
  proof (cases "map_of (out_of_order st) (next_recv_seq st)")
    case None
    then have "next_recv_seq st \<notin> fst ` set (out_of_order st)" by (simp add: map_of_eq_None_iff)
    then have "seg_index base q \<noteq> ?k" if "(q, d) \<in> set (out_of_order st)" for q d
      using that by (force simp: stream_upto_def seg_index_inj)
    with "1.prems" have "reassembly 1 base pre segs st"
      by (force simp: reassembly_def)
    with None show ?thesis by (simp add: drain.simps [of st])
  next
    case (Some d)
    let ?st = "st\<lparr>recv_buf := recv_buf st @ d, next_recv_seq := next_recv_seq st + 1,
                 out_of_order := AList.delete (next_recv_seq st) (out_of_order st)\<rparr>"
    from Some have mem: "(next_recv_seq st, d) \<in> set (out_of_order st)" by (rule map_of_SomeD)
    with "1.prems" have k: "?k < length segs" and d: "d = segs ! ?k" and big: "length segs < 2 ^ 32"
      by (auto simp: reassembly_def stream_upto_def)
    then have upto: "stream_upto base ?st = ?k + 1"
      by (simp add: stream_upto_def seg_index_Suc)
    have rest: "?k < seg_index base q"
      if "(q, e) \<in> set (out_of_order st)" "q \<noteq> next_recv_seq st" for q e
    proof -
      have "?k \<le> seg_index base q" using "1.prems" that(1) by (auto simp: reassembly_def)
      moreover have "seg_index base q \<noteq> ?k" using that(2) by (simp add: stream_upto_def seg_index_inj)
      ultimately show ?thesis by simp
    qed
    have "recv_buf ?st = pre @ concat (take (?k + 1) segs)"
      using "1.prems" k d by (simp add: reassembly_def take_Suc_conv_app_nth)
    moreover have "distinct (map fst (out_of_order ?st))"
      using "1.prems" by (simp add: reassembly_def distinct_delete)
    ultimately have inv: "reassembly 0 base pre segs ?st"
      using "1.prems" k rest unfolding reassembly_def upto
      by (fastforce simp: set_delete)
    have "seg_index base ` fst ` set (out_of_order st) =
        insert ?k (seg_index base ` fst ` set (out_of_order ?st))"
      using mem by (force simp: set_delete stream_upto_def image_iff)
    then have "stream_got base ?st = stream_got base st"
      unfolding stream_got_def upto by auto
    with "1.IH" [OF Some] inv Some show ?thesis by (simp add: drain.simps [of st])
  qed
qed

lemma buffer_room:
  assumes inv: "reassembly 1 base pre segs st"
    and i: "i \<notin> seg_index base ` fst ` set (out_of_order st)"
    and win: "stream_upto base st < i" "i \<le> stream_upto base st + max_out_of_order"
  shows "length (out_of_order st) < max_out_of_order"
proof -
  let ?k = "stream_upto base st" and ?held = "seg_index base ` fst ` set (out_of_order st)"
  have "inj_on (seg_index base) (fst ` set (out_of_order st))"
    by (auto simp: inj_on_def seg_index_inj)
  then have "card ?held = card (fst ` set (out_of_order st))" by (rule card_image)
  also have "\<dots> = length (out_of_order st)"
    using inv distinct_card [of "map fst (out_of_order st)"] by (simp add: reassembly_def)
  finally have "card ?held = length (out_of_order st)" .
  moreover have "?held \<subseteq> {?k + 1..?k + max_out_of_order} - {i}"
    using inv i by (force simp: reassembly_def)
  then have "card ?held \<le> card ({?k + 1..?k + max_out_of_order} - {i})"
    by (rule card_mono [rotated]) simp
  moreover have "card ({?k + 1..?k + max_out_of_order} - {i}) = max_out_of_order - 1"
    using win by simp
  ultimately show ?thesis by (simp add: max_out_of_order_def)
qed

lemma accept_reassembly:
  assumes inv: "reassembly 1 base pre segs st" and i: "i < length segs"
    and win: "{..<i - max_out_of_order} \<subseteq> stream_got base st"
  defines "st' \<equiv> fst (accept_segment (seg_seq base i) (segs ! i) st)"
  shows "reassembly 1 base pre segs st' \<and> stream_got base st' = insert i (stream_got base st)"
proof -
  let ?k = "stream_upto base st"
  from inv have big: "unat base + length segs < 2 ^ 32" and k: "?k \<le> length segs"
    by (auto simp: reassembly_def)
  have idx: "seg_index base (seg_seq base i) = i" using big i by simp
  have eq: "seg_seq base i = next_recv_seq st \<longleftrightarrow> i = ?k"
    using seg_index_inj [of base "seg_seq base i" "next_recv_seq st"] idx
    by (simp add: stream_upto_def)
  have less: "next_recv_seq st < seg_seq base i \<longleftrightarrow> ?k < i"
    using seg_less [of base "next_recv_seq st" "seg_seq base i"] big k i idx
    by (simp add: stream_upto_def)
  consider "i = ?k" | "?k < i" | "i < ?k" by linarith
  then show ?thesis
  proof cases
    case 1
    let ?st = "st\<lparr>recv_buf := recv_buf st @ segs ! i, next_recv_seq := next_recv_seq st + 1\<rparr>"
    have upto: "stream_upto base ?st = ?k + 1"
      using 1 big i by (simp add: stream_upto_def seg_index_Suc)
    have "recv_buf ?st = pre @ concat (take (?k + 1) segs)"
      using inv 1 i by (simp add: reassembly_def take_Suc_conv_app_nth)
    then have "reassembly 0 base pre segs ?st"
      using inv 1 i unfolding reassembly_def upto by fastforce
    moreover have "stream_got base ?st = insert i (stream_got base st)"
      unfolding stream_got_def upto using 1 by auto
    ultimately show ?thesis
      using drain_reassembly [of base pre segs ?st] 1 eq by (simp add: st'_def accept_segment_def)
  next
    case 2
    have "?k \<notin> stream_got base st"
      using inv by (fastforce simp: stream_got_def reassembly_def)
    with win have "\<not> ?k < i - max_out_of_order" by auto
    then have near: "i \<le> ?k + max_out_of_order" by linarith
    show ?thesis
    proof (cases "i \<in> seg_index base ` fst ` set (out_of_order st)")
      case True
      then obtain d where mem: "(seg_seq base i, d) \<in> set (out_of_order st)" by auto
      with inv idx have d: "d = segs ! i" by (fastforce simp: reassembly_def)
      have "map_of (out_of_order st) (seg_seq base i) = Some d"
        using inv mem by (simp add: reassembly_def)
      then have "AList.update (seg_seq base i) (segs ! i) (out_of_order st) = out_of_order st"
        using d by (simp add: update_triv)
      then have "st' = st" using 2 eq by (simp add: st'_def accept_segment_def)
      with inv True show ?thesis by (auto simp: stream_got_def)
    next
      case False
      with inv 2 near have room: "length (out_of_order st) < max_out_of_order"
        by (intro buffer_room)
      have "seg_seq base i \<notin> fst ` set (out_of_order st)"
        using False idx by (metis imageI)
      then have st': "st' = st\<lparr>out_of_order := out_of_order st @ [(seg_seq base i, segs ! i)]\<rparr>"
        using 2 eq less room by (simp add: st'_def accept_segment_def update_new)
      have "reassembly 1 base pre segs st'"
        using inv i 2 near idx \<open>seg_seq base i \<notin> fst ` set (out_of_order st)\<close>
        unfolding st' reassembly_def by (simp add: stream_upto_def)
      moreover have "stream_got base st' = insert i (stream_got base st)"
        using idx by (simp add: st' stream_got_def stream_upto_def)
      ultimately show ?thesis by blast
    qed
  next
    case 3
    then have "st' = st" using eq less by (simp add: st'_def accept_segment_def)
    moreover have "i \<in> stream_got base st" using 3 by (simp add: stream_got_def)
    ultimately show ?thesis using inv by auto
  qed
qed

text \<open>The multiplexer's stream satisfies the contract.\<close>

interpretation seg: reassembler
  "\<lambda>i st. fst (accept_segment (seg_seq base i) (segs ! i) st)"
  "stream_got base" "reassembly 1 base pre segs" recv_buf pre segs max_out_of_order
  for base :: u32 and pre :: "byte list" and segs :: "byte list list"
proof unfold_locales
  fix s i
  assume a: "reassembly 1 base pre segs s" "i < length segs"
    "{..<i - max_out_of_order} \<subseteq> stream_got base s"
  from accept_reassembly [OF a]
  show "reassembly 1 base pre segs (fst (accept_segment (seg_seq base i) (segs ! i) s))"
    and "stream_got base (fst (accept_segment (seg_seq base i) (segs ! i) s)) =
           insert i (stream_got base s)" by blast+
next
  fix s assume inv: "reassembly 1 base pre segs s"
  let ?k = "stream_upto base s"
  have "?k \<notin> stream_got base s" using inv by (fastforce simp: stream_got_def reassembly_def)
  moreover have "{..<?k} \<subseteq> stream_got base s" by (simp add: stream_got_def)
  moreover have "recv_buf s = pre @ concat (take ?k segs)" using inv by (simp add: reassembly_def)
  ultimately show "\<exists>k. k \<notin> stream_got base s \<and> {..<k} \<subseteq> stream_got base s \<and>
      recv_buf s = pre @ concat (take k segs)" by blast
qed

section \<open>Frames\<close>

text \<open>The receive loop over a sequence of decrypted frames.\<close>

fun handle_frames :: "frame list \<Rightarrow> multiplexer \<Rightarrow> multiplexer option" where
  "handle_frames [] m = Some m"
| "handle_frames (f # fs) m = Option.bind (handle_frame f m) (handle_frames fs)"

lemma receive_data_stream:
  assumes "stream_at m sid = Some st" and "st_client_id st = c"
  shows "stream_at (receive_data c sid q d m) k =
           (if k = sid then Some (fst (accept_segment q d st)) else stream_at m k)"
  using assms
  by (simp add: receive_data_def entry_or_insert_def adopt_client_def Let_def split: prod.split)

definition seg_frame :: "u32 \<Rightarrow> u16 \<Rightarrow> u32 \<Rightarrow> byte list list \<Rightarrow> nat \<Rightarrow> frame" where
  "seg_frame c sid base segs i = data_frame c sid (seg_seq base i) (segs ! i)"

definition segs_ok :: "byte list list \<Rightarrow> bool" where
  "segs_ok segs \<longleftrightarrow> (\<forall>d \<in> set segs. 0 < length d \<and> length d \<le> chunk_size)"

lemma handle_segments:
  assumes "segs_ok segs" and "set js \<subseteq> {..<length segs}"
    and "stream_at m sid = Some st" and "st_client_id st = c"
  shows "\<exists>m'. handle_frames (map (seg_frame c sid base segs) js) m = Some m' \<and>
     stream_at m' sid =
       Some (fold (\<lambda>i st. fst (accept_segment (seg_seq base i) (segs ! i) st)) js st) \<and>
     (\<forall>k. k \<noteq> sid \<longrightarrow> stream_at m' k = stream_at m k)"
  using assms(2-)
proof (induction js arbitrary: m st)
  case Nil
  then show ?case by simp
next
  case (Cons i js)
  let ?m = "receive_data c sid (seg_seq base i) (segs ! i) m"
  let ?st = "fst (accept_segment (seg_seq base i) (segs ! i) st)"
  have "0 < length (segs ! i) \<and> length (segs ! i) \<le> chunk_size"
    using assms(1) Cons.prems(1) by (simp add: segs_ok_def)
  then have frame: "handle_frame (seg_frame c sid base segs i) m = Some ?m"
    by (simp add: seg_frame_def handle_data_frame)
  have at: "stream_at ?m k = (if k = sid then Some ?st else stream_at m k)" for k
    using Cons.prems(2,3) by (rule receive_data_stream)
  have "\<exists>m'. handle_frames (map (seg_frame c sid base segs) js) ?m = Some m' \<and>
     stream_at m' sid =
       Some (fold (\<lambda>i st. fst (accept_segment (seg_seq base i) (segs ! i) st)) js ?st) \<and>
     (\<forall>k. k \<noteq> sid \<longrightarrow> stream_at m' k = stream_at ?m k)"
    by (rule Cons.IH) (use Cons.prems at in simp_all)
  with frame at show ?case by auto
qed

text \<open>
  The arrival order: every segment arrives at least once (duplicates are allowed), and never more
  than \<open>max_out_of_order\<close> numbers ahead of one that is still missing.
\<close>

definition arrival_ok :: "nat \<Rightarrow> nat list \<Rightarrow> bool" where
  "arrival_ok n js \<longleftrightarrow>
     set js = {..<n} \<and>
     (\<forall>t < length js. {..<js ! t - max_out_of_order} \<subseteq> set (take t js))"

lemma arrival_window:
  assumes "arrival_ok n js" and "js = pre @ i # post"
  shows "{..<i - max_out_of_order} \<subseteq> set pre"
proof -
  have "length pre < length js" using assms(2) by simp
  with assms(1) have "{..<js ! length pre - max_out_of_order} \<subseteq> set (take (length pre) js)"
    unfolding arrival_ok_def by blast
  then show ?thesis using assms(2) by simp
qed

lemma reassembly_start:
  assumes "out_of_order st = []" and "unat (next_recv_seq st) + length segs < 2 ^ 32"
  shows "reassembly 1 (next_recv_seq st) (recv_buf st) segs st"
    and "stream_got (next_recv_seq st) st = {}"
  using assms by (simp_all add: reassembly_def stream_got_def stream_upto_def seg_index_def)

lemma reassembly_end:
  assumes "reassembly 1 base pre segs st" and "{..<length segs} \<subseteq> stream_got base st"
  shows "recv_buf st = pre @ concat segs \<and> out_of_order st = [] \<and>
         next_recv_seq st = seg_seq base (length segs)"
proof -
  let ?k = "stream_upto base st"
  have "?k \<notin> stream_got base st"
    using assms(1) by (fastforce simp: stream_got_def reassembly_def)
  with assms(2) have "\<not> ?k < length segs" by blast
  with assms(1) have k: "?k = length segs" by (simp add: reassembly_def)
  have "out_of_order st = []"
  proof (rule ccontr)
    assume "out_of_order st \<noteq> []"
    then obtain q d where "(q, d) \<in> set (out_of_order st)" by (cases "out_of_order st") auto
    with assms(1) k show False by (fastforce simp: reassembly_def)
  qed
  moreover have "next_recv_seq st = seg_seq base (length segs)"
    using k seg_seq_index [of base "next_recv_seq st"] by (simp add: stream_upto_def)
  ultimately show ?thesis using assms(1) k by (simp add: reassembly_def)
qed

lemma segments_delivered:
  assumes st: "stream_at m sid = Some st" "st_client_id st = c" "out_of_order st = []"
    and segs: "segs_ok segs" "unat (next_recv_seq st) + length segs < 2 ^ 32"
    and order: "arrival_ok (length segs) js"
  shows "\<exists>m' st'. handle_frames (map (seg_frame c sid (next_recv_seq st) segs) js) m = Some m' \<and>
     stream_at m' sid = Some st' \<and> recv_buf st' = recv_buf st @ concat segs \<and>
     out_of_order st' = [] \<and> next_recv_seq st' = next_recv_seq st + of_nat (length segs) \<and>
     (\<forall>k. k \<noteq> sid \<longrightarrow> stream_at m' k = stream_at m k)"
proof -
  let ?base = "next_recv_seq st"
  let ?run = "fold (\<lambda>i st. fst (accept_segment (seg_seq ?base i) (segs ! i) st)) js st"
  have sub: "set js \<subseteq> {..<length segs}" using order by (simp add: arrival_ok_def)
  note start = reassembly_start [OF st(3) segs(2)]
  have "reassembly 1 ?base (recv_buf st) segs ?run \<and>
      stream_got ?base ?run = stream_got ?base st \<union> set js"
    by (rule seg.run [OF start(1) sub]) (use order arrival_window in blast)
  then have "recv_buf ?run = recv_buf st @ concat segs \<and> out_of_order ?run = [] \<and>
      next_recv_seq ?run = seg_seq ?base (length segs)"
    using order by (intro reassembly_end) (auto simp: arrival_ok_def)
  with handle_segments [OF segs(1) sub st(1,2), of ?base] show ?thesis
    by (auto simp: seg_seq_def)
qed

text \<open>C2: reliable reassembly. Data frames of one stream that arrive in any order, with any
  duplicates, no more than 100 segments ahead of a missing one, put exactly the sent bytes, in
  order, behind what the stream already held, empty the reorder buffer, and touch no other stream.
  The sequence number must not wrap during the run.\<close>

theorem reliable_reassembly:
  assumes "stream_at m sid = Some st" and "st_client_id st = c" and "out_of_order st = []"
    and "segs_ok segs" and "unat (next_recv_seq st) + length segs < 2 ^ 32"
    and "arrival_ok (length segs) js"
  shows "\<exists>m' st'. handle_frames (map (seg_frame c sid (next_recv_seq st) segs) js) m = Some m' \<and>
     stream_at m' sid = Some st' \<and> recv_buf st' = recv_buf st @ concat segs \<and>
     out_of_order st' = [] \<and> next_recv_seq st' = next_recv_seq st + of_nat (length segs) \<and>
     (\<forall>k. k \<noteq> sid \<longrightarrow> stream_at m' k = stream_at m k)"
  using assms by (rule segments_delivered)

section \<open>From a sender to a receiver\<close>

text \<open>A channel that accepts every frame, recording it.\<close>

definition record_send :: "frame list send_fn" where
  "record_send f log = (Inr (), log @ [f])"

lemma send_chunks_log:
  assumes "stream_at m sid = Some st" and "\<not> closed st"
  shows "\<exists>m'. send_chunks record_send sid cs m log =
     (Inr (), m', log @ map (seg_frame (mux_client_id m) sid (next_send_seq st) cs) [0..<length cs])
     \<and> mux_client_id m' = mux_client_id m \<and>
     stream_at m' sid = Some (st\<lparr>next_send_seq := next_send_seq st + of_nat (length cs)\<rparr>) \<and>
     (\<forall>k. k \<noteq> sid \<longrightarrow> stream_at m' k = stream_at m k)"
  using assms
proof (induction cs arbitrary: m st log)
  case Nil
  then show ?case by simp
next
  case (Cons c cs)
  let ?st = "st\<lparr>next_send_seq := next_send_seq st + 1\<rparr>"
  let ?m = "put_stream sid ?st m"
  let ?f = "data_frame (mux_client_id m) sid (next_send_seq st) c"
  have step: "send_chunks record_send sid (c # cs) m log =
      send_chunks record_send sid cs ?m (log @ [?f])"
    using Cons.prems by (simp add: record_send_def Let_def)
  have "seg_frame (mux_client_id m) sid (next_send_seq st) (c # cs) 0 = ?f"
    by (simp add: seg_frame_def seg_seq_def)
  moreover have "seg_frame (mux_client_id m) sid (next_send_seq st) (c # cs) (Suc i) =
      seg_frame (mux_client_id m) sid (next_send_seq st + 1) cs i" for i
    by (simp add: seg_frame_def seg_seq_def algebra_simps)
  ultimately have frames: "map (seg_frame (mux_client_id m) sid (next_send_seq st) (c # cs)) [0..<length (c # cs)] =
      ?f # map (seg_frame (mux_client_id m) sid (next_send_seq st + 1) cs) [0..<length cs]"
    by (simp add: upt_conv_Cons map_Suc_upt [symmetric] del: upt_Suc)
  obtain m' where "send_chunks record_send sid cs ?m (log @ [?f]) =
      (Inr (), m', (log @ [?f]) @ map (seg_frame (mux_client_id ?m) sid (next_send_seq ?st) cs) [0..<length cs])"
    "mux_client_id m' = mux_client_id ?m"
    "stream_at m' sid = Some (?st\<lparr>next_send_seq := next_send_seq ?st + of_nat (length cs)\<rparr>)"
    "\<forall>k. k \<noteq> sid \<longrightarrow> stream_at m' k = stream_at ?m k"
    using Cons.IH [of ?m ?st "log @ [?f]"] Cons.prems by auto
  then show ?case
    unfolding step frames by (simp add: algebra_simps)
qed

lemma segs_ok_chunks: "segs_ok (chunks chunk_size data)"
  using chunks_bounds [of chunk_size _ data] by (auto simp: segs_ok_def chunk_size_def)

lemma sent_received:
  assumes "stream_at a sid = Some sa" and "\<not> closed sa"
    and "stream_at b sid = Some sb" and "st_client_id sb = mux_client_id a"
    and "next_recv_seq sb = next_send_seq sa" and "out_of_order sb = []" and "recv_buf sb = []"
    and "unat (next_send_seq sa) + length (chunks chunk_size data) < 2 ^ 32"
    and "arrival_ok (length (chunks chunk_size data)) js"
  shows "\<exists>a' sent b' sa' sb'. send_data record_send sid data a [] = (Inr (), a', sent) \<and>
     handle_frames (map ((!) sent) js) b = Some b' \<and> fst (read_stream sid b') = data \<and>
     stream_at a' sid = Some sa' \<and> stream_at b' sid = Some sb' \<and>
     next_recv_seq sb' = next_send_seq sa'"
proof -
  let ?cs = "chunks chunk_size data"
  let ?f = "seg_frame (mux_client_id a) sid (next_send_seq sa) ?cs"
  obtain a' where a': "send_data record_send sid data a [] = (Inr (), a', map ?f [0..<length ?cs])"
    "stream_at a' sid = Some (sa\<lparr>next_send_seq := next_send_seq sa + of_nat (length ?cs)\<rparr>)"
    using send_chunks_log [OF assms(1,2), of ?cs "[]"] by (auto simp: send_data_def)
  have sent: "map ((!) (map ?f [0..<length ?cs])) js = map ?f js"
    using assms(9) by (auto simp: arrival_ok_def)
  obtain b' sb' where b': "handle_frames (map ?f js) b = Some b'"
    "stream_at b' sid = Some sb'" "recv_buf sb' = concat ?cs"
    "next_recv_seq sb' = next_send_seq sa + of_nat (length ?cs)"
    using segments_delivered [OF assms(3,4,6) segs_ok_chunks [of data] _ assms(9)] assms(5,7,8)
    by auto
  have "fst (read_stream sid b') = data"
    using b'(2,3) by (simp add: read_stream_def chunk_size_def)
  with a' b' show ?thesis
    by (intro exI conjI) (assumption | simp add: sent)+
qed

text \<open>End to end. Whatever bytes are sent on an open stream, the frames \<open>send_data\<close> emits, in
  any arrival order the window allows, make the peer's \<open>read_stream\<close> return exactly those bytes,
  and leave both sides agreeing on the next sequence number.\<close>

theorem send_receive:
  assumes "stream_at a sid = Some sa" and "\<not> closed sa"
    and "stream_at b sid = Some sb" and "st_client_id sb = mux_client_id a"
    and "next_recv_seq sb = next_send_seq sa" and "out_of_order sb = []" and "recv_buf sb = []"
    and "unat (next_send_seq sa) + length (chunks chunk_size data) < 2 ^ 32"
    and "arrival_ok (length (chunks chunk_size data)) js"
  shows "\<exists>a' sent b' sa' sb'. send_data record_send sid data a [] = (Inr (), a', sent) \<and>
     handle_frames (map ((!) sent) js) b = Some b' \<and> fst (read_stream sid b') = data \<and>
     stream_at a' sid = Some sa' \<and> stream_at b' sid = Some sb' \<and>
     next_recv_seq sb' = next_send_seq sa'"
  using assms by (rule sent_received)

text \<open>The window has an edge at the wrap of the sequence number: a stream that expects
  \<open>0xFFFFFFFF\<close> neither delivers nor buffers any other segment, whatever its number.\<close>

theorem wrap_drops_reordered:
  assumes "next_recv_seq st = 0xFFFFFFFF" and "q \<noteq> 0xFFFFFFFF"
  shows "accept_segment q d st = (st, False)"
proof -
  have "\<not> (0xFFFFFFFF :: u32) < q"
    using unat_bound [of q] by (simp add: word_less_nat_alt)
  with assms show ?thesis by (simp add: accept_segment_def)
qed

section \<open>Witnesses\<close>

lemma arrival_102: "arrival_ok 2 [1, 0, 1]"
proof -
  have "set [1, 0, 1] = {..<2 :: nat}" by auto
  moreover have "([1, 0, 1] :: nat list) ! t - max_out_of_order = 0" if "t < 3" for t
    using that by (simp add: max_out_of_order_def less_Suc_eq numeral_3_eq_3) auto
  ultimately show ?thesis by (simp add: arrival_ok_def)
qed

text \<open>Two segments that arrive swapped, the second one twice.\<close>

theorem reliable_reassembly_witness:
  "\<exists>m' st'. handle_frames (map (seg_frame 1 5 0 [[104], [105]]) [1, 0, 1])
       (put_stream 5 (new_stream 1 0) (mux_new 9)) = Some m' \<and>
     stream_at m' 5 = Some st' \<and> recv_buf st' = [104, 105]"
proof -
  have order: "arrival_ok (length [[104 :: byte], [105]]) [1, 0, 1]"
    using arrival_102 by (simp add: numeral_2_eq_2)
  have st: "stream_at (put_stream 5 (new_stream 1 0) (mux_new 9)) 5 = Some (new_stream 1 0)"
    by simp
  have "segs_ok [[104], [105]]" by (simp add: segs_ok_def chunk_size_def)
  from reliable_reassembly [OF st _ _ this _ order, of 1]
  show ?thesis by (simp del: handle_frames.simps map_eq_Cons_conv list.map) blast
qed

lemma arrival_1: "arrival_ok 1 [0, 0]"
  by (auto simp: arrival_ok_def less_Suc_eq)

theorem send_receive_witness:
  "\<exists>a' sent b'. send_data record_send 5 [104, 105] (put_stream 5 (new_stream 0 0) (mux_new 1)) [] =
       (Inr (), a', sent) \<and>
     handle_frames (map ((!) sent) [0, 0]) (put_stream 5 (new_stream 1 0) (mux_new 0)) = Some b' \<and>
     fst (read_stream 5 b') = [104, 105]"
proof -
  have one: "chunks chunk_size [104, 105 :: byte] = [[104, 105]]"
    by (rule chunks_short) (simp_all add: chunk_size_def)
  have "mux_client_id (mux_new 1) = 1" by (simp add: mux_new_def)
  then show ?thesis
    using send_receive [of "put_stream 5 (new_stream 0 0) (mux_new 1)" 5 "new_stream 0 0"
        "put_stream 5 (new_stream 1 0) (mux_new 0)" "new_stream 1 0" "[104, 105]" "[0, 0]"]
      arrival_1 by (simp add: one) blast
qed

theorem wrap_drops_reordered_witness:
  "accept_segment 0 [1] ((new_stream 1 0)\<lparr>next_recv_seq := 0xFFFFFFFF\<rparr>) =
     ((new_stream 1 0)\<lparr>next_recv_seq := 0xFFFFFFFF\<rparr>, False)"
  by (rule wrap_drops_reordered) simp_all

end
