(* ===== verification/Mux_Wakeup.thy ===== *)
theory Mux_Wakeup
  imports Mux_Frames
begin

text \<open>
  The invariant of the multiplexer and the wake-up protocol between the tasks that fill a stream
  and the one task that reads it. A task runs between two lock sections in any order, so the steps
  are a relation; every step of every other task satisfies one guarantee, and a parked reader
  whose stream has something to report always holds a permit.
\<close>

section \<open>The invariant\<close>

definition stream_ok :: "stream \<Rightarrow> bool" where
  "stream_ok st \<longleftrightarrow>
     distinct (map fst (out_of_order st)) \<and> length (out_of_order st) \<le> max_out_of_order \<and>
     (\<forall>q \<in> fst ` set (out_of_order st). next_recv_seq st < q)"

lemma new_stream_ok [simp]: "stream_ok (new_stream c h)"
  by (simp add: stream_ok_def)

text \<open>The stream table, as a function: its streams are well-formed and own distinct handles.\<close>

definition table_ok :: "(u16 \<rightharpoonup> stream) \<Rightarrow> nat \<Rightarrow> bool" where
  "table_ok f n \<longleftrightarrow>
     (\<forall>sid st. f sid = Some st \<longrightarrow> stream_ok st \<and> notify st < n) \<and>
     (\<forall>sid sid' st st'. f sid = Some st \<and> f sid' = Some st' \<and> notify st = notify st' \<longrightarrow>
        sid = sid')"

definition mux_inv :: "multiplexer \<Rightarrow> bool" where
  "mux_inv m \<longleftrightarrow>
     distinct (map fst (streams m)) \<and> table_ok (map_of (streams m)) (next_notify m) \<and>
     (\<forall>h \<in> set (permits m). h < next_notify m)"

lemma table_okD:
  assumes "table_ok f n" and "f sid = Some st"
  shows "stream_ok st" and "notify st < n"
    and "f sid' = Some st' \<Longrightarrow> notify st' = notify st \<Longrightarrow> sid' = sid"
  using assms unfolding table_ok_def by blast+

lemma table_ok_same:
  assumes "table_ok f n" and "f sid = Some st" and "notify st' = notify st" and "stream_ok st'"
  shows "table_ok (f(sid \<mapsto> st')) n"
  using assms unfolding table_ok_def by (simp split: if_splits) metis

lemma table_ok_new:
  assumes "table_ok f n"
  shows "table_ok (f(sid \<mapsto> new_stream c n)) (Suc n)"
  using assms unfolding table_ok_def by (auto simp: less_Suc_eq split: if_splits)

lemma table_ok_sub:
  assumes "table_ok f n" and "\<And>sid st. g sid = Some st \<Longrightarrow> f sid = Some st"
  shows "table_ok g n"
  using assms unfolding table_ok_def by blast

text \<open>
  What a step of another task may do to a reader: handles stay with their stream, permits are not
  taken, and a stream that was not ready either stays so or its reader is notified.
\<close>

definition guarantee :: "multiplexer \<Rightarrow> multiplexer \<Rightarrow> bool" where
  "guarantee m m' \<longleftrightarrow>
     next_notify m \<le> next_notify m' \<and> set (permits m) \<subseteq> set (permits m') \<and>
     (\<forall>sid st'. stream_at m' sid = Some st' \<longrightarrow>
        next_notify m \<le> notify st' \<or>
        (\<exists>st. stream_at m sid = Some st \<and> notify st = notify st')) \<and>
     (\<forall>sid st. stream_at m sid = Some st \<and> \<not> ready st \<longrightarrow>
        notify st \<in> set (permits m') \<or>
        (\<exists>st'. stream_at m' sid = Some st' \<and> notify st' = notify st \<and> \<not> ready st'))"

lemma guarantee_refl [simp]: "guarantee m m"
  by (auto simp: guarantee_def)

section \<open>Streams\<close>

lemma stream_ok_cong:
  "out_of_order st' = out_of_order st \<Longrightarrow> next_recv_seq st' = next_recv_seq st \<Longrightarrow>
     stream_ok st' = stream_ok st"
  by (simp add: stream_ok_def)

lemma drain_ok:
  assumes "distinct (map fst (out_of_order st))" and "length (out_of_order st) \<le> max_out_of_order"
    and "\<forall>q \<in> fst ` set (out_of_order st). next_recv_seq st \<le> q"
  shows "stream_ok (drain st)"
  using assms
proof (induction st rule: drain.induct)
  case (1 st)
  show ?case
  proof (cases "map_of (out_of_order st) (next_recv_seq st)")
    case None
    then have "next_recv_seq st \<notin> fst ` set (out_of_order st)" by (simp add: map_of_eq_None_iff)
    then have "next_recv_seq st < q" if "q \<in> fst ` set (out_of_order st)" for q
      using that "1.prems"(3) by (metis order_le_less)
    with "1.prems" have "stream_ok st" by (simp add: stream_ok_def)
    with None show ?thesis by (simp add: drain.simps [of st])
  next
    case (Some d)
    let ?al = "AList.delete (next_recv_seq st) (out_of_order st)"
    have "distinct (map fst ?al)" using "1.prems"(1) by (rule distinct_delete)
    moreover have "length ?al \<le> max_out_of_order"
      using "1.prems"(2) length_filter_le le_trans unfolding AList.delete_eq by blast
    moreover have "next_recv_seq st + 1 \<le> q" if "q \<in> fst ` set ?al" for q
    proof -
      from that have "q \<noteq> next_recv_seq st" "q \<in> fst ` set (out_of_order st)"
        by (auto simp: AList.delete_eq)
      with "1.prems"(3) have "next_recv_seq st < q" by (metis order_le_less)
      then show ?thesis by (rule inc_le)
    qed
    ultimately show ?thesis
      using "1.IH" [OF Some] Some by (simp add: drain.simps [of st])
  qed
qed

lemma accept_segment_ok:
  assumes "stream_ok st"
  shows "stream_ok (fst (accept_segment q d st))"
proof -
  have "stream_ok (drain (st\<lparr>recv_buf := recv_buf st @ d, next_recv_seq := next_recv_seq st + 1\<rparr>))"
    by (rule drain_ok) (use assms in \<open>auto simp: stream_ok_def intro: inc_le\<close>)
  moreover have "stream_ok (st\<lparr>out_of_order := AList.update q d (out_of_order st)\<rparr>)"
    if "next_recv_seq st < q" "length (out_of_order st) < max_out_of_order"
  proof -
    have "length (AList.update q d al) \<le> Suc (length al)" for al :: "(u32 \<times> byte list) list"
      by (induction al) auto
    then have "length (AList.update q d (out_of_order st)) \<le> max_out_of_order"
      using that(2) by (meson Suc_leI le_trans)
    moreover have "fst ` set (AList.update q d (out_of_order st)) =
        insert q (fst ` set (out_of_order st))"
      by (simp add: dom_update)
    ultimately show ?thesis
      using assms that(1) by (simp add: stream_ok_def distinct_update)
  qed
  ultimately show ?thesis using assms by (simp add: accept_segment_def)
qed

text \<open>A segment that does not notify leaves what the reader sees as it was.\<close>

lemma accept_segment_quiet:
  "\<not> snd (accept_segment q d st) \<Longrightarrow>
     recv_buf (fst (accept_segment q d st)) = recv_buf st \<and>
     closed (fst (accept_segment q d st)) = closed st"
  by (simp add: accept_segment_def split: if_splits)

section \<open>Primitive updates\<close>

lemma guarantee_trans:
  assumes ab: "guarantee a b" and bc: "guarantee b c"
  shows "guarantee a c"
  unfolding guarantee_def
proof (intro conjI allI impI)
  show "next_notify a \<le> next_notify c" and "set (permits a) \<subseteq> set (permits c)"
    using ab bc by (auto simp: guarantee_def)
  fix sid st assume "stream_at c sid = Some st"
  then consider "next_notify b \<le> notify st"
    | t where "stream_at b sid = Some t" "notify t = notify st"
    using bc unfolding guarantee_def by blast
  then show "next_notify a \<le> notify st \<or>
      (\<exists>t. stream_at a sid = Some t \<and> notify t = notify st)"
  proof cases
    case 1
    then show ?thesis using ab by (auto simp: guarantee_def)
  next
    case 2
    then show ?thesis using ab unfolding guarantee_def by metis
  qed
next
  fix sid st assume "stream_at a sid = Some st \<and> \<not> ready st"
  then consider "notify st \<in> set (permits b)"
    | t where "stream_at b sid = Some t" "notify t = notify st" "\<not> ready t"
    using ab unfolding guarantee_def by blast
  then show "notify st \<in> set (permits c) \<or>
      (\<exists>t. stream_at c sid = Some t \<and> notify t = notify st \<and> \<not> ready t)"
  proof cases
    case 1
    then show ?thesis using bc by (auto simp: guarantee_def)
  next
    case 2
    then show ?thesis using bc unfolding guarantee_def by metis
  qed
qed

lemma mux_invD:
  assumes "mux_inv m" and "stream_at m sid = Some st"
  shows "stream_ok st" and "notify st < next_notify m"
    and "stream_at m sid' = Some st' \<Longrightarrow> notify st' = notify st \<Longrightarrow> sid' = sid"
  using assms table_okD unfolding mux_inv_def by blast+

lemma streams_put: "map_of (streams (put_stream sid st m)) = (map_of (streams m))(sid \<mapsto> st)"
  by (simp add: put_stream_def update_conv')

lemma distinct_put: "distinct (map fst (streams m)) \<Longrightarrow> distinct (map fst (streams (put_stream sid st m)))"
  by (simp add: put_stream_def distinct_update)

lemma mux_inv_next_id [simp]: "mux_inv (m\<lparr>next_id := n\<rparr>) = mux_inv m"
  by (simp add: mux_inv_def)

lemma guarantee_next_id [simp]: "guarantee (m\<lparr>next_id := n\<rparr>) m' = guarantee m m'"
  by (simp add: guarantee_def)

lemma put_same_inv:
  assumes "mux_inv m" and "stream_at m sid = Some st"
    and "notify st' = notify st" and "stream_ok st'"
  shows "mux_inv (put_stream sid st' m)"
  using assms unfolding mux_inv_def streams_put put_stream_other
  by (blast intro: distinct_put table_ok_same)

lemma put_new_inv:
  assumes "mux_inv m"
  shows "mux_inv (put_stream sid (new_stream c (next_notify m)) (m\<lparr>next_notify := Suc (next_notify m)\<rparr>))"
  using assms table_ok_new unfolding mux_inv_def streams_put put_stream_other
  by (auto intro!: distinct_put)

lemma put_new_guarantee:
  assumes "stream_at m sid = None"
  shows "guarantee m
    (put_stream sid (new_stream c (next_notify m)) (m\<lparr>next_notify := Suc (next_notify m)\<rparr>))"
  using assms by (auto simp: guarantee_def)

lemma notify_one_inv: "mux_inv m \<Longrightarrow> h < next_notify m \<Longrightarrow> mux_inv (notify_one h m)"
  by (simp add: mux_inv_def)

lemma put_quiet_guarantee:
  assumes "stream_at m sid = Some st" and "notify st' = notify st" and "ready st' \<Longrightarrow> ready st"
  shows "guarantee m (put_stream sid st' m)"
  using assms by (auto simp: guarantee_def)

lemma put_notify_guarantee:
  assumes "stream_at m sid = Some st" and "notify st' = notify st"
  shows "guarantee m (notify_one (notify st) (put_stream sid st' m))"
  using assms by (auto simp: guarantee_def)

text \<open>An operation that keeps the invariant and the guarantee.\<close>

definition safe :: "multiplexer \<Rightarrow> multiplexer \<Rightarrow> bool" where
  "safe m m' \<longleftrightarrow> mux_inv m' \<and> guarantee m m'"

lemma safe_refl: "mux_inv m \<Longrightarrow> safe m m"
  by (simp add: safe_def)

lemma safe_trans: "safe a b \<Longrightarrow> (mux_inv b \<Longrightarrow> safe b c) \<Longrightarrow> safe a c"
  unfolding safe_def using guarantee_trans by blast

lemma put_notify_safe:
  assumes "mux_inv m" and "stream_at m sid = Some st" and "notify st' = notify st" and "stream_ok st'"
  shows "safe m (notify_one (notify st) (put_stream sid st' m))"
  unfolding safe_def
proof
  show "mux_inv (notify_one (notify st) (put_stream sid st' m))"
    by (rule notify_one_inv) (use assms put_same_inv mux_invD(2) in auto)
qed (use assms put_notify_guarantee in auto)

lemma put_quiet_safe:
  assumes "mux_inv m" and "stream_at m sid = Some st" and "notify st' = notify st" and "stream_ok st'"
    and "ready st' \<Longrightarrow> ready st"
  shows "safe m (put_stream sid st' m)"
  unfolding safe_def using assms put_same_inv put_quiet_guarantee by blast

section \<open>Every operation is safe\<close>

lemma entry_or_insert_safe:
  assumes "mux_inv m" and "entry_or_insert sid c m = (st, m')"
  shows "safe m m' \<and> stream_at m' sid = Some st"
proof (cases "stream_at m sid")
  case None
  with assms have "st = new_stream c (next_notify m)"
    "m' = put_stream sid st (m\<lparr>next_notify := Suc (next_notify m)\<rparr>)"
    by (auto simp: entry_or_insert_def Let_def)
  then show ?thesis
    unfolding safe_def using put_new_inv put_new_guarantee assms(1) None by simp
next
  case (Some st')
  with assms show ?thesis by (simp add: entry_or_insert_def safe_refl)
qed

lemma open_stream_safe:
  assumes "open_stream m = Some r"
  shows "mux_inv m \<longrightarrow> safe m (snd r)"
proof (rule open_stream.raw_induct [where P = "\<lambda>m r. mux_inv m \<longrightarrow> safe m (snd r)", OF _ assms], rule impI)
  fix f :: "multiplexer \<Rightarrow> (u16 \<times> multiplexer) option" and m r
  assume IH: "\<And>m r. f m = Some r \<Longrightarrow> mux_inv m \<longrightarrow> safe m (snd r)"
    and eq: "(let fetched = next_id m; m' = m\<lparr>next_id := fetched + 1\<rparr>;
                  sid = (if fetched = 0 then 1 else fetched)
              in case stream_at m' sid of
                   None \<Rightarrow> Some (sid, put_stream sid (new_stream 0 (next_notify m'))
                                      (m'\<lparr>next_notify := Suc (next_notify m')\<rparr>))
                 | Some _ \<Rightarrow> f m') = Some r"
    and inv: "mux_inv m"
  let ?sid = "if next_id m = 0 then 1 else next_id m" and ?m = "m\<lparr>next_id := next_id m + 1\<rparr>"
  have start: "safe m m' \<longleftrightarrow> safe ?m m'" for m' by (simp add: safe_def)
  show "safe m (snd r)"
  proof (cases "stream_at ?m ?sid")
    case None
    with eq have "snd r = put_stream ?sid (new_stream 0 (next_notify ?m))
        (?m\<lparr>next_notify := Suc (next_notify ?m)\<rparr>)"
      by (auto simp: Let_def)
    then show ?thesis
      unfolding start using put_new_inv [of ?m ?sid 0] put_new_guarantee [OF None, of 0] inv
      by (simp add: safe_def)
  next
    case (Some st)
    with eq have "f ?m = Some r" by (simp add: Let_def)
    with IH inv show ?thesis unfolding start by simp
  qed
qed

lemma stream_ok_upd [simp]:
  "stream_ok (st\<lparr>next_send_seq := q\<rparr>) = stream_ok st"
  "stream_ok (st\<lparr>closed := b\<rparr>) = stream_ok st"
  "stream_ok (st\<lparr>recv_buf := r\<rparr>) = stream_ok st"
  by (simp_all add: stream_ok_def)

lemma send_chunks_safe:
  "mux_inv m \<Longrightarrow> send_chunks send sid cs m p = (r, m', p') \<Longrightarrow> safe m m'"
proof (induction send sid cs m p arbitrary: r m' p' rule: send_chunks.induct)
  case (1 send sid m p)
  then show ?case by (simp add: safe_refl)
next
  case (2 send sid c cs m p)
  show ?case
  proof (cases "stream_at m sid")
    case None
    with 2 show ?thesis by (simp add: safe_refl)
  next
    case (Some st)
    show ?thesis
    proof (cases "closed st")
      case True
      with 2 Some show ?thesis by (simp add: safe_refl)
    next
      case False
      let ?m = "put_stream sid (st\<lparr>next_send_seq := next_send_seq st + 1\<rparr>) m"
      have ok: "stream_ok st" using 2 Some mux_invD(1) by blast
      have step: "safe m ?m"
        by (rule put_quiet_safe) (use 2 Some ok in \<open>simp_all add: ready_def\<close>)
      obtain x q where send: "send (data_frame (mux_client_id m) sid (next_send_seq st) c) p = (x, q)"
        by fastforce
      show ?thesis
      proof (cases x)
        case (Inl e)
        with 2 Some False send step show ?thesis by (simp add: Let_def)
      next
        case (Inr u)
        with 2(3) Some False send have "send_chunks send sid cs ?m q = (r, m', p')"
          by (simp add: Let_def)
        with 2(1) [OF Some False refl refl send [symmetric] Inr] step show ?thesis
          using safe_def safe_trans by blast
      qed
    qed
  qed
qed

lemma close_local_safe: "mux_inv m \<Longrightarrow> safe m (close_local sid m)"
  by (auto simp: close_local_def safe_refl mux_invD(1) intro: put_notify_safe split: option.split)

lemma mark_closed_safe: "mux_inv m \<Longrightarrow> safe m (mark_closed sid c m)"
  by (auto simp: mark_closed_def safe_refl mux_invD(1) intro: put_notify_safe split: option.split)

lemma read_stream_safe: "mux_inv m \<Longrightarrow> safe m (snd (read_stream sid m))"
  by (auto simp: read_stream_def safe_refl mux_invD(1) ready_def intro: put_quiet_safe
      split: option.split)

lemma fold_notify:
  "streams (fold (\<lambda>(sid, st). notify_one (notify st)) gone m) = streams m"
  "next_notify (fold (\<lambda>(sid, st). notify_one (notify st)) gone m) = next_notify m"
  "set (permits (fold (\<lambda>(sid, st). notify_one (notify st)) gone m)) =
     set (permits m) \<union> notify ` snd ` set gone"
  by (induction gone arbitrary: m) auto

lemma map_of_filter_value:
  "distinct (map fst al) \<Longrightarrow>
     map_of (filter (\<lambda>(k, v). P v) al) k =
       (case map_of al k of None \<Rightarrow> None | Some v \<Rightarrow> if P v then Some v else None)"
proof (induction al)
  case Nil
  then show ?case by simp
next
  case (Cons a al)
  obtain k' v where a: "a = (k', v)" by (cases a)
  show ?case
  proof (cases "k = k'")
    case True
    then have "map_of al k = None" using Cons.prems by (simp add: a map_of_eq_None_iff)
    with Cons True show ?thesis by (simp add: a)
  next
    case False
    with Cons show ?thesis by (simp add: a)
  qed
qed

lemma stream_at_iff:
  "mux_inv m \<Longrightarrow> stream_at m sid = Some st \<longleftrightarrow> (sid, st) \<in> set (streams m)"
  by (simp add: mux_inv_def)

lemma reset_client_streams:
  assumes "mux_inv m"
  shows "stream_at (reset_client c m) k =
    (case stream_at m k of None \<Rightarrow> None | Some st \<Rightarrow> if st_client_id st = c then None else Some st)"
proof -
  have "distinct (map fst (streams m))" using assms by (simp add: mux_inv_def)
  from map_of_filter_value [OF this, of "\<lambda>st. st_client_id st \<noteq> c" k] show ?thesis
    by (simp add: reset_client_def Let_def fold_notify split: option.split)
qed

lemma reset_client_permits:
  assumes "mux_inv m"
  shows "h \<in> set (permits (reset_client c m)) \<longleftrightarrow>
    h \<in> set (permits m) \<or>
    (\<exists>sid st. stream_at m sid = Some st \<and> st_client_id st = c \<and> h = notify st)"
  unfolding stream_at_iff [OF assms] reset_client_def Let_def fold_notify
  by (auto simp: image_iff)

lemma reset_client_safe:
  assumes inv: "mux_inv m"
  shows "safe m (reset_client c m)"
  unfolding safe_def
proof
  have next_h: "next_notify (reset_client c m) = next_notify m"
    by (simp add: reset_client_def Let_def fold_notify)
  have kept: "stream_at m sid = Some st" if "stream_at (reset_client c m) sid = Some st" for sid st
    using that inv by (simp add: reset_client_streams split: option.splits if_splits)
  have "distinct (map fst (streams (reset_client c m)))"
    using inv by (simp add: reset_client_def Let_def fold_notify mux_inv_def distinct_map_filter)
  moreover have "table_ok (map_of (streams (reset_client c m))) (next_notify m)"
    by (rule table_ok_sub [of "map_of (streams m)"]) (use inv kept in \<open>simp_all add: mux_inv_def\<close>)
  moreover have "h < next_notify m" if "h \<in> set (permits (reset_client c m))" for h
    using that mux_invD(2) [OF inv] inv by (auto simp: reset_client_permits [OF inv] mux_inv_def)
  ultimately show "mux_inv (reset_client c m)" by (simp add: mux_inv_def next_h)
  have "notify st \<in> set (permits (reset_client c m)) \<or> stream_at (reset_client c m) sid = Some st"
    if "stream_at m sid = Some st" for sid st
    using that by (auto simp: reset_client_permits [OF inv] reset_client_streams [OF inv])
  moreover have "set (permits m) \<subseteq> set (permits (reset_client c m))"
    using reset_client_permits [OF inv] by blast
  ultimately show "guarantee m (reset_client c m)"
    using kept unfolding guarantee_def next_h by (metis order_refl)
qed

lemma receive_data_safe:
  assumes inv: "mux_inv m"
  shows "safe m (receive_data c sid q d m)"
proof -
  obtain st m1 where entry: "entry_or_insert sid c m = (st, m1)" by fastforce
  let ?st = "adopt_client c st"
  obtain st' wake where acc: "accept_segment q d ?st = (st', wake)" by fastforce
  have m1: "safe m m1" "stream_at m1 sid = Some st" using entry_or_insert_safe [OF inv entry] by auto
  then have inv1: "mux_inv m1" by (simp add: safe_def)
  have "stream_ok ?st" using mux_invD(1) [OF inv1 m1(2)] by (simp add: adopt_client_def)
  then have ok: "stream_ok st'" using accept_segment_ok [of ?st q d] acc by simp
  have h: "notify st' = notify st"
  proof -
    have "notify st' = notify ?st" by (metis acc accept_segment_frame(4) fst_conv)
    then show ?thesis by (simp add: adopt_client_def)
  qed
  have "safe m1 (if wake then notify_one (notify st') (put_stream sid st' m1) else put_stream sid st' m1)"
  proof (cases wake)
    case True
    then show ?thesis using put_notify_safe [OF inv1 m1(2) h ok] h by simp
  next
    case False
    then have "recv_buf st' = recv_buf ?st \<and> closed st' = closed ?st"
      using accept_segment_quiet [of q d ?st] acc by simp
    then have "ready st' \<Longrightarrow> ready st" by (auto simp: ready_def adopt_client_def split: if_splits)
    then show ?thesis using put_quiet_safe [OF inv1 m1(2) h ok] False by simp
  qed
  with m1(1) show ?thesis
    using safe_trans [OF m1(1)] by (simp add: receive_data_def entry acc Let_def)
qed

lemma handle_frame_safe:
  assumes inv: "mux_inv m" and step: "handle_frame frame m = Some m'"
  shows "safe m m'"
proof (cases "header_size \<le> length frame")
  case True
  then obtain c s l q rest where "frame = be_u32 c @ be_u16 s @ be_u16 l @ be_u32 q @ rest"
    by (rule frame_header_exists)
  with step inv show ?thesis
    by (auto simp: handle_frame_header safe_refl
        intro: reset_client_safe mark_closed_safe receive_data_safe split: if_splits)
next
  case False
  with step inv show ?thesis by (simp add: handle_frame_def safe_refl)
qed

section \<open>The waiting reader\<close>

lemma wait_check_safe:
  assumes "mux_inv m" and "wait_check sid m = (w, m')"
  shows "safe m m'"
    and "w = Some h \<Longrightarrow> \<exists>st. stream_at m' sid = Some st \<and> notify st = h \<and> \<not> ready st"
  using assms entry_or_insert_safe [OF assms(1), of sid "mux_client_id m"]
  by (auto simp: wait_check_def split: prod.splits if_splits)

lemma consume_permit_inv:
  assumes "mux_inv m" and "consume_permit h m = Some m'"
  shows "mux_inv m'" and "streams m' = streams m" and "next_notify m' = next_notify m"
    and "set (permits m') = set (permits m) - {h}"
  using assms by (auto simp: consume_permit_def mux_inv_def split: if_splits)

text \<open>
  The tasks around a multiplexer: at most one reader per stream, parked on the handle it cloned.
  \<open>parked\<close> is the state of \<open>notified().await\<close> in \<open>wait_for_data\<close>; every other step is one lock
  section of another operation. \<open>handle_frame\<close> notifies after it has released the lock, so the
  notifications of a frame are \<open>pending\<close> first and arrive in steps of their own.
\<close>

record tasks =
  shared :: multiplexer
  parked :: "u16 \<Rightarrow> nat option"
  pending :: "nat set"

inductive tasks_step :: "tasks \<Rightarrow> tasks \<Rightarrow> bool" where
  step_open: "open_stream (shared s) = Some (sid, m) \<Longrightarrow> tasks_step s (s\<lparr>shared := m\<rparr>)"
| step_send: "send_chunks (send :: unit send_fn) sid [c] (shared s) p = (r, m, p') \<Longrightarrow>
    tasks_step s (s\<lparr>shared := m\<rparr>)"
| step_close: "tasks_step s (s\<lparr>shared := close_local sid (shared s)\<rparr>)"
| step_frame: "handle_frame frame (shared s) = Some m \<Longrightarrow>
    tasks_step s (s\<lparr>shared := m\<lparr>permits := permits (shared s)\<rparr>,
                    pending := pending s \<union> set (permits m)\<rparr>)"
| step_notify: "h \<in> pending s \<Longrightarrow>
    tasks_step s (s\<lparr>shared := notify_one h (shared s), pending := pending s - {h}\<rparr>)"
| step_read: "read_stream sid (shared s) = (d, m) \<Longrightarrow> tasks_step s (s\<lparr>shared := m\<rparr>)"
| step_wait: "parked s sid = None \<Longrightarrow> wait_check sid (shared s) = (w, m) \<Longrightarrow>
    tasks_step s (s\<lparr>shared := m, parked := (parked s)(sid := w)\<rparr>)"
| step_wake: "parked s sid = Some h \<Longrightarrow> consume_permit h (shared s) = Some m \<Longrightarrow>
    tasks_step s (s\<lparr>shared := m, parked := (parked s)(sid := None)\<rparr>)"

inductive tasks_reachable :: "u32 \<Rightarrow> tasks \<Rightarrow> bool" for c where
  reach_init: "tasks_reachable c \<lparr>shared = mux_new c, parked = (\<lambda>_. None), pending = {}\<rparr>"
| reach_step: "tasks_reachable c s \<Longrightarrow> tasks_step s s' \<Longrightarrow> tasks_reachable c s'"

text \<open>
  A parked reader holds a handle of its own; a notification for it is stored or under way, or its
  stream is there, under the same handle and with nothing to report.
\<close>

definition reader_ok :: "nat set \<Rightarrow> multiplexer \<Rightarrow> u16 \<Rightarrow> nat \<Rightarrow> bool" where
  "reader_ok notified m sid h \<longleftrightarrow>
     h < next_notify m \<and>
     (\<forall>sid' st. stream_at m sid' = Some st \<and> notify st = h \<longrightarrow> sid' = sid) \<and>
     (h \<in> notified \<or>
      (\<exists>st. stream_at m sid = Some st \<and> notify st = h \<and> \<not> ready st))"

definition notified :: "tasks \<Rightarrow> nat set" where
  "notified s = set (permits (shared s)) \<union> pending s"

definition tasks_inv :: "tasks \<Rightarrow> bool" where
  "tasks_inv s \<longleftrightarrow>
     mux_inv (shared s) \<and> (\<forall>h \<in> pending s. h < next_notify (shared s)) \<and>
     (\<forall>sid h. parked s sid = Some h \<longrightarrow> reader_ok (notified s) (shared s) sid h) \<and>
     (\<forall>sid sid' h. parked s sid = Some h \<and> parked s sid' = Some h \<longrightarrow> sid = sid')"

lemma tasks_invD:
  assumes "tasks_inv s"
  shows "mux_inv (shared s)" and "h \<in> pending s \<Longrightarrow> h < next_notify (shared s)"
    and "parked s sid = Some h \<Longrightarrow> reader_ok (notified s) (shared s) sid h"
    and "parked s sid = Some h \<Longrightarrow> parked s sid' = Some h \<Longrightarrow> sid = sid'"
  using assms unfolding tasks_inv_def by blast+

lemma tasks_invI:
  assumes "mux_inv m" and "\<And>h. h \<in> q \<Longrightarrow> h < next_notify m"
    and "\<And>sid h. p sid = Some h \<Longrightarrow> reader_ok (set (permits m) \<union> q) m sid h"
    and "\<And>sid sid' h. p sid = Some h \<Longrightarrow> p sid' = Some h \<Longrightarrow> sid = sid'"
  shows "tasks_inv \<lparr>shared = m, parked = p, pending = q\<rparr>"
  unfolding tasks_inv_def notified_def using assms by auto

lemma reader_ok_guarantee:
  assumes r: "reader_ok P m sid h" and g: "guarantee m m'"
    and P': "P \<subseteq> P'" "set (permits m') \<subseteq> P'"
  shows "reader_ok P' m' sid h"
proof -
  have h: "h < next_notify m" and own: "\<And>sid' st. stream_at m sid' = Some st \<Longrightarrow> notify st = h \<Longrightarrow> sid' = sid"
    and live: "h \<in> P \<or> (\<exists>st. stream_at m sid = Some st \<and> notify st = h \<and> \<not> ready st)"
    using r unfolding reader_ok_def by blast+
  have "h < next_notify m'" using h g unfolding guarantee_def by linarith
  moreover have "sid' = sid" if "stream_at m' sid' = Some st" "notify st = h" for sid' st
    using g that h own unfolding guarantee_def by (metis not_le)
  moreover have "h \<in> P' \<or> (\<exists>st. stream_at m' sid = Some st \<and> notify st = h \<and> \<not> ready st)"
    using live g P' unfolding guarantee_def by blast
  ultimately show ?thesis unfolding reader_ok_def by blast
qed

lemma reader_ok_permits [simp]: "reader_ok P (m\<lparr>permits := ps\<rparr>) sid h = reader_ok P m sid h"
  by (simp add: reader_ok_def)

lemma tasks_inv_safe:
  assumes inv: "tasks_inv s" and safe: "safe (shared s) m"
  shows "tasks_inv (s\<lparr>shared := m\<rparr>)"
proof -
  have g: "guarantee (shared s) m" "mux_inv m" using safe by (simp_all add: safe_def)
  have more: "set (permits (shared s)) \<subseteq> set (permits m)" "next_notify (shared s) \<le> next_notify m"
    using g(1) by (auto simp: guarantee_def)
  have "tasks_inv \<lparr>shared = m, parked = parked s, pending = pending s\<rparr>"
  proof (rule tasks_invI)
    show "h < next_notify m" if "h \<in> pending s" for h
      using tasks_invD(2) [OF inv that] more(2) by simp
    show "reader_ok (set (permits m) \<union> pending s) m sid h" if "parked s sid = Some h" for sid h
      by (rule reader_ok_guarantee [OF tasks_invD(3) [OF inv that] g(1)]) (use more in \<open>auto simp: notified_def\<close>)
  qed (use g(2) tasks_invD(4) [OF inv] in blast)+
  then show ?thesis by (cases s) simp
qed

lemma tasks_inv_frame:
  assumes inv: "tasks_inv s" and safe: "safe (shared s) m"
  shows "tasks_inv (s\<lparr>shared := m\<lparr>permits := permits (shared s)\<rparr>, pending := pending s \<union> set (permits m)\<rparr>)"
proof -
  have g: "guarantee (shared s) m" "mux_inv m" using safe by (simp_all add: safe_def)
  have more: "set (permits (shared s)) \<subseteq> set (permits m)" "next_notify (shared s) \<le> next_notify m"
    using g(1) by (auto simp: guarantee_def)
  have bound: "h < next_notify m" if "h \<in> set (permits m)" for h
    using g(2) that unfolding mux_inv_def by blast
  let ?m = "m\<lparr>permits := permits (shared s)\<rparr>" and ?q = "pending s \<union> set (permits m)"
  have "tasks_inv \<lparr>shared = ?m, parked = parked s, pending = ?q\<rparr>"
  proof (rule tasks_invI)
    show "mux_inv ?m" using g(2) bound more(1) unfolding mux_inv_def by auto
    show "h < next_notify ?m" if "h \<in> ?q" for h
      using that tasks_invD(2) [OF inv, of h] more(2) bound by auto
    show "reader_ok (set (permits ?m) \<union> ?q) ?m sid h" if "parked s sid = Some h" for sid h
      unfolding reader_ok_permits
      by (rule reader_ok_guarantee [OF tasks_invD(3) [OF inv that] g(1)]) (use more in \<open>auto simp: notified_def\<close>)
  qed (use tasks_invD(4) [OF inv] in blast)
  then show ?thesis by (cases s) simp
qed

lemma tasks_inv_notify:
  assumes inv: "tasks_inv s" and h: "h \<in> pending s"
  shows "tasks_inv (s\<lparr>shared := notify_one h (shared s), pending := pending s - {h}\<rparr>)"
proof -
  have "tasks_inv \<lparr>shared = notify_one h (shared s), parked = parked s, pending = pending s - {h}\<rparr>"
  proof (rule tasks_invI)
    show "mux_inv (notify_one h (shared s))"
      by (rule notify_one_inv) (use tasks_invD(1,2) [OF inv] h in auto)
    have same: "set (permits (notify_one h (shared s))) \<union> (pending s - {h}) = notified s"
      using h by (auto simp: notified_def)
    show "reader_ok (set (permits (notify_one h (shared s))) \<union> (pending s - {h}))
        (notify_one h (shared s)) sid k" if "parked s sid = Some k" for sid k
      unfolding same using tasks_invD(3) [OF inv that] by (simp add: reader_ok_def)
  qed (use tasks_invD(2,4) [OF inv] in auto)
  then show ?thesis by (cases s) simp
qed

lemma tasks_inv_wait:
  assumes inv: "tasks_inv s" and p: "parked s sid = None"
    and w: "wait_check sid (shared s) = (w, m)"
  shows "tasks_inv (s\<lparr>shared := m, parked := (parked s)(sid := w)\<rparr>)"
proof -
  have inv': "tasks_inv (s\<lparr>shared := m\<rparr>)"
    by (rule tasks_inv_safe [OF inv wait_check_safe(1) [OF tasks_invD(1) [OF inv] w]])
  then have mux: "mux_inv m" using tasks_invD(1) by fastforce
  let ?P = "set (permits m) \<union> pending s" and ?p = "(parked s)(sid := w)"
  have readers: "reader_ok ?P m k h" if "parked s k = Some h" for k h
    using tasks_invD(3) [OF inv', of k h] that by (simp add: notified_def)
  have new: "reader_ok ?P m sid h \<and> (\<forall>k. parked s k \<noteq> Some h)" if h: "w = Some h" for h
  proof -
    obtain st where st: "stream_at m sid = Some st" "notify st = h" "\<not> ready st"
      using wait_check_safe(2) [OF tasks_invD(1) [OF inv] w h] by blast
    have "reader_ok ?P m sid h"
      unfolding reader_ok_def
    proof (intro conjI allI impI)
      show "h < next_notify m" using mux_invD(2) [OF mux st(1)] st(2) by simp
      fix k st' assume "stream_at m k = Some st' \<and> notify st' = h"
      then show "k = sid" using mux_invD(3) [OF mux st(1), of k st'] st(2) by simp
    qed (use st in blast)
    moreover have "parked s k \<noteq> Some h" for k
      using readers [of k h] st p unfolding reader_ok_def by (metis option.distinct(1))
    ultimately show ?thesis by blast
  qed
  have "tasks_inv \<lparr>shared = m, parked = ?p, pending = pending s\<rparr>"
  proof (rule tasks_invI)
    show "h < next_notify m" if "h \<in> pending s" for h
      using tasks_invD(2) [OF inv', of h] that by simp
    show "reader_ok ?P m k h" if "?p k = Some h" for k h
      using that readers new by (cases "k = sid") simp_all
    fix k k' h assume k: "?p k = Some h" "?p k' = Some h"
    show "k = k'"
    proof (cases "k = sid \<or> k' = sid")
      case True
      then have "w = Some h" using k by auto
      then show ?thesis using new [of h] k by (metis fun_upd_other)
    next
      case False
      then show ?thesis using k tasks_invD(4) [OF inv, of k h k'] by simp
    qed
  qed (rule mux)
  then show ?thesis by (cases s) simp
qed

lemma tasks_inv_wake:
  assumes inv: "tasks_inv s" and p: "parked s sid = Some h"
    and c: "consume_permit h (shared s) = Some m"
  shows "tasks_inv (s\<lparr>shared := m, parked := (parked s)(sid := None)\<rparr>)"
proof -
  note m = consume_permit_inv [OF tasks_invD(1) [OF inv] c]
  have "tasks_inv \<lparr>shared = m, parked = (parked s)(sid := None), pending = pending s\<rparr>"
  proof (rule tasks_invI)
    fix k h' assume "((parked s)(sid := None)) k = Some h'"
    then have k: "parked s k = Some h'" "k \<noteq> sid" by (simp_all split: if_splits)
    then have "h' \<noteq> h" using tasks_invD(4) [OF inv] p by blast
    then show "reader_ok (set (permits m) \<union> pending s) m k h'"
      using tasks_invD(3) [OF inv k(1)] by (auto simp: reader_ok_def notified_def m)
  next
    fix k k' h' assume "((parked s)(sid := None)) k = Some h'" "((parked s)(sid := None)) k' = Some h'"
    then show "k = k'" using tasks_invD(4) [OF inv, of k h' k'] by (simp split: if_splits)
  qed (use tasks_invD(2) [OF inv] m in simp_all)
  then show ?thesis by (cases s) simp
qed

lemma step_safe:
  assumes inv: "tasks_inv s" and "tasks_step s s'"
  shows "tasks_inv s'"
  using assms(2)
proof cases
  case (step_open sid m)
  then have "safe (shared s) m" using open_stream_safe tasks_invD(1) [OF inv] by fastforce
  with step_open inv tasks_inv_safe show ?thesis by simp
next
  case (step_send send sid c p r m p')
  have "safe (shared s) m" using send_chunks_safe [OF tasks_invD(1) [OF inv] step_send(2)] .
  with step_send inv tasks_inv_safe show ?thesis by simp
next
  case (step_close sid)
  with close_local_safe [OF tasks_invD(1) [OF inv]] inv tasks_inv_safe show ?thesis by simp
next
  case (step_frame frame m)
  with handle_frame_safe [OF tasks_invD(1) [OF inv]] inv tasks_inv_frame show ?thesis by simp
next
  case (step_notify h)
  with inv tasks_inv_notify show ?thesis by simp
next
  case (step_read sid d m)
  then have "safe (shared s) m" using read_stream_safe [OF tasks_invD(1) [OF inv], of sid] by simp
  with step_read inv tasks_inv_safe show ?thesis by simp
next
  case (step_wait sid w m)
  with inv tasks_inv_wait show ?thesis by simp
next
  case (step_wake sid h m)
  with inv tasks_inv_wake show ?thesis by simp
qed

lemma mux_new_inv: "mux_inv (mux_new c)"
  by (simp add: mux_inv_def mux_new_def table_ok_def)

lemma reachable_ok: "tasks_reachable c s \<Longrightarrow> tasks_inv s"
proof (induction rule: tasks_reachable.induct)
  case reach_init
  then show ?case by (simp add: mux_new_inv tasks_inv_def)
next
  case (reach_step s s')
  then show ?case using step_safe by blast
qed

section \<open>Properties\<close>

text \<open>C12: In every interleaving of the lock sections of the multiplexer's operations, with any bytes as
  frames, its state is well-formed: one stream per id, at most 100 buffered segments per stream
  and all of them ahead of the next expected one, a separate wake-up handle for every stream,
  and no stored permit for a handle that was never made.\<close>

theorem reachable_invariant:
  assumes "tasks_reachable c s"
  shows "mux_inv (shared s)"
  using tasks_invD(1) [OF reachable_ok [OF assms]] .

definition sample_frame :: frame where
  "sample_frame = data_frame 0 1 0 [104, 105]"

definition sample_mux :: multiplexer where
  "sample_mux = put_stream 1 (new_stream 0 0) (mux_new 7 \<lparr>next_id := 2, next_notify := 1\<rparr>)"

definition sample_wait :: tasks where
  "sample_wait = \<lparr>shared = sample_mux, parked = (\<lambda>_. None)(1 := Some 0), pending = {}\<rparr>"

definition sample_filled :: tasks where
  "sample_filled = (let m = the (handle_frame sample_frame sample_mux) in
     sample_wait\<lparr>shared := m\<lparr>permits := []\<rparr>, pending := set (permits m)\<rparr>)"

lemma sample_open: "open_stream (mux_new 7) = Some (1, sample_mux)"
  by (subst open_stream.simps) (simp add: mux_new_def sample_mux_def Let_def)

lemma sample_check: "wait_check 1 sample_mux = (Some 0, sample_mux)"
  by (simp add: wait_check_def entry_or_insert_def sample_mux_def ready_def)

lemma sample_wait_reachable: "tasks_reachable 7 sample_wait"
proof -
  have "tasks_reachable 7 \<lparr>shared = mux_new 7, parked = (\<lambda>_. None), pending = {}\<rparr>" by (rule reach_init)
  then have "tasks_reachable 7 \<lparr>shared = sample_mux, parked = (\<lambda>_. None), pending = {}\<rparr>"
    by (rule reach_step) (use step_open [of "\<lparr>shared = mux_new 7, parked = (\<lambda>_. None), pending = {}\<rparr>"] sample_open in simp)
  then show ?thesis
    by (rule reach_step)
      (use step_wait [of "\<lparr>shared = sample_mux, parked = (\<lambda>_. None), pending = {}\<rparr>" 1] sample_check
       in \<open>simp add: sample_wait_def\<close>)
qed

lemma sample_filled_reachable: "tasks_reachable 7 sample_filled"
proof (rule reach_step [OF sample_wait_reachable])
  have "handle_frame sample_frame sample_mux \<noteq> None" by code_simp
  then show "tasks_step sample_wait sample_filled"
    using step_frame [of sample_frame sample_wait]
    by (auto simp: sample_filled_def sample_wait_def Let_def sample_mux_def mux_new_def put_stream_def)
qed

theorem reachable_invariant_witness: "mux_inv (shared sample_filled)"
  by (rule reachable_invariant [OF sample_filled_reachable])

text \<open>C4: No lost wake-up. In every interleaving of the lock sections and of the notifications sent
  after them, a reader that is parked in \<open>wait_for_data\<close> while its stream has data, is closed, or
  has been removed holds a permit or is about to be given one, so its wait ends; and no permit of
  it can be taken by the reader of another stream.\<close>

theorem no_lost_wakeup:
  assumes "tasks_reachable c s" and "parked s sid = Some h"
    and "stream_at (shared s) sid = None \<or> ready (the (stream_at (shared s) sid))"
  shows "(h \<in> pending s \<or> consume_permit h (shared s) \<noteq> None) \<and>
         (\<forall>sid'. sid' \<noteq> sid \<longrightarrow> parked s sid' \<noteq> Some h)"
proof -
  note inv = reachable_ok [OF assms(1)]
  have "h \<in> notified s" using tasks_invD(3) [OF inv assms(2)] assms(3) unfolding reader_ok_def by auto
  moreover have "\<forall>sid'. sid' \<noteq> sid \<longrightarrow> parked s sid' \<noteq> Some h"
    using tasks_invD(4) [OF inv assms(2)] by blast
  ultimately show ?thesis by (auto simp: consume_permit_def notified_def)
qed

lemma sample_filled_ready:
  "parked sample_filled 1 = Some 0" "ready (the (stream_at (shared sample_filled) 1))"
  by (simp add: sample_filled_def sample_wait_def Let_def)
    (simp add: sample_filled_def Let_def, code_simp)

theorem no_lost_wakeup_witness:
  "0 \<in> pending sample_filled"
proof -
  have "consume_permit 0 (shared sample_filled) = None" by (simp add: sample_filled_def Let_def consume_permit_def)
  then show ?thesis
    using no_lost_wakeup [OF sample_filled_reachable sample_filled_ready(1)] sample_filled_ready(2) by blast
qed

text \<open>A client reset strands the reader of the stream it removes. The reader is woken and the stream
  reports closed, but the next round of \<open>wait_for_data\<close> finds no stream, creates an open empty
  one under the same id and waits on its new handle, which holds no permit; after that the stream
  does not report closed either.\<close>

theorem reset_strands_reader:
  assumes "mux_inv m" and "stream_at m sid = Some st" and "notify st = h"
  defines "m1 \<equiv> reset_client (st_client_id st) m"
  shows "stream_closed sid m1 \<and>
    (\<exists>m2. consume_permit h m1 = Some m2 \<and>
       (\<exists>h' m3. wait_check sid m2 = (Some h', m3) \<and>
          consume_permit h' m3 = None \<and> \<not> stream_closed sid m3))"
proof -
  have safe: "safe m m1" unfolding m1_def by (rule reset_client_safe [OF assms(1)])
  then have inv1: "mux_inv m1" by (simp add: safe_def)
  have gone: "stream_at m1 sid = None" using assms(2) by (simp add: m1_def reset_client_streams [OF assms(1)])
  have "h \<in> set (permits m1)" unfolding m1_def reset_client_permits [OF assms(1)] using assms(2,3) by blast
  then obtain m2 where m2: "consume_permit h m1 = Some m2" by (simp add: consume_permit_def)
  note c = consume_permit_inv [OF inv1 m2]
  have gone2: "stream_at m2 sid = None" using gone by (simp add: c(2))
  have "next_notify m2 \<notin> set (permits m2)" using c(1) unfolding mux_inv_def by blast
  then show ?thesis
    using gone gone2 m2
    by (auto simp: stream_closed_def wait_check_def entry_or_insert_def Let_def ready_def consume_permit_def)
qed

theorem reset_strands_reader_witness:
  "stream_closed 1 (reset_client 0 sample_mux)"
proof -
  have "mux_inv sample_mux"
    using tasks_invD(1) [OF reachable_ok [OF sample_wait_reachable]] by (simp add: sample_wait_def)
  moreover have "stream_at sample_mux 1 = Some (new_stream 0 0)" by (simp add: sample_mux_def)
  ultimately show ?thesis using reset_strands_reader [of sample_mux 1 "new_stream 0 0" 0] by simp
qed

end
