(* ===== verification/Import_Server.thy ===== *)
theory Import_Server
  imports Vpn_Protocols
begin

text \<open>
  \<open>src/import.rs\<close>: from the text a user pastes to a profile. What the \<open>url\<close>, \<open>base64\<close>,
  \<open>serde_json\<close> and \<open>uuid\<close> crates answer is an argument, the record \<open>import_env\<close>; a parsed
  URL is the record of what its accessors return.
\<close>

section \<open>The crates\<close>

record url =
  url_scheme :: string
  url_username :: string
  url_password :: "string option"
  url_host :: "string option"
  url_port :: "u16 option"
  url_path :: string
  url_query_pairs :: "(string \<times> string) list"
  url_fragment :: "string option"

record import_env =
  url_parse :: "string \<Rightarrow> string + url"
  form_parse :: "string \<Rightarrow> (string \<times> string) list"
  base64_decode :: "string \<Rightarrow> string + byte list"
  json_from_slice :: "byte list \<Rightarrow> string + json"
  utf8_error :: "byte list \<Rightarrow> string"
  new_uuid :: uuid

type_synonym query = "(string, string) btree_map"

section \<open>Text helpers\<close>

text \<open>\<open>collect\<close> into a map: of two pairs with one key the later wins.\<close>

definition query_map :: "url \<Rightarrow> query" where
  "query_map u = fold (\<lambda>(k, v). AList.update k v) (url_query_pairs u) []"

definition percent_decode :: "import_env \<Rightarrow> string \<Rightarrow> string" where
  "percent_decode env s =
     (case form_parse env s of [] \<Rightarrow> s | (key, v) # _ \<Rightarrow> key @ v)"

definition fragment_name :: "import_env \<Rightarrow> url \<Rightarrow> string option" where
  "fragment_name env u =
     opt_filter (\<lambda>v. trim v \<noteq> []) (map_option (percent_decode env) (url_fragment u))"

definition base64_standard :: "char \<Rightarrow> char" where
  "base64_standard c = (if c = CHR ''-'' then CHR ''+'' else if c = CHR ''_'' then CHR ''/'' else c)"

definition base64_padded :: "string \<Rightarrow> string" where
  "base64_padded s =
     (let normalized = map base64_standard s; missing = length normalized mod 4
      in if missing = 0 then normalized else normalized @ replicate (4 - missing) (CHR ''=''))"

definition decode_base64 :: "import_env \<Rightarrow> string \<Rightarrow> byte list vpn_result" where
  "decode_base64 env s =
     map_err (\<lambda>e. Import (''invalid base64: '' @ e)) (base64_decode env (base64_padded s))"

fun protocol_name :: "vpn_protocol \<Rightarrow> string" where
  "protocol_name Vless = ''VLESS''"
| "protocol_name Vmess = ''VMess''"
| "protocol_name Trojan = ''Trojan''"
| "protocol_name Shadowsocks = ''Shadowsocks''"
| "protocol_name WireGuard = ''WireGuard''"
| "protocol_name Hysteria = ''Hysteria''"
| "protocol_name Hysteria2 = ''Hysteria2''"
| "protocol_name Tuic = ''TUIC''"
| "protocol_name Tun = ''TUN''"
| "protocol_name Mixed = ''Mixed''"
| "protocol_name Socks = ''SOCKS''"
| "protocol_name Http = ''HTTP''"
| "protocol_name OlcRtc = ''OLC RTC''"

definition default_port :: "vpn_protocol \<Rightarrow> u16" where
  "default_port p =
     (case p of Shadowsocks \<Rightarrow> 8388 | Socks \<Rightarrow> 1080 | Http \<Rightarrow> 8080 | OlcRtc \<Rightarrow> 443 | _ \<Rightarrow> 443)"

section \<open>Options from the query\<close>

definition transport_of_name :: "string \<Rightarrow> transport_kind" where
  "transport_of_name s =
     (if s = ''ws'' then WebSocket else if s = ''grpc'' then Grpc
      else if s = ''httpupgrade'' then HttpUpgrade else if s = ''xhttp'' then Xhttp
      else if s = ''quic'' then Quic else Tcp)"

definition parse_transport :: "query \<Rightarrow> transport" where
  "parse_transport query =
     (let kind =
            (case or_else (map_of query ''type'') (map_of query ''security'') of
               None \<Rightarrow> Tcp
             | Some s \<Rightarrow> if s = ''websocket'' then WebSocket else transport_of_name s)
      in \<lparr>transport_kind = kind, transport_path = map_of query ''path'',
          transport_host = map_of query ''host'',
          transport_service_name =
            or_else (map_of query ''serviceName'') (map_of query ''service_name''),
          transport_headers = []\<rparr>)"

definition parse_tls :: "query \<Rightarrow> tls_options option" where
  "parse_tls query =
     (let security = map_of query ''security'';
          enabled = (security = Some ''tls'' \<or> security = Some ''reality'' \<or>
                     map_of query ''sni'' \<noteq> None)
      in if enabled
         then Some
           \<lparr>tls_enabled = enabled,
            tls_server_name = or_else (map_of query ''sni'') (map_of query ''peer''),
            tls_alpn = (case map_of query ''alpn'' of None \<Rightarrow> [] | Some v \<Rightarrow> split_char (CHR '','') v),
            tls_insecure =
              (case or_else (map_of query ''allowInsecure'') (map_of query ''insecure'') of
                 None \<Rightarrow> False | Some v \<Rightarrow> v = ''1'' \<or> v = ''true''),
            tls_fingerprint = map_of query ''fp''\<rparr>
         else None)"

definition parse_reality :: "query \<Rightarrow> reality_options option" where
  "parse_reality query =
     (if map_of query ''security'' = Some ''reality''
      then Some \<lparr>reality_public_key = unwrap_or (map_of query ''pbk'') [],
                 reality_short_id = map_of query ''sid'',
                 reality_spider_x = map_of query ''spx''\<rparr>
      else None)"

definition parse_olcrtc_room_id :: "url \<Rightarrow> query \<Rightarrow> string vpn_result" where
  "parse_olcrtc_room_id u query =
     (case opt_filter (\<lambda>v. trim v \<noteq> []) (map_of query ''roomId'') of
        Some room_id \<Rightarrow> Inr room_id
      | None \<Rightarrow>
          let host = unwrap_or (url_host u) [];
              path = strip_start [''/''] (url_path u);
              room_id = (if (host = ''wb_stream'' \<or> host = ''wbstream'') \<and> path \<noteq> []
                         then path else host)
          in if trim room_id = [] then Inl (Import ''OLC RTC room id is required'')
             else Inr room_id)"

section \<open>The three importers\<close>

definition scheme_protocol :: "string \<Rightarrow> vpn_protocol option" where
  "scheme_protocol s =
     (if s = ''vless'' then Some Vless
      else if s = ''trojan'' then Some Trojan
      else if s = ''wireguard'' \<or> s = ''wg'' then Some WireGuard
      else if s = ''hysteria'' then Some Hysteria
      else if s = ''hysteria2'' \<or> s = ''hy2'' then Some Hysteria2
      else if s = ''tuic'' then Some Tuic
      else if s = ''socks'' \<or> s = ''socks5'' then Some Socks
      else if s = ''http'' \<or> s = ''https'' then Some Http
      else if s = ''olcrtc'' \<or> s = ''olcrtc+wbstream'' \<or> s = ''wbstream'' then Some OlcRtc
      else None)"

definition url_auth :: "import_env \<Rightarrow> url \<Rightarrow> query \<Rightarrow> vpn_protocol \<Rightarrow> auth_options" where
  "url_auth env u query protocol =
     (let credential = url_username u; password = url_password u;
          shared = \<lparr>auth_uuid = map_of query ''uuid'',
                    auth_password = Some (percent_decode env credential),
                    auth_method = None, auth_username = None\<rparr>;
          proxy = \<lparr>auth_uuid = None, auth_password = password, auth_method = None,
                   auth_username = (if credential = [] then None
                                    else Some (percent_decode env credential))\<rparr>
      in case protocol of
           Vless \<Rightarrow> \<lparr>auth_uuid = Some credential, auth_password = None, auth_method = None,
                     auth_username = None\<rparr>
         | Trojan \<Rightarrow> shared
         | Hysteria \<Rightarrow> shared
         | Hysteria2 \<Rightarrow> shared
         | Tuic \<Rightarrow> shared
         | Socks \<Rightarrow> proxy
         | Http \<Rightarrow> proxy
         | OlcRtc \<Rightarrow>
             \<lparr>auth_uuid = None,
              auth_password =
                or_else (or_else (map_of query ''key'') password)
                  (if credential = [] then None else Some (percent_decode env credential)),
              auth_method = None, auth_username = None\<rparr>
         | _ \<Rightarrow>
             \<lparr>auth_uuid = None,
              auth_password = or_else password (Some (percent_decode env credential)),
              auth_method = None, auth_username = None\<rparr>)"

definition url_profile :: "import_env \<Rightarrow> url \<Rightarrow> vpn_protocol \<Rightarrow> vpn_profile vpn_result" where
  "url_profile env u protocol =
     (let query = query_map u;
          name = unwrap_or (fragment_name env u)
                   (unwrap_or (url_host u) (protocol_name protocol))
      in and_then
           (if protocol = OlcRtc then parse_olcrtc_room_id u query
            else ok_or (url_host u) (Import ''server host is required''))
           (\<lambda>server.
              Inr \<lparr>profile_id = new_uuid env, profile_name = name, profile_protocol = protocol,
                   profile_server = server,
                   profile_port = unwrap_or (url_port u) (default_port protocol),
                   profile_auth = url_auth env u query protocol,
                   profile_transport = parse_transport query, profile_tls = parse_tls query,
                   profile_reality = parse_reality query, profile_wireguard = None,
                   profile_extra = map (\<lambda>(k, v). (k, JStr v)) query\<rparr>))"

definition parse_url_profile :: "import_env \<Rightarrow> string \<Rightarrow> vpn_profile vpn_result" where
  "parse_url_profile env s =
     and_then (map_err from_parse_error (url_parse env s))
       (\<lambda>u. case scheme_protocol (url_scheme u) of
              None \<Rightarrow> Inl (Import (''unsupported URI scheme '' @ url_scheme u))
            | Some protocol \<Rightarrow> url_profile env u protocol)"

definition vmess_port :: "json \<Rightarrow> u16" where
  "vmess_port port =
     unwrap_or
       (or_else (Option.bind (as_str port) parse_u16) (map_option ucast (as_u64 port))) 443"

definition vmess_profile :: "import_env \<Rightarrow> json \<Rightarrow> vpn_profile" where
  "vmess_profile env json =
     (let field = (\<lambda>k. as_str (json_index json k)) in
      \<lparr>profile_id = new_uuid env, profile_name = unwrap_or (field ''ps'') ''VMess'',
       profile_protocol = Vmess, profile_server = unwrap_or (field ''add'') [],
       profile_port = vmess_port (json_index json ''port''),
       profile_auth = \<lparr>auth_uuid = field ''id'', auth_password = None, auth_method = None,
                       auth_username = None\<rparr>,
       profile_transport =
         \<lparr>transport_kind = transport_of_name (unwrap_or (field ''net'') ''tcp''),
          transport_path = field ''path'', transport_host = field ''host'',
          transport_service_name = field ''path'', transport_headers = []\<rparr>,
       profile_tls = Some
         \<lparr>tls_enabled = (field ''tls'' = Some ''tls'' \<or> field ''tls'' = Some ''reality''),
          tls_server_name = or_else (field ''sni'') (field ''host''),
          tls_alpn = [], tls_insecure = False, tls_fingerprint = field ''fp''\<rparr>,
       profile_reality = None, profile_wireguard = None, profile_extra = []\<rparr>)"

definition parse_vmess :: "import_env \<Rightarrow> string \<Rightarrow> vpn_profile vpn_result" where
  "parse_vmess env s =
     and_then (decode_base64 env (strip_start [''vmess://''] s)) (\<lambda>decoded.
     and_then (map_err (\<lambda>e. Import (''invalid vmess json: '' @ e)) (json_from_slice env decoded))
       (\<lambda>json. Inr (vmess_profile env json)))"

text \<open>\<open>String::from_utf8\<close> with the text of its error in a message.\<close>

definition utf8_or :: "import_env \<Rightarrow> string \<Rightarrow> byte list \<Rightarrow> string vpn_result" where
  "utf8_or env what bs = ok_or (from_utf8 bs) (Import (what @ utf8_error env bs))"

definition shadowsocks_main :: "import_env \<Rightarrow> string \<Rightarrow> string vpn_result" where
  "shadowsocks_main env main =
     (if CHR ''@'' \<in> set main then Inr main
      else and_then (decode_base64 env main) (utf8_or env ''invalid shadowsocks base64: ''))"

definition shadowsocks_userinfo :: "import_env \<Rightarrow> url \<Rightarrow> string vpn_result" where
  "shadowsocks_userinfo env u =
     (let userinfo = url_username u @
            (case url_password u of None \<Rightarrow> [] | Some password \<Rightarrow> CHR '':'' # password)
      in if CHR '':'' \<in> set userinfo then Inr userinfo
         else and_then (decode_base64 env userinfo)
                (utf8_or env ''invalid shadowsocks credentials: ''))"

definition parse_shadowsocks :: "import_env \<Rightarrow> string \<Rightarrow> vpn_profile vpn_result" where
  "parse_shadowsocks env s =
     (let without_scheme = strip_start [''ss://''] s;
          (main, name) =
            (case split_once (CHR ''#'') without_scheme of
               None \<Rightarrow> (without_scheme, ''Shadowsocks'')
             | Some (main, fragment) \<Rightarrow> (main, percent_decode env fragment))
      in and_then (shadowsocks_main env main) (\<lambda>decoded_main.
         and_then (map_err from_parse_error (url_parse env (''ss://'' @ decoded_main))) (\<lambda>u.
         and_then (shadowsocks_userinfo env u) (\<lambda>userinfo.
         and_then
           (ok_or (split_once (CHR '':'') userinfo)
                  (Import ''shadowsocks method:password is required''))
           (\<lambda>(ss_method, password).
              Inr \<lparr>profile_id = new_uuid env, profile_name = name,
                   profile_protocol = Shadowsocks,
                   profile_server = unwrap_or (url_host u) [],
                   profile_port = unwrap_or (url_port u) 8388,
                   profile_auth = \<lparr>auth_uuid = None, auth_password = Some password,
                                   auth_method = Some ss_method, auth_username = None\<rparr>,
                   profile_transport = default_transport, profile_tls = None,
                   profile_reality = None, profile_wireguard = None, profile_extra = []\<rparr>)))))"

definition import_server :: "import_env \<Rightarrow> string \<Rightarrow> imported_server vpn_result" where
  "import_server env input =
     (let trimmed = trim input in
      if trimmed = [] then Inl (Import ''empty import input'')
      else
        and_then
          (if prefix ''vmess://'' trimmed then parse_vmess env trimmed
           else if prefix ''ss://'' trimmed then parse_shadowsocks env trimmed
           else parse_url_profile env trimmed)
          (\<lambda>profile. Inr \<lparr>imported_profile = profile, imported_warnings = []\<rparr>))"

end
