(* ===== verification/Import_Props.thy ===== *)
theory Import_Props
  imports Import_Server Sing_Config_Props
begin

text \<open>
  What an import guarantees: the protocol of every listed URI scheme, the fields of a profile
  made from a URL, and that an imported profile which validates can always be turned into a
  configuration.
\<close>

section \<open>Shapes of a successful import\<close>

lemma query_map_of: "map_of (query_map u) k = map_of (rev (url_query_pairs u)) k"
proof -
  have "map_of (fold (\<lambda>(k, v). AList.update k v) ps al) k =
      (case map_of (rev ps) k of None \<Rightarrow> map_of al k | Some v \<Rightarrow> Some v)"
    for ps :: "(string \<times> string) list" and al
    by (induction ps arbitrary: al) (auto simp: update_conv' split: option.split)
  then show ?thesis by (simp add: query_map_def split: option.split)
qed

lemma url_profile_fields:
  assumes "url_profile env u protocol = Inr p"
  shows "profile_id p = new_uuid env" and "profile_protocol p = protocol"
    and "profile_port p = unwrap_or (url_port u) (default_port protocol)"
    and "profile_auth p = url_auth env u (query_map u) protocol"
    and "profile_reality p = parse_reality (query_map u)" and "profile_wireguard p = None"
    and "profile_tls p = parse_tls (query_map u)"
    and "profile_extra p = map (\<lambda>(k, v). (k, JStr v)) (query_map u)"
    and "profile_name p = unwrap_or (fragment_name env u)
           (unwrap_or (url_host u) (protocol_name protocol))"
    and "protocol \<noteq> OlcRtc \<Longrightarrow> url_host u = Some (profile_server p)"
    and "protocol = OlcRtc \<Longrightarrow> parse_olcrtc_room_id u (query_map u) = Inr (profile_server p)"
  using assms by (auto simp: url_profile_def Let_def vpn_result split: if_splits)

lemma parse_url_profile_success:
  assumes "parse_url_profile env s = Inr p"
  obtains u protocol where "url_parse env s = Inr u"
    and "scheme_protocol (url_scheme u) = Some protocol" and "url_profile env u protocol = Inr p"
  using assms by (auto simp: parse_url_profile_def vpn_result split: option.splits)

lemma parse_vmess_success:
  assumes "parse_vmess env s = Inr p"
  obtains json where "p = vmess_profile env json"
  using assms by (auto simp: parse_vmess_def vpn_result)

lemma parse_shadowsocks_success:
  assumes "parse_shadowsocks env s = Inr p"
  shows "profile_id p = new_uuid env" and "profile_protocol p = Shadowsocks"
    and "profile_wireguard p = None"
  using assms by (auto simp: parse_shadowsocks_def Let_def vpn_result split: prod.splits)

lemma import_server_success:
  assumes "import_server env input = Inr r"
  shows "imported_warnings r = []"
    and "(if prefix ''vmess://'' (trim input) then parse_vmess env (trim input)
          else if prefix ''ss://'' (trim input) then parse_shadowsocks env (trim input)
          else parse_url_profile env (trim input)) = Inr (imported_profile r)"
  using assms by (auto simp: import_server_def Let_def vpn_result split: if_splits)

lemma scheme_protocol_remote:
  "scheme_protocol s = Some p \<Longrightarrow> p \<notin> {Tun, Mixed, Vmess, Shadowsocks}"
  by (auto simp: scheme_protocol_def split: if_splits)

lemma imported_cases:
  assumes "import_server env input = Inr r"
  obtains (vmess) json where "imported_profile r = vmess_profile env json"
  | (shadowsocks) "profile_protocol (imported_profile r) = Shadowsocks"
      "profile_wireguard (imported_profile r) = None" "profile_id (imported_profile r) = new_uuid env"
  | (url) u protocol where "url_parse env (trim input) = Inr u"
      "scheme_protocol (url_scheme u) = Some protocol"
      "url_profile env u protocol = Inr (imported_profile r)"
proof -
  note ok = import_server_success(2) [OF assms]
  consider "parse_vmess env (trim input) = Inr (imported_profile r)"
    | "parse_shadowsocks env (trim input) = Inr (imported_profile r)"
    | "parse_url_profile env (trim input) = Inr (imported_profile r)"
    using ok by (simp split: if_splits)
  then show ?thesis
  proof cases
    case 1
    then show ?thesis by (rule parse_vmess_success) (rule vmess)
  next
    case 2
    show ?thesis by (rule shadowsocks) (simp_all add: parse_shadowsocks_success [OF 2])
  next
    case 3
    then show ?thesis by (rule parse_url_profile_success) (rule url)
  qed
qed

lemma imported_facts:
  assumes "import_server env input = Inr r"
  shows "profile_protocol (imported_profile r) \<notin> {Tun, Mixed}"
    and "profile_wireguard (imported_profile r) = None"
    and "profile_id (imported_profile r) = new_uuid env"
  using assms by (cases rule: imported_cases,
    auto simp: vmess_profile_def Let_def url_profile_fields dest: scheme_protocol_remote)+

section \<open>Schemes\<close>

text \<open>A URL text begins with its scheme; the parser returns it in lower case.\<close>

definition has_scheme :: "import_env \<Rightarrow> string \<Rightarrow> string \<Rightarrow> bool" where
  "has_scheme env t s \<longleftrightarrow>
     prefix (s @ ''://'') t \<and>
     (case url_parse env t of Inl _ \<Rightarrow> False | Inr u \<Rightarrow> url_scheme u = s)"

lemma scheme_prefix_unique:
  assumes "prefix (s @ ''://'') t" and "prefix (s' @ ''://'') t"
    and "CHR '':'' \<notin> set s" and "CHR '':'' \<notin> set s'"
  shows "s = s'"
proof -
  obtain a where "t = s @ CHR '':'' # a" using assms(1) by (auto elim: prefixE)
  moreover obtain b where "t = s' @ CHR '':'' # b" using assms(2) by (auto elim: prefixE)
  ultimately have "split_once (CHR '':'') t = Some (s, a)" "split_once (CHR '':'') t = Some (s', b)"
    using assms(3,4) split_once_append by metis+
  then show ?thesis by simp
qed

lemma table_schemes:
  "list_all (\<lambda>(p, _, ss). list_all (\<lambda>s. \<not> List.member s (CHR '':'') \<and>
     (if s = ''vmess'' then p = Vmess else if s = ''ss'' then p = Shadowsocks
      else scheme_protocol s = Some p)) ss) protocol_table"
  by code_simp

lemma listed_scheme:
  assumes "info \<in> set list_protocols" and "s \<in> set (info_uri_schemes info)"
  shows "CHR '':'' \<notin> set s"
    and "if s = ''vmess'' then info_protocol info = Vmess
         else if s = ''ss'' then info_protocol info = Shadowsocks
         else scheme_protocol s = Some (info_protocol info)"
proof -
  obtain p name ss where row: "(p, name, ss) \<in> set protocol_table" "info_protocol info = p"
    "info_uri_schemes info = ss"
    using assms(1) by (auto simp: list_protocols_def)
  then have "s \<in> set ss" using assms(2) by simp
  then have "\<not> List.member s (CHR '':'') \<and>
     (if s = ''vmess'' then p = Vmess else if s = ''ss'' then p = Shadowsocks
      else scheme_protocol s = Some p)"
    using table_schemes row(1) unfolding list_all_iff by blast
  then show "CHR '':'' \<notin> set s"
    and "if s = ''vmess'' then info_protocol info = Vmess
         else if s = ''ss'' then info_protocol info = Shadowsocks
         else scheme_protocol s = Some (info_protocol info)"
    using row(2) by simp_all
qed

text \<open>C10: Every URI scheme the protocol table lists is imported as its protocol, and no listed scheme
  is refused: for the schemes that are read as URLs the only errors left are a missing host and,
  for OLC RTC, a missing room.\<close>

theorem import_listed_scheme:
  assumes "info \<in> set list_protocols" and "s \<in> set (info_uri_schemes info)"
    and "has_scheme env (trim input) s"
  shows "case import_server env input of
           Inr r \<Rightarrow> profile_protocol (imported_profile r) = info_protocol info
         | Inl e \<Rightarrow> s \<in> {''vmess'', ''ss''} \<or>
                    e \<in> {Import ''server host is required'', Import ''OLC RTC room id is required''}"
proof -
  note scheme = listed_scheme [OF assms(1,2)]
  let ?t = "trim input"
  from assms(3) obtain u where pre: "prefix (s @ ''://'') ?t"
    and u: "url_parse env ?t = Inr u" "url_scheme u = s"
    by (auto simp: has_scheme_def split: sum.splits)
  from pre have ne: "?t \<noteq> []" by auto
  have other: "prefix (s' @ ''://'') ?t \<longleftrightarrow> s = s'" if "CHR '':'' \<notin> set s'" for s'
    using scheme_prefix_unique [OF pre _ scheme(1) that] pre by blast
  have vm: "prefix ''vmess://'' ?t \<longleftrightarrow> s = ''vmess''" and ss: "prefix ''ss://'' ?t \<longleftrightarrow> s = ''ss''"
    using other [of "''vmess''"] other [of "''ss''"] by simp_all
  consider (vmess) "s = ''vmess''" | (shadowsocks) "s = ''ss''" | (url) "s \<noteq> ''vmess''" "s \<noteq> ''ss''" by blast
  then show ?thesis
  proof cases
    case vmess
    have "profile_protocol (imported_profile r) = Vmess" if "import_server env input = Inr r" for r
      using import_server_success(2) [OF that] vm vmess
      by (auto elim: parse_vmess_success simp: vmess_profile_def Let_def)
    with scheme(2) vmess show ?thesis by (simp split: sum.split)
  next
    case shadowsocks
    have "profile_protocol (imported_profile r) = Shadowsocks" if "import_server env input = Inr r" for r
      using import_server_success(2) [OF that] vm ss \<open>s = ''ss''\<close>
      by (simp add: parse_shadowsocks_success)
    with scheme(2) \<open>s = ''ss''\<close> show ?thesis by (simp split: sum.split)
  next
    case url
    then have p: "scheme_protocol s = Some (info_protocol info)" using scheme(2) by simp
    have "import_server env input =
        and_then (url_profile env u (info_protocol info))
          (\<lambda>profile. Inr \<lparr>imported_profile = profile, imported_warnings = []\<rparr>)"
      using url vm ss ne u p by (simp add: import_server_def parse_url_profile_def Let_def)
    then show ?thesis
      by (auto split: sum.split simp: vpn_result url_profile_fields)
        (auto simp: url_profile_def parse_olcrtc_room_id_def Let_def vpn_result
         split: if_splits option.splits)
  qed
qed

text \<open>A concrete environment: a URL parser that always finds the same Trojan URL, and so on.\<close>

definition sample_url :: url where
  "sample_url =
     \<lparr>url_scheme = ''trojan'', url_username = ''a=b'', url_password = None, url_host = Some ''h'',
      url_port = None, url_path = [], url_query_pairs = [(''sni'', ''h'')], url_fragment = None\<rparr>"

definition sample_env :: import_env where
  "sample_env =
     \<lparr>url_parse = (\<lambda>_. Inr sample_url),
      form_parse = (\<lambda>s. case split_once (CHR ''='') s of None \<Rightarrow> [(s, [])] | Some kv \<Rightarrow> [kv]),
      base64_decode = (\<lambda>s. if s = ''aGk='' then Inr [104, 105] else Inl ''bad''),
      json_from_slice = (\<lambda>_. Inl ''bad''), utf8_error = (\<lambda>_. ''bad''), new_uuid = 7\<rparr>"

definition sample_import :: imported_server where
  "sample_import = (case import_server sample_env ''trojan://a=b@h?sni=h'' of Inr r \<Rightarrow> r)"

lemma sample_imports: "import_server sample_env ''trojan://a=b@h?sni=h'' = Inr sample_import"
proof -
  have "case import_server sample_env ''trojan://a=b@h?sni=h'' of Inl _ \<Rightarrow> False | Inr _ \<Rightarrow> True"
    by code_simp
  then show ?thesis unfolding sample_import_def by (auto split: sum.splits)
qed

lemma sample_scheme: "has_scheme sample_env (trim ''trojan://a=b@h?sni=h'') ''trojan''"
  by code_simp

theorem import_listed_scheme_witness: "profile_protocol (imported_profile sample_import) = Trojan"
proof -
  let ?i = "list_protocols ! 2"
  have i: "?i \<in> set list_protocols" "''trojan'' \<in> set (info_uri_schemes ?i)" "info_protocol ?i = Trojan"
    by (simp_all add: list_protocols_def protocol_table_def)
  from import_listed_scheme [OF i(1,2) sample_scheme] i(3) show ?thesis by (simp add: sample_imports)
qed

section \<open>Fields\<close>

text \<open>Whatever is imported, the profile carries the fresh id, no warning, no local inbound
  mode and no WireGuard options; so a WireGuard link is imported without an error, yet the profile
  can never be validated and no configuration is ever made from it.\<close>

theorem imported_wireguard_unusable:
  assumes "import_server env input = Inr r"
  shows "profile_id (imported_profile r) = new_uuid env \<and> imported_warnings r = [] \<and>
     profile_protocol (imported_profile r) \<notin> {Tun, Mixed} \<and>
     (profile_protocol (imported_profile r) = WireGuard \<longrightarrow>
        \<not> valid (validate (imported_profile r)) \<and>
        (\<forall>os opts. opt_profile opts = imported_profile r \<longrightarrow>
           (\<nexists>cfg. generate_sing_box_config os opts = Some (Inr cfg))))"
proof -
  have invalid: "\<not> valid (validate (imported_profile r))"
    if "profile_protocol (imported_profile r) = WireGuard"
    using that imported_facts(2) [OF assms] by (simp add: validate_correct)
  show ?thesis
    using imported_facts [OF assms] import_server_success(1) [OF assms] invalid
    by (auto simp: generate_success_iff)
qed

definition wg_url :: url where
  "wg_url = sample_url\<lparr>url_scheme := ''wg''\<rparr>"

definition wg_env :: import_env where
  "wg_env = sample_env\<lparr>url_parse := (\<lambda>_. Inr wg_url)\<rparr>"

theorem imported_wireguard_unusable_witness:
  "\<exists>r. import_server wg_env ''wg://k@h'' = Inr r \<and> profile_protocol (imported_profile r) = WireGuard \<and>
       \<not> valid (validate (imported_profile r))"
proof -
  have "case import_server wg_env ''wg://k@h'' of Inl _ \<Rightarrow> False
        | Inr r \<Rightarrow> profile_protocol (imported_profile r) = WireGuard"
    by code_simp
  then obtain r where "import_server wg_env ''wg://k@h'' = Inr r"
    "profile_protocol (imported_profile r) = WireGuard"
    by (auto split: sum.splits)
  with imported_wireguard_unusable [of wg_env "''wg://k@h''" r] show ?thesis by blast
qed

lemma imported_ready:
  assumes "import_server env input = Inr r" and "opt_profile opts = imported_profile r"
  shows "(\<exists>cfg. generate_sing_box_config os opts = Some (Inr cfg)) \<longleftrightarrow>
         valid (validate (imported_profile r))"
proof -
  let ?p = "imported_profile r"
  have "outbound_possible ?p" if v: "valid (validate ?p)"
  proof (cases "profile_protocol ?p = OlcRtc")
    case True
    from assms(1) obtain u where u: "url_profile env u OlcRtc = Inr ?p"
      by (cases rule: imported_cases)
        (use True in \<open>auto simp: vmess_profile_def Let_def url_profile_fields\<close>)
    note f = url_profile_fields [OF u]
    have key: "k = k'" if "string_extra ?p ''key'' = Some k" "auth_password (profile_auth ?p) = Some k'" for k k'
      using that by (cases "map_of (query_map u) ''key''")
        (auto simp: string_extra_def extra_str_def f(4,8) url_auth_def Let_def opt_filter_Some_iff map_of_map
          split: if_splits)
    from v True obtain k where k: "auth_password (profile_auth ?p) = Some k" "valid_key_hex k"
      and prov: "unwrap_or (string_extra ?p ''provider'') default_provider = default_provider"
      and room: "trim (profile_server ?p) \<noteq> []"
      by (auto simp: validate_correct intro: validated_provider)
    have "trim (unwrap_or (string_extra ?p ''roomId'') (profile_server ?p)) \<noteq> []"
      using room by (rule unwrap_nonblank)
    then have "\<exists>c. from_profile ?p = Inr c"
      using k key prov by (cases "string_extra ?p ''key''") (auto simp: from_profile_def Let_def valid_key_hex_def)
    then show ?thesis using True by (auto simp: outbound_possible_def)
  next
    case False
    moreover have "profile_protocol ?p \<noteq> WireGuard"
      using v imported_facts(2) [OF assms(1)] by (auto simp: validate_correct)
    ultimately show ?thesis by (simp add: outbound_possible_def split: vpn_protocol.split)
  qed
  then show ?thesis using assms(2) by (auto simp: generate_success_iff)
qed

text \<open>C11: An imported profile is ready to use exactly when it validates: for every operating system and
  all other options, configuration generation succeeds if and only if the profile is valid. (Not so
  for arbitrary profiles: the \<open>extra\<close> map of an OLC RTC profile and the addresses of a WireGuard
  profile can make it fail after validation.)\<close>

theorem imported_generates:
  assumes "import_server env input = Inr r" and "opt_profile opts = imported_profile r"
  shows "(\<exists>cfg. generate_sing_box_config os opts = Some (Inr cfg)) \<longleftrightarrow>
         valid (validate (imported_profile r))"
  using assms by (rule imported_ready)

theorem imported_generates_witness:
  "\<exists>cfg. generate_sing_box_config Linux (sample_options\<lparr>opt_profile := imported_profile sample_import\<rparr>) =
     Some (Inr cfg)"
proof -
  have "valid (validate (imported_profile sample_import))" by code_simp
  with imported_generates [OF sample_imports, of "sample_options\<lparr>opt_profile := imported_profile sample_import\<rparr>" Linux]
  show ?thesis by simp
qed

text \<open>The endpoint of a profile made from a URL: the host of the URL and its port, or the
  default port of the protocol where the parser reports none. The \<open>url\<close> crate reports none for a
  port that is the default of its scheme, so an HTTP proxy given with port 80 is imported with
  port 8080.\<close>

theorem imported_endpoint:
  assumes "has_scheme env (trim input) s" and "s \<notin> {''vmess'', ''ss''}" and "CHR '':'' \<notin> set s"
    and "import_server env input = Inr r" and "url_parse env (trim input) = Inr u"
  shows "profile_port (imported_profile r) =
           (case url_port u of
              Some port \<Rightarrow> port
            | None \<Rightarrow> if s \<in> {''http'', ''https''} then 8080
                      else if s \<in> {''socks'', ''socks5''} then 1080 else 443) \<and>
         (profile_protocol (imported_profile r) \<noteq> OlcRtc \<longrightarrow>
            url_host u = Some (profile_server (imported_profile r)))"
proof -
  have pre: "prefix (s @ ''://'') (trim input)" and scheme: "url_scheme u = s"
    using assms(1,5) by (auto simp: has_scheme_def)
  have "\<not> prefix ''vmess://'' (trim input)" "\<not> prefix ''ss://'' (trim input)"
    using scheme_prefix_unique [OF pre, of "''vmess''"] scheme_prefix_unique [OF pre, of "''ss''"]
      assms(2,3) by auto
  then have "parse_url_profile env (trim input) = Inr (imported_profile r)"
    using import_server_success(2) [OF assms(4)] by simp
  then obtain protocol where p: "scheme_protocol s = Some protocol"
    "url_profile env u protocol = Inr (imported_profile r)"
    using assms(5) scheme by (auto elim: parse_url_profile_success)
  have "default_port protocol =
      (if s \<in> {''http'', ''https''} then 8080 else if s \<in> {''socks'', ''socks5''} then 1080 else 443)"
    using p(1) unfolding scheme_protocol_def default_port_def by (simp split: if_split_asm) auto
  then show ?thesis
    using url_profile_fields [OF p(2)] by (auto split: option.split)
qed

theorem imported_endpoint_witness: "profile_port (imported_profile sample_import) = 443"
  using imported_endpoint [OF sample_scheme _ _ sample_imports, of sample_url]
  by (simp add: sample_env_def sample_url_def)

text \<open>The decoding of credentials is lossy: \<open>percent_decode\<close> runs the text through the parser of
  form data and glues the first key to its value, so wherever that parser splits a password at
  an equals sign, as it does for form data, the sign is gone from the imported password.\<close>

theorem imported_password_loses_equals:
  assumes "url_profile env u protocol = Inr p" and "protocol \<in> {Trojan, Hysteria, Hysteria2, Tuic}"
    and "url_username u = k @ ''='' @ v" and "form_parse env (url_username u) = [(k, v)]"
  shows "auth_password (profile_auth p) = Some (k @ v) \<and> k @ v \<noteq> url_username u"
  using assms(2-4) url_profile_fields(4) [OF assms(1)]
  by (auto simp: url_auth_def Let_def percent_decode_def)

theorem imported_password_loses_equals_witness:
  "\<exists>p. url_profile sample_env sample_url Trojan = Inr p \<and> auth_password (profile_auth p) = Some ''ab''"
proof -
  have "case url_profile sample_env sample_url Trojan of Inl _ \<Rightarrow> False | Inr _ \<Rightarrow> True" by code_simp
  then obtain p where p: "url_profile sample_env sample_url Trojan = Inr p" by (auto split: sum.splits)
  have "url_username sample_url = ''a'' @ ''='' @ ''b''" by (simp add: sample_url_def)
  moreover have "form_parse sample_env (url_username sample_url) = [(''a'', ''b'')]"
    by (simp add: sample_env_def sample_url_def)
  ultimately show ?thesis
    using imported_password_loses_equals [OF p, of "''a''" "''b''"] p by auto
qed

text \<open>C33: The base64 of a link decodes whatever its dialect: if the decoder accepts the standard, padded
  form of some bytes, \<open>decode_base64\<close> accepts the unpadded form and the URL-safe alphabet, and
  returns the same bytes.\<close>

theorem decode_base64_dialects:
  assumes "base64_decode env (body @ pad) = Inr bytes"
    and "pad = replicate (length pad) (CHR ''='')" and "length pad < 4" and "length (body @ pad) mod 4 = 0"
    and "set body \<inter> {CHR ''-'', CHR ''_''} = {}"
    and "map base64_standard text = body"
  shows "decode_base64 env text = Inr bytes"
proof -
  have "base64_padded text = body @ pad"
  proof (cases "length body mod 4 = 0")
    case True
    then have "length pad mod 4 = 0" using assms(4) by (metis length_append mod_add_left_eq add_0)
    then have "pad = []" using assms(3) by simp
    with True show ?thesis by (simp add: base64_padded_def assms(6))
  next
    case False
    have "length pad = 4 - length body mod 4" using assms(3,4) False by (simp add: length_append) presburger
    with False assms(2) show ?thesis by (simp add: base64_padded_def assms(6) Let_def)
  qed
  with assms(1) show ?thesis by (simp add: decode_base64_def)
qed

theorem decode_base64_dialects_witness: "decode_base64 sample_env ''aGk'' = Inr [104, 105]"
  by (rule decode_base64_dialects [of _ "''aGk''" "''=''"])
    (simp_all add: sample_env_def base64_standard_def)

text \<open>The port of a VMess document: a text is parsed as an unsigned 16-bit number, a JSON number
  is cut to 16 bits instead of being refused, and 443 stands for everything else.\<close>

theorem vmess_port_wraps:
  "case json_index j ''port'' of
     JStr s \<Rightarrow> profile_port (vmess_profile env j) = unwrap_or (parse_u16 s) 443
   | JNum (PosInt n) \<Rightarrow> unat (profile_port (vmess_profile env j)) = unat n mod 65536
   | _ \<Rightarrow> profile_port (vmess_profile env j) = 443"
  by (simp add: vmess_profile_def Let_def vmess_port_def unsigned_ucast_eq take_bit_eq_mod
      split: json.split json_number.split)

end
