(* ===== verification/Sing_Engine.thy ===== *)
theory Sing_Engine
  imports Sing_Config
begin

text \<open>
  \<open>src/engine.rs\<close>: starting and stopping the core. The mutexes of \<open>SingBoxEngine\<close> are one
  record; what the processes, the file system, the native plugins and the clock answer during one
  call is an argument, a record of answers in the order the code asks. The effects a call leaves
  behind (processes spawned, given up and seen to end, runtimes started, stopped or merely dropped, tunnels) are
  a trace in the state. \<open>ProcessDropped\<close> is a kill request, by \<open>kill\<close> or by \<open>kill_on_drop\<close>;
  \<open>ProcessEnded\<close> is the end of the process, reported by \<open>kill\<close> (which waits) or by \<open>try_wait\<close>.

  On a desktop the child lock is held during the whole of \<open>start_desktop\<close> and \<open>stop_desktop\<close>,
  so one call is one step.
\<close>

named_theorems engine \<open>state changes of the engine\<close>

section \<open>State and effects\<close>

datatype engine_effect =
    ProcessSpawned nat
  | ProcessDropped nat
  | ProcessEnded nat
  | RuntimeStarted nat
  | RuntimeStopped nat
  | RuntimeDropped nat
  | TunnelStarted
  | TunnelStopped
  | PrivilegedStopped u32
  | ConfigWritten string
  | LogEmitted string
  | StatsEmitted traffic_stats

record engine =
  child :: "nat option"
  windows_job :: bool
  privileged_pid :: "u32 option"
  macos_system_connected :: bool
  olcrtc :: "nat option"
  mobile_connected :: bool
  stats_task :: bool
  effects :: "engine_effect list"

definition default_engine :: engine where
  "default_engine =
     \<lparr>child = None, windows_job = False, privileged_pid = None, macos_system_connected = False,
      olcrtc = None, mobile_connected = False, stats_task = False, effects = []\<rparr>"

type_synonym 'a engine_op = "engine \<Rightarrow> 'a vpn_result \<times> engine"

definition effect :: "engine_effect \<Rightarrow> engine \<Rightarrow> engine" where
  "effect x e = e\<lparr>effects := effects e @ [x]\<rparr>"

definition log_line :: "string \<Rightarrow> engine \<Rightarrow> engine" where
  "log_line m = effect (LogEmitted m)"

text \<open>The \<open>?\<close> operator on a call that also changes the state.\<close>

definition run_then :: "'a engine_op \<Rightarrow> ('a \<Rightarrow> 'b engine_op) \<Rightarrow> 'b engine_op" where
  "run_then m f = (\<lambda>e. case m e of (Inl err, e') \<Rightarrow> (Inl err, e') | (Inr x, e') \<Rightarrow> f x e')"

definition answer :: "'a vpn_result \<Rightarrow> 'a engine_op" where
  "answer r = (\<lambda>e. (r, e))"

definition perform :: "(engine \<Rightarrow> engine) \<Rightarrow> unit engine_op" where
  "perform f = (\<lambda>e. (Inr (), f e))"

text \<open>An \<open>OlcRtcRuntime\<close> that is stopped, or that only goes out of scope.\<close>

definition stop_runtime :: "nat option \<Rightarrow> engine \<Rightarrow> engine" where
  "stop_runtime rt e = (case rt of None \<Rightarrow> e | Some r \<Rightarrow> effect (RuntimeStopped r) e)"

definition drop_runtime :: "nat option \<Rightarrow> engine \<Rightarrow> engine" where
  "drop_runtime rt e = (case rt of None \<Rightarrow> e | Some r \<Rightarrow> effect (RuntimeDropped r) e)"

text \<open>A child that goes out of scope is sent a kill (\<open>kill_on_drop\<close>), but nobody waits for its end.\<close>

definition drop_child :: "nat \<Rightarrow> engine \<Rightarrow> engine" where
  "drop_child c = effect (ProcessDropped c)"

text \<open>A child that was given up and whose end the code has seen.\<close>

definition reap_child :: "nat \<Rightarrow> engine \<Rightarrow> engine" where
  "reap_child c e = effect (ProcessEnded c) (drop_child c e)"

definition start_stats_polling :: "engine \<Rightarrow> engine" where
  "start_stats_polling e = e\<lparr>stats_task := True\<rparr>"

definition stop_stats_polling :: "engine \<Rightarrow> engine" where
  "stop_stats_polling e = e\<lparr>stats_task := False\<rparr>"

section \<open>Waiting\<close>

type_synonym path = string

text \<open>\<open>try_wait\<close>: an error, or the exit status of a process that has ended.\<close>

type_synonym try_wait = "string + string option"

record probe =
  probe_exit :: try_wait
  probe_proxy_port :: bool
  probe_clash_port :: bool
  probe_exit_again :: try_wait

definition inspect :: "try_wait \<Rightarrow> string option vpn_result" where
  "inspect r = map_err (\<lambda>e. Engine (''failed to inspect sing-box process: '' @ e)) r"

text \<open>
  The loop of \<open>wait_for_desktop_readiness\<close> over its remaining rounds: \<open>Inr (Some status)\<close> when
  the process has ended, \<open>Inr None\<close> when it is up.
\<close>

fun readiness_rounds :: "(nat \<Rightarrow> probe) \<Rightarrow> try_wait \<Rightarrow> nat list \<Rightarrow> string option vpn_result" where
  "readiness_rounds probes last_exit [] =
     and_then (inspect last_exit) (\<lambda>exited.
       case exited of
         Some status \<Rightarrow> Inr (Some status)
       | None \<Rightarrow> Inl (Engine ''sing-box did not open local proxy ports during startup''))"
| "readiness_rounds probes last_exit (i # rounds) =
     and_then (inspect (probe_exit (probes i))) (\<lambda>exited.
       case exited of
         Some status \<Rightarrow> Inr (Some status)
       | None \<Rightarrow>
           if probe_proxy_port (probes i) \<or> probe_clash_port (probes i)
           then inspect (probe_exit_again (probes i))
           else readiness_rounds probes last_exit rounds)"

definition wait_for_desktop_readiness ::
    "(nat \<Rightarrow> probe) \<Rightarrow> try_wait \<Rightarrow> string option vpn_result" where
  "wait_for_desktop_readiness probes last_exit = readiness_rounds probes last_exit [0..<20]"

text \<open>
  The polling loop of \<open>wait_for_mobile_system_tunnel\<close> and \<open>wait_for_macos_system_tunnel\<close>.
  \<open>elapsed i\<close> is the clock, in milliseconds, at the test before poll \<open>i\<close>. The loop is cut after
  \<open>fuel\<close> rounds; \<open>Inl\<close> is its end without a tunnel, with the last error seen.
\<close>

definition tunnel_timeout :: nat where
  "tunnel_timeout = 20000"

definition tunnel_rounds :: nat where
  "tunnel_rounds = 41"

fun poll_tunnel ::
    "nat \<Rightarrow> (nat \<Rightarrow> nat) \<Rightarrow> (nat \<Rightarrow> string + bool) \<Rightarrow> nat \<Rightarrow> string option \<Rightarrow> string option + unit" where
  "poll_tunnel 0 elapsed poll i last_error = Inl last_error"
| "poll_tunnel (Suc fuel) elapsed poll i last_error =
     (if elapsed i < tunnel_timeout
      then (case poll i of
              Inr True \<Rightarrow> Inr ()
            | Inr False \<Rightarrow> poll_tunnel fuel elapsed poll (Suc i) last_error
            | Inl err \<Rightarrow> poll_tunnel fuel elapsed poll (Suc i) (Some err))
      else Inl last_error)"

definition tunnel_message :: "string \<Rightarrow> string option \<Rightarrow> vpn_error" where
  "tunnel_message kind last_error =
     Platform (kind @ '' system VPN tunnel did not become connected within 20 seconds.'' @
       (case last_error of None \<Rightarrow> [] | Some err \<Rightarrow> '' Last status error: '' @ err))"

definition wait_for_macos_system_tunnel ::
    "(nat \<Rightarrow> nat) \<Rightarrow> (nat \<Rightarrow> string + bool) \<Rightarrow> unit vpn_result" where
  "wait_for_macos_system_tunnel elapsed poll =
     map_err (tunnel_message ''macOS'') (poll_tunnel tunnel_rounds elapsed poll 0 None)"

definition wait_for_mobile_system_tunnel ::
    "(nat \<Rightarrow> nat) \<Rightarrow> (nat \<Rightarrow> string + bool) \<Rightarrow> unit engine_op" where
  "wait_for_mobile_system_tunnel elapsed poll e =
     (case poll_tunnel tunnel_rounds elapsed poll 0 None of
        Inr _ \<Rightarrow> (Inr (), e)
      | Inl last_error \<Rightarrow>
          (Inl (tunnel_message ''mobile'' last_error),
           log_line ''native mobile VPN tunnel did not become connected within 20 seconds'' e))"

section \<open>Checking the configuration\<close>

datatype run_outcome = TimedOut | RunError string | Exited bool string string

definition check_config :: "path \<Rightarrow> run_outcome \<Rightarrow> unit vpn_result" where
  "check_config binary r =
     (case r of
        TimedOut \<Rightarrow> Inl (Engine ''sing-box config check timed out'')
      | RunError err \<Rightarrow>
          Inl (Engine (''failed to run sing-box config check at '' @ binary @ '': '' @ err))
      | Exited success out_text err_text \<Rightarrow>
          if success then Inr ()
          else Inl (Engine (''sing-box config check failed: '' @ trim out_text @ trim err_text)))"

text \<open>
  \<open>id -u\<close> and \<open>getcap\<close>: \<^const>\<open>None\<close> when the command cannot be run, else its output bytes.
\<close>

definition parse_u32 :: "string \<Rightarrow> u32 option" where
  "parse_u32 s = map_option of_nat (from_str_radix 10 32 s)"

definition ensure_linux_tun_permissions ::
    "target_os \<Rightarrow> byte list option \<Rightarrow> byte list option \<Rightarrow> path \<Rightarrow> unit vpn_result" where
  "ensure_linux_tun_permissions os id_output getcap_output binary =
     (if os \<noteq> Linux then Inr ()
      else if Option.bind (Option.bind id_output from_utf8) (\<lambda>s. parse_u32 (trim s)) = Some 0
      then Inr ()
      else if sublist ''cap_net_admin'' (unwrap_or (Option.bind getcap_output from_utf8) [])
      then Inr ()
      else Inl (Platform (''Linux TUN mode requires CAP_NET_ADMIN on sing-box. Run: sudo setcap cap_net_admin,cap_net_raw+ep '' @ binary)))"

section \<open>Starting on a desktop\<close>

record start_answers =
  ans_elevated :: bool
  ans_serialize :: "json \<Rightarrow> string + string"
  ans_write_config :: "string \<Rightarrow> path vpn_result"
  ans_resolve_core :: "path vpn_result"
  ans_id :: "byte list option"
  ans_getcap :: "byte list option"
  ans_check :: run_outcome
  ans_install_profile :: "unit vpn_result"
  ans_cleanup :: "unit vpn_result"
  ans_olcrtc_start :: "olc_rtc_config \<Rightarrow> nat vpn_result"
  ans_show_uuid :: "uuid \<Rightarrow> string"
  ans_start_profile :: "string \<Rightarrow> string option \<Rightarrow> unit vpn_result"
  ans_tunnel_clock :: "nat \<Rightarrow> nat"
  ans_tunnel_status :: "nat \<Rightarrow> string + bool"
  ans_resolve_core_again :: "path vpn_result"
  ans_spawn :: "string + nat"
  ans_windows_job :: "unit vpn_result"
  ans_probes :: "nat \<Rightarrow> probe"
  ans_last_exit :: try_wait

definition is_running :: "engine \<Rightarrow> bool" where
  "is_running e \<longleftrightarrow> child e \<noteq> None \<or> privileged_pid e \<noteq> None \<or> macos_system_connected e"

definition start_guard :: "target_os \<Rightarrow> unit engine_op" where
  "start_guard os e =
     (if child e \<noteq> None \<or>
         (os = MacOS \<and> (privileged_pid e \<noteq> None \<or> macos_system_connected e))
      then (Inl AlreadyRunning, e) else (Inr (), e))"

text \<open>
  Up to the written configuration: its warnings, text and path. The generator never panics, so
  \<^const>\<open>the\<close> is its result.
\<close>

definition prepare_config ::
    "target_os \<Rightarrow> connect_options \<Rightarrow> start_answers \<Rightarrow> (string list \<times> string \<times> path) engine_op" where
  "prepare_config os opts a =
     run_then (answer (check_platform_requirements os (ans_elevated a))) (\<lambda>warns.
     run_then (answer (the (generate_sing_box_config os opts))) (\<lambda>config.
     run_then (answer (map_err (\<lambda>e. Engine (''failed to serialize config: '' @ e))
                        (ans_serialize a config))) (\<lambda>config_text.
     run_then (answer (ans_write_config a config_text)) (\<lambda>config_path.
     run_then (perform (effect (ConfigWritten config_text))) (\<lambda>_.
       answer (Inr (warns, config_text, config_path)))))))"

definition check_installation :: "target_os \<Rightarrow> start_answers \<Rightarrow> unit engine_op" where
  "check_installation os a =
     (if os = MacOS then answer (ans_install_profile a)
      else
        run_then (answer (ans_resolve_core a)) (\<lambda>binary.
        run_then (answer (ensure_linux_tun_permissions os (ans_id a) (ans_getcap a) binary)) (\<lambda>_.
          answer (check_config binary (ans_check a)))))"

definition start_olcrtc :: "connect_options \<Rightarrow> start_answers \<Rightarrow> nat option engine_op" where
  "start_olcrtc opts a =
     (if profile_protocol (opt_profile opts) = OlcRtc
      then
        run_then (answer (and_then (from_profile (opt_profile opts)) (ans_olcrtc_start a))) (\<lambda>r.
        run_then (perform (log_line ''OLC RTC client connected to WB Stream'' \<circ>
                           effect (RuntimeStarted r))) (\<lambda>_.
          answer (Inr (Some r))))
      else answer (Inr None))"

text \<open>\<open>*self.olcrtc.lock().await = olcrtc_runtime\<close> drops the runtime that was there.\<close>

definition keep_runtime :: "nat option \<Rightarrow> engine \<Rightarrow> engine" where
  "keep_runtime rt e = (drop_runtime (olcrtc e) e)\<lparr>olcrtc := rt\<rparr>"

definition start_macos ::
    "connect_options \<Rightarrow> string \<Rightarrow> string list \<Rightarrow> nat option \<Rightarrow> start_answers \<Rightarrow> string list engine_op" where
  "start_macos opts config_text warns rt a e =
     (case ans_start_profile a config_text (Some (ans_show_uuid a (profile_id (opt_profile opts)))) of
        Inl err \<Rightarrow> (Inl err, stop_runtime rt e)
      | Inr _ \<Rightarrow>
          let e1 = effect TunnelStarted e in
          case wait_for_macos_system_tunnel (ans_tunnel_clock a) (ans_tunnel_status a) of
            Inl err \<Rightarrow> (Inl err, effect TunnelStopped (stop_runtime rt e1))
          | Inr _ \<Rightarrow>
              (Inr warns,
               log_line ''macOS system VPN tunnel start requested''
                 (start_stats_polling (keep_runtime rt (e1\<lparr>macos_system_connected := True\<rparr>)))))"

definition attach_windows_job :: "target_os \<Rightarrow> start_answers \<Rightarrow> engine \<Rightarrow> engine" where
  "attach_windows_job os a e =
     (if os \<noteq> Windows then e
      else
        case ans_windows_job a of
          Inr _ \<Rightarrow> log_line ''sing-box attached to Windows job object'' (e\<lparr>windows_job := True\<rparr>)
        | Inl err \<Rightarrow>
            log_line (''failed to attach sing-box to Windows job object: '' @ error_display err) e)"

text \<open>
  From the spawn on, outside macOS. An error of the readiness check leaves the function through
  \<open>?\<close>: the child and the runtime only go out of scope.
\<close>

definition start_core ::
    "target_os \<Rightarrow> string list \<Rightarrow> path \<Rightarrow> nat option \<Rightarrow> start_answers \<Rightarrow> string list engine_op" where
  "start_core os warns config_path rt a e =
     (case ans_resolve_core_again a of
        Inl err \<Rightarrow> (Inl err, drop_runtime rt e)
      | Inr binary \<Rightarrow>
          case ans_spawn a of
            Inl err \<Rightarrow>
              (Inl (Engine (''failed to start bundled sing-box core at '' @ binary @ '': '' @ err)),
               stop_runtime rt e)
          | Inr c \<Rightarrow>
              let e1 = attach_windows_job os a (effect (ProcessSpawned c) e) in
              case wait_for_desktop_readiness (ans_probes a) (ans_last_exit a) of
                Inl err \<Rightarrow> (Inl err, drop_runtime rt (drop_child c e1))
              | Inr (Some status) \<Rightarrow>
                  (Inl (Engine (''sing-box exited during startup with status '' @ status @
                                ''. Check vpn logs for details.'')),
                   reap_child c ((stop_runtime rt e1)\<lparr>windows_job := False\<rparr>))
              | Inr None \<Rightarrow>
                  (Inr warns,
                   log_line (''sing-box started with config '' @ config_path)
                     (start_stats_polling (keep_runtime rt (e1\<lparr>child := Some c\<rparr>)))))"

definition start_desktop ::
    "target_os \<Rightarrow> connect_options \<Rightarrow> start_answers \<Rightarrow> string list engine_op" where
  "start_desktop os opts a =
     run_then (start_guard os) (\<lambda>_.
     run_then (prepare_config os opts a) (\<lambda>(warns, config_text, config_path).
     run_then (check_installation os a) (\<lambda>_.
     run_then (answer (ans_cleanup a)) (\<lambda>_.
     run_then (start_olcrtc opts a) (\<lambda>rt.
       if os = MacOS then start_macos opts config_text warns rt a
       else start_core os warns config_path rt a)))))"

section \<open>Stopping on a desktop\<close>

datatype kill_outcome = KillTimedOut | KillFailed string | KillDone

record stop_answers =
  ans_config_path :: "path vpn_result"
  ans_stop_cleanup :: "unit vpn_result"
  ans_kill :: kill_outcome
  ans_stop_profile :: "unit vpn_result"
  ans_stop_privileged :: "unit vpn_result"

definition take_runtime :: "engine \<Rightarrow> engine" where
  "take_runtime e = stop_runtime (olcrtc e) (e\<lparr>olcrtc := None\<rparr>)"

text \<open>\<open>cleanup_desktop_artifacts(&runtime_config_path(app)?).await?\<close>.\<close>

definition cleanup_after :: "stop_answers \<Rightarrow> unit vpn_result" where
  "cleanup_after a = and_then (ans_config_path a) (\<lambda>_. ans_stop_cleanup a)"

definition stop_macos_tunnel :: "stop_answers \<Rightarrow> unit engine_op" where
  "stop_macos_tunnel a e =
     (let e1 = take_runtime e in
      case ans_stop_profile a of
        Inl err \<Rightarrow> (Inl err, e1)
      | Inr _ \<Rightarrow>
          let e2 = (effect TunnelStopped e1)\<lparr>macos_system_connected := False\<rparr> in
          case cleanup_after a of
            Inl err \<Rightarrow> (Inl err, e2)
          | Inr _ \<Rightarrow> (Inr (), log_line ''macOS system VPN tunnel stop requested'' e2))"

definition stop_macos_privileged :: "u32 \<Rightarrow> stop_answers \<Rightarrow> unit engine_op" where
  "stop_macos_privileged pid a e =
     (let e1 = take_runtime (e\<lparr>privileged_pid := None\<rparr>) in
      case and_then (ans_config_path a) (\<lambda>_. ans_stop_privileged a) of
        Inl err \<Rightarrow> (Inl err, e1)
      | Inr _ \<Rightarrow>
          (Inr (), log_line ''sing-box administrator process stopped''
                     (effect (PrivilegedStopped pid) e1)))"

definition stop_core :: "stop_answers \<Rightarrow> unit engine_op" where
  "stop_core a e =
     (case child e of
        None \<Rightarrow>
          let e1 = e\<lparr>windows_job := False\<rparr> in
          (and_then (cleanup_after a) (\<lambda>_. Inl NotRunning), e1)
      | Some c \<Rightarrow>
          let e1 = e\<lparr>child := None\<rparr> in
          case ans_kill a of
            KillTimedOut \<Rightarrow> (Inl (Engine ''timed out while stopping sing-box''), drop_child c e1)
          | KillFailed err \<Rightarrow>
              let e2 = (take_runtime (drop_child c e1))\<lparr>windows_job := False\<rparr> in
              (and_then (ans_config_path a)
                 (\<lambda>_. Inl (Engine (''failed to stop sing-box: '' @ err))), e2)
          | KillDone \<Rightarrow>
              let e2 = (take_runtime (reap_child c e1))\<lparr>windows_job := False\<rparr> in
              case cleanup_after a of
                Inl err \<Rightarrow> (Inl err, e2)
              | Inr _ \<Rightarrow> (Inr (), log_line ''sing-box process stopped'' e2))"

definition stop_desktop :: "target_os \<Rightarrow> stop_answers \<Rightarrow> unit engine_op" where
  "stop_desktop os a e =
     (let e1 = stop_stats_polling e in
      if os = MacOS \<and> macos_system_connected e1 then stop_macos_tunnel a e1
      else
        case (if os = MacOS then privileged_pid e1 else None) of
          Some pid \<Rightarrow> stop_macos_privileged pid a e1
        | None \<Rightarrow> stop_core a e1)"

section \<open>Mobile\<close>

record native_status =
  established :: bool
  ns_last_error :: "string option"
  ns_active_profile_id :: "string option"
  ns_uploaded_bytes :: "u64 option"
  ns_downloaded_bytes :: "u64 option"

text \<open>\<open>mob_plugin\<close> tells whether the native plugin is registered.\<close>

record mobile_answers =
  mob_plugin :: bool
  mob_serialize :: "json \<Rightarrow> string + string"
  mob_start :: "string + bool"
  mob_clock :: "nat \<Rightarrow> nat"
  mob_status :: "nat \<Rightarrow> string + native_status"
  mob_stop :: "string + bool"

definition no_plugin :: vpn_error where
  "no_plugin = Platform ''native VPN plugin is not registered for this mobile platform''"

definition start_mobile ::
    "target_os \<Rightarrow> connect_options \<Rightarrow> mobile_answers \<Rightarrow> string list engine_op" where
  "start_mobile os opts a e =
     (if profile_protocol (opt_profile opts) = OlcRtc
      then (Inl (Unsupported ''OLC RTC mobile support needs a native/Rust WebRTC adapter; Windows desktop is implemented first''), e)
      else if mobile_connected e then (Inl AlreadyRunning, e)
      else
        run_then (answer (check_platform_requirements os False)) (\<lambda>warns.
        run_then (answer (the (generate_sing_box_config os opts))) (\<lambda>config.
        run_then (answer (map_err (\<lambda>x. Engine (''failed to serialize config: '' @ x))
                           (mob_serialize a config))) (\<lambda>_.
        run_then (answer (if mob_plugin a then Inr () else Inl no_plugin)) (\<lambda>_.
        run_then (answer (map_err (\<lambda>x. Platform (''native VPN start failed: '' @ x))
                           (mob_start a))) (\<lambda>_.
        run_then (perform (effect TunnelStarted)) (\<lambda>_.
        run_then (wait_for_mobile_system_tunnel (mob_clock a)
                    (\<lambda>i. map_sum (\<lambda>x. x) established (mob_status a i))) (\<lambda>_.
        run_then (perform (\<lambda>e. log_line ''native mobile VPN tunnel connected''
                              (e\<lparr>mobile_connected := True\<rparr>))) (\<lambda>_.
          answer (Inr warns))))))))) e)"

definition stop_mobile :: "mobile_answers \<Rightarrow> unit engine_op" where
  "stop_mobile a e =
     (if \<not> mobile_connected e then (Inl NotRunning, e)
      else if \<not> mob_plugin a then (Inl no_plugin, e)
      else
        case mob_stop a of
          Inl x \<Rightarrow> (Inl (Platform (''native VPN stop failed: '' @ x)), e)
        | Inr _ \<Rightarrow>
            (Inr (),
             log_line ''native mobile VPN stop requested''
               ((effect TunnelStopped e)\<lparr>mobile_connected := False\<rparr>)))"

text \<open>The three attempts of \<open>get_mobile_status\<close>; the result is the first answer, or the last error.\<close>

fun first_status ::
    "(nat \<Rightarrow> string + native_status) \<Rightarrow> nat list \<Rightarrow> string \<Rightarrow> string + native_status" where
  "first_status status [] last_error = Inl last_error"
| "first_status status (i # rounds) last_error =
     (case status i of
        Inr s \<Rightarrow> Inr s
      | Inl x \<Rightarrow> first_status status rounds x)"

definition emit_traffic :: "native_status \<Rightarrow> engine \<Rightarrow> engine" where
  "emit_traffic s e =
     (case (ns_uploaded_bytes s, ns_downloaded_bytes s) of
        (Some up, Some down) \<Rightarrow>
          effect (StatsEmitted \<lparr>uploaded_bytes = up, downloaded_bytes = down\<rparr>) e
      | _ \<Rightarrow> e)"

definition get_mobile_status :: "mobile_answers \<Rightarrow> (bool \<times> string option) engine_op" where
  "get_mobile_status a e =
     (if \<not> mob_plugin a then (Inr (False, None), e)
      else
        case first_status (mob_status a) [0..<3] [] of
          Inl x \<Rightarrow>
            (Inl (Platform (''failed to query native VPN status after retries: '' @ x)), e)
        | Inr s \<Rightarrow>
            (Inr (established s, ns_active_profile_id s),
             if established s then emit_traffic s (e\<lparr>mobile_connected := True\<rparr>)
             else e\<lparr>mobile_connected := False\<rparr>))"

section \<open>Locating the core\<close>

text \<open>
  A path by its components; \<open>fs\<close> is what the process environment and the file system answer, with
  \<open>exists\<close> applied to a candidate. A resource path is the base directory joined with the name.
\<close>

type_synonym components = "string list"

record core_lookup =
  look_env :: "components option"
  look_resource_dir :: "components option"
  look_current_exe :: "components option"
  look_current_dir :: "components option"
  look_exists :: "components \<Rightarrow> bool"

definition path_parent :: "components \<Rightarrow> components option" where
  "path_parent p = (if p = [] then None else Some (butlast p))"

text \<open>\<open>ancestors()\<close>: the path itself, then its parents.\<close>

definition path_ancestors :: "components \<Rightarrow> components list" where
  "path_ancestors p = map (\<lambda>n. take n p) (rev [0..<Suc (length p)])"

definition platform_development_core_candidate ::
    "target_os \<Rightarrow> core_lookup \<Rightarrow> string \<Rightarrow> components option" where
  "platform_development_core_candidate os l core_name =
     (if os = Linux then map_option (\<lambda>d. d @ [''binaries'', ''linux'', core_name]) (look_current_dir l)
      else None)"

definition ancestor_resource_candidates :: "components \<Rightarrow> string \<Rightarrow> components option list" where
  "ancestor_resource_candidates start core_name =
     map (\<lambda>d. Some (d @ [''resources'', core_name])) (take 8 (path_ancestors start))"

definition core_candidates :: "target_os \<Rightarrow> core_lookup \<Rightarrow> components option list" where
  "core_candidates os l =
     (let core_name = default_core_name os;
          resource = (\<lambda>sub. map_option (\<lambda>d. d @ sub @ [core_name]) (look_resource_dir l));
          exe_dir = Option.bind (look_current_exe l) path_parent
      in [look_env l, platform_development_core_candidate os l core_name,
          resource [], resource [''resources''], resource [''_up_'', ''resources''],
          map_option (\<lambda>d. d @ [''resources'', core_name]) exe_dir,
          map_option (\<lambda>d. d @ [''_up_'', ''resources'', core_name]) exe_dir,
          map_option (\<lambda>d. d @ [''resources'', core_name]) (look_current_dir l),
          Some [core_name]] @
         (case look_current_dir l of None \<Rightarrow> []
          | Some d \<Rightarrow> ancestor_resource_candidates d core_name) @
         (case look_current_exe l of None \<Rightarrow> []
          | Some x \<Rightarrow> ancestor_resource_candidates x core_name))"

definition resolve_core_binary :: "target_os \<Rightarrow> core_lookup \<Rightarrow> components vpn_result" where
  "resolve_core_binary os l =
     ok_or (find (look_exists l) (List.map_filter (\<lambda>c. c) (core_candidates os l)))
       (Engine (''sing-box core not found. Put '' @ default_core_name os @
                '' in KOSTRA-VPN/resources or add it to the app resources.''))"

section \<open>Quoting for the macOS scripts\<close>

text \<open>\<open>str::replace\<close> of one character.\<close>

definition replace_char :: "char \<Rightarrow> string \<Rightarrow> string \<Rightarrow> string" where
  "replace_char c by s = concat (map (\<lambda>x. if x = c then by else [x]) s)"

definition single_quote :: char where
  "single_quote = CHR 0x27"

definition double_quote :: char where
  "double_quote = CHR 0x22"

definition backslash :: char where
  "backslash = CHR 0x5C"

definition shell_quote :: "string \<Rightarrow> string" where
  "shell_quote s =
     single_quote # replace_char single_quote [single_quote, backslash, single_quote, single_quote] s
       @ [single_quote]"

definition applescript_string :: "string \<Rightarrow> string" where
  "applescript_string s =
     double_quote #
       replace_char double_quote [backslash, double_quote] (replace_char backslash [backslash, backslash] s)
       @ [double_quote]"

definition stop_script :: "u32 option \<Rightarrow> string \<Rightarrow> string" where
  "stop_script pid config_path =
     join ''; ''
       ((case pid of None \<Rightarrow> [] | Some p \<Rightarrow> [''kill '' @ show_nat (unat p)]) @
        [''pkill -f '' @ shell_quote (''sing-box.*'' @ config_path),
         ''lsof -tiTCP:2080 -sTCP:LISTEN -a -c sing-box | xargs kill'']) @
     '' 2>/dev/null || true''"

definition admin_script :: "string \<Rightarrow> string" where
  "admin_script shell_script =
     ''do shell script '' @ applescript_string shell_script @ '' with administrator privileges''"

end
