(* ===== verification/Engine_Props.thy ===== *)
theory Engine_Props
  imports Sing_Engine Sing_Config_Props "HOL-Library.Multiset"
begin

text \<open>
  What the engine guarantees: no process is ever lost, where a local SOCKS5 runtime is, the exact
  meaning of the readiness check, the bound of the tunnel wait, the choice of the core binary, and
  that quoting makes every path one word of a script.
\<close>

section \<open>Rules for sequences of calls\<close>

lemma run_then_answer [simp, engine]:
  "run_then (answer (Inl x)) f e = (Inl x, e)"
  "run_then (answer (Inr y)) f e = f y e"
  "run_then (perform g) f' e = f' () (g e)"
  by (simp_all add: run_then_def answer_def perform_def)

lemma run_then_cases [engine]:
  assumes "run_then m f e = (r, e')"
  obtains (error) x where "m e = (Inl x, e')" "r = Inl x"
  | (next_call) y e1 where "m e = (Inr y, e1)" "f y e1 = (r, e')"
  using assms by (auto simp: run_then_def split: prod.splits sum.splits)

lemma effect_fields [simp, engine]:
  "child (effect x e) = child e" "olcrtc (effect x e) = olcrtc e"
  "windows_job (effect x e) = windows_job e" "privileged_pid (effect x e) = privileged_pid e"
  "macos_system_connected (effect x e) = macos_system_connected e"
  "mobile_connected (effect x e) = mobile_connected e" "stats_task (effect x e) = stats_task e"
  "effects (effect x e) = effects e @ [x]"
  by (simp_all add: effect_def)

lemma log_line_fields [simp, engine]:
  "child (log_line x e) = child e" "olcrtc (log_line x e) = olcrtc e"
  "windows_job (log_line x e) = windows_job e" "privileged_pid (log_line x e) = privileged_pid e"
  "macos_system_connected (log_line x e) = macos_system_connected e"
  "mobile_connected (log_line x e) = mobile_connected e" "stats_task (log_line x e) = stats_task e"
  "effects (log_line x e) = effects e @ [LogEmitted x]"
  by (simp_all add: log_line_def)

section \<open>Accounting for processes and runtimes\<close>

definition spawned :: "engine_effect list \<Rightarrow> nat multiset" where
  "spawned es = mset (List.map_filter (\<lambda>x. case x of ProcessSpawned c \<Rightarrow> Some c | _ \<Rightarrow> None) es)"

text \<open>The processes that were sent a kill, and those whose end was seen.\<close>

definition kill_requested :: "engine_effect list \<Rightarrow> nat multiset" where
  "kill_requested es = mset (List.map_filter (\<lambda>x. case x of ProcessDropped c \<Rightarrow> Some c | _ \<Rightarrow> None) es)"

definition ended :: "engine_effect list \<Rightarrow> nat multiset" where
  "ended es = mset (List.map_filter (\<lambda>x. case x of ProcessEnded c \<Rightarrow> Some c | _ \<Rightarrow> None) es)"

definition runtimes_started :: "engine_effect list \<Rightarrow> nat multiset" where
  "runtimes_started es = mset (List.map_filter (\<lambda>x. case x of RuntimeStarted r \<Rightarrow> Some r | _ \<Rightarrow> None) es)"

definition runtimes_stopped :: "engine_effect list \<Rightarrow> nat multiset" where
  "runtimes_stopped es = mset (List.map_filter (\<lambda>x. case x of RuntimeStopped r \<Rightarrow> Some r | _ \<Rightarrow> None) es)"

definition runtimes_leaked :: "engine_effect list \<Rightarrow> nat multiset" where
  "runtimes_leaked es = mset (List.map_filter (\<lambda>x. case x of RuntimeDropped r \<Rightarrow> Some r | _ \<Rightarrow> None) es)"

definition held :: "nat option \<Rightarrow> nat multiset" where
  "held v = (case v of None \<Rightarrow> {#} | Some x \<Rightarrow> {#x#})"

lemma held_simps [simp]: "held None = {#}" "held (Some x) = {#x#}"
  by (simp_all add: held_def)

lemmas account_defs = spawned_def kill_requested_def ended_def runtimes_started_def runtimes_stopped_def runtimes_leaked_def

text \<open>The books of a state, given a process and a runtime that only local variables hold.\<close>

definition balanced :: "nat option \<Rightarrow> nat option \<Rightarrow> engine \<Rightarrow> bool" where
  "balanced p rt e \<longleftrightarrow>
     spawned (effects e) = kill_requested (effects e) + held (child e) + held p \<and>
     ended (effects e) \<subseteq># kill_requested (effects e) \<and>
     runtimes_started (effects e) =
       runtimes_stopped (effects e) + runtimes_leaked (effects e) + held (olcrtc e) + held rt"

lemma account_append [simp]:
  "spawned (xs @ ys) = spawned xs + spawned ys" 
  "kill_requested (xs @ ys) = kill_requested xs + kill_requested ys" "ended (xs @ ys) = ended xs + ended ys"
  "runtimes_started (xs @ ys) = runtimes_started xs + runtimes_started ys"
  "runtimes_stopped (xs @ ys) = runtimes_stopped xs + runtimes_stopped ys"
  "runtimes_leaked (xs @ ys) = runtimes_leaked xs + runtimes_leaked ys"
  by (simp_all add: account_defs List.map_filter_def)

lemma account_Nil [simp]:
  "spawned [] = {#}" "kill_requested [] = {#}" "ended [] = {#}" "runtimes_started [] = {#}" "runtimes_stopped [] = {#}"
  "runtimes_leaked [] = {#}"
  by (simp_all add: account_defs List.map_filter_def)

lemma account_Cons [simp]:
  "spawned (x # xs) = (case x of ProcessSpawned c \<Rightarrow> {#c#} | _ \<Rightarrow> {#}) + spawned xs"
  "kill_requested (x # xs) = (case x of ProcessDropped c \<Rightarrow> {#c#} | _ \<Rightarrow> {#}) + kill_requested xs"
  "ended (x # xs) = (case x of ProcessEnded c \<Rightarrow> {#c#} | _ \<Rightarrow> {#}) + ended xs"
  "runtimes_started (x # xs) = (case x of RuntimeStarted c \<Rightarrow> {#c#} | _ \<Rightarrow> {#}) + runtimes_started xs"
  "runtimes_stopped (x # xs) = (case x of RuntimeStopped c \<Rightarrow> {#c#} | _ \<Rightarrow> {#}) + runtimes_stopped xs"
  "runtimes_leaked (x # xs) = (case x of RuntimeDropped c \<Rightarrow> {#c#} | _ \<Rightarrow> {#}) + runtimes_leaked xs"
  by (cases x; simp add: account_defs List.map_filter_def)+

lemma balanced_runtime [simp]:
  "balanced p None (stop_runtime rt e) \<longleftrightarrow> balanced p rt e"
  "balanced p None (drop_runtime rt e) \<longleftrightarrow> balanced p rt e"
  by (cases rt; simp add: balanced_def stop_runtime_def drop_runtime_def ac_simps)+

lemma runtime_fields [simp, engine]:
  "child (stop_runtime rt e) = child e" "child (drop_runtime rt e) = child e"
  "olcrtc (stop_runtime rt e) = olcrtc e" "olcrtc (drop_runtime rt e) = olcrtc e"
  "macos_system_connected (stop_runtime rt e) = macos_system_connected e"
  "macos_system_connected (drop_runtime rt e) = macos_system_connected e"
  "privileged_pid (stop_runtime rt e) = privileged_pid e"
  "privileged_pid (drop_runtime rt e) = privileged_pid e"
  "stats_task (stop_runtime rt e) = stats_task e" "stats_task (drop_runtime rt e) = stats_task e"
  "windows_job (stop_runtime rt e) = windows_job e" "windows_job (drop_runtime rt e) = windows_job e"
  "mobile_connected (stop_runtime rt e) = mobile_connected e"
  "mobile_connected (drop_runtime rt e) = mobile_connected e"
  by (cases rt; simp add: stop_runtime_def drop_runtime_def)+

lemma balanced_flags [simp]:
  "balanced p rt (e\<lparr>windows_job := b\<rparr>) = balanced p rt e"
  "balanced p rt (e\<lparr>macos_system_connected := b\<rparr>) = balanced p rt e"
  "balanced p rt (e\<lparr>mobile_connected := b\<rparr>) = balanced p rt e"
  "balanced p rt (e\<lparr>privileged_pid := x\<rparr>) = balanced p rt e"
  "balanced p rt (start_stats_polling e) = balanced p rt e"
  "balanced p rt (stop_stats_polling e) = balanced p rt e"
  "balanced p rt (log_line m e) = balanced p rt e"
  "balanced p rt (effect TunnelStarted e) = balanced p rt e"
  "balanced p rt (effect TunnelStopped e) = balanced p rt e"
  "balanced p rt (effect (ConfigWritten m) e) = balanced p rt e"
  "balanced p rt (effect (PrivilegedStopped pid) e) = balanced p rt e"
  "balanced p rt (effect (StatsEmitted s) e) = balanced p rt e"
  by (simp_all add: balanced_def start_stats_polling_def stop_stats_polling_def log_line_def)

lemma balanced_keep [simp]: "balanced p None (keep_runtime rt e) \<longleftrightarrow> balanced p rt e"
  by (cases "olcrtc e"; simp add: balanced_def keep_runtime_def drop_runtime_def ac_simps)

lemma balanced_take [simp]: "balanced p None (take_runtime e) \<longleftrightarrow> balanced p None e"
  by (cases "olcrtc e"; simp add: balanced_def take_runtime_def stop_runtime_def ac_simps)

lemma balanced_moves [simp]:
  "balanced p (Some h) (effect (RuntimeStarted h) e) \<longleftrightarrow> balanced p None e"
  "balanced (Some c) rt (effect (ProcessSpawned c) e) \<longleftrightarrow> balanced None rt e"
  "balanced None rt (reap_child c e) \<longleftrightarrow> balanced (Some c) rt e"
  "balanced (Some c) rt e \<Longrightarrow> balanced None rt (drop_child c e)"
  "child e = None \<Longrightarrow> balanced None rt (e\<lparr>child := Some c\<rparr>) \<longleftrightarrow> balanced (Some c) rt e"
  "child e = Some c \<Longrightarrow> balanced (Some c) rt (e\<lparr>child := None\<rparr>) \<longleftrightarrow> balanced None rt e"
  by (auto simp: balanced_def drop_child_def reap_child_def ac_simps subseteq_mset_def le_SucI)

section \<open>The stages of a start\<close>

lemma run_then_answer_eq [engine]:
  "run_then (answer x) f e = (case x of Inl err \<Rightarrow> (Inl err, e) | Inr y \<Rightarrow> f y e)"
  by (cases x) simp_all

lemma prepare_config_cases:
  assumes "prepare_config os opts a e = (r, e')"
  obtains (error) x where "r = Inl x" "e' = e"
  | (written) ws cfg path where "r = Inr (ws, cfg, path)" "e' = effect (ConfigWritten cfg) e"
      "valid (validate (opt_profile opts))"
proof (cases "\<exists>config. the (generate_sing_box_config os opts) = Inr config")
  case False
  then obtain x where "the (generate_sing_box_config os opts) = Inl x"
    by (cases "the (generate_sing_box_config os opts)") auto
  with assms error show ?thesis
    unfolding prepare_config_def run_then_answer_eq
    by (auto split: sum.splits)
next
  case True
  then obtain config where config: "the (generate_sing_box_config os opts) = Inr config" ..
  then have "generate_sing_box_config os opts = Some (Inr config)"
    using generate_not_None [of os opts] by auto
  then have v: "valid (validate (opt_profile opts))" using generate_success_iff by blast
  show ?thesis
    using assms error written v
    unfolding prepare_config_def run_then_answer_eq config
    by (auto simp: answer_def map_err_def split: sum.splits)
qed

lemma check_installation_state [engine]: "snd (check_installation os a e) = e"
  unfolding check_installation_def run_then_answer_eq by (simp add: answer_def split: sum.splits)

lemma start_guard_cases [engine]:
  "start_guard os e = (r, e') \<Longrightarrow>
     e' = e \<and> (r = Inl AlreadyRunning \<or> r = Inr () \<and> child e = None \<and>
       (os = MacOS \<longrightarrow> privileged_pid e = None \<and> \<not> macos_system_connected e))"
  by (auto simp: start_guard_def split: if_splits)

lemma start_olcrtc_cases:
  assumes "start_olcrtc opts a e = (r, e')"
  obtains (error) x where "r = Inl x" "e' = e"
  | (none) "r = Inr None" "e' = e" "profile_protocol (opt_profile opts) \<noteq> OlcRtc"
  | (runtime) h where "r = Inr (Some h)"
      "e' = log_line ''OLC RTC client connected to WB Stream'' (effect (RuntimeStarted h) e)"
      "profile_protocol (opt_profile opts) = OlcRtc"
  using assms unfolding start_olcrtc_def run_then_answer_eq
  by (auto simp: answer_def perform_def run_then_def split: if_splits sum.splits)

text \<open>A start is refused, fails after the configuration was written, or gets to its last stage.\<close>

lemma start_desktop_cases:
  assumes "start_desktop os opts a e = (r, e')"
  obtains (refused) x where "r = Inl x" "e' = e"
  | (failed) x cfg where "r = Inl x" "e' = effect (ConfigWritten cfg) e" "\<not> is_running e \<or> os \<noteq> MacOS"
  | (launched) ws cfg path rt e1 where "child e = None" "e1 = effect (ConfigWritten cfg) e \<or>
        (\<exists>h. rt = Some h \<and> e1 = log_line ''OLC RTC client connected to WB Stream''
                 (effect (RuntimeStarted h) (effect (ConfigWritten cfg) e)))"
      "rt = None \<longrightarrow> e1 = effect (ConfigWritten cfg) e"
      "rt = None \<or> e1 \<noteq> effect (ConfigWritten cfg) e"
      "os = MacOS \<longrightarrow> privileged_pid e = None \<and> \<not> macos_system_connected e"
      "(if os = MacOS then start_macos opts cfg ws rt a e1 else start_core os ws path rt a e1) = (r, e')"
proof -
  from assms show ?thesis
    unfolding start_desktop_def
  proof (cases rule: run_then_cases)
    case (error x)
    then show ?thesis using refused start_guard_cases by blast
  next
    case (next_call y e1)
    then have g: "e1 = e" "child e = None"
      "os = MacOS \<longrightarrow> privileged_pid e = None \<and> \<not> macos_system_connected e"
      using start_guard_cases by blast+
    from next_call(2) show ?thesis
    proof (cases rule: run_then_cases)
      case (error x)
      then show ?thesis using refused g(1) by (auto elim: prepare_config_cases)
    next
      case prep: (next_call z e2)
      then obtain ws cfg path where z: "z = (ws, cfg, path)" and e2: "e2 = effect (ConfigWritten cfg) e"
        using g(1) by (auto elim: prepare_config_cases)
      have bad: "\<not> is_running e \<or> os \<noteq> MacOS" using g(2,3) by (auto simp: is_running_def)
      from prep(2) show ?thesis
        unfolding z prod.case
      proof (cases rule: run_then_cases)
        case (error x)
        then show ?thesis using failed e2 bad check_installation_state by (metis snd_conv)
      next
        case inst: (next_call u e3)
        then have e3: "e3 = e2" using check_installation_state by (metis snd_conv)
        show ?thesis
        proof (cases "ans_cleanup a")
          case (Inl x)
          then show ?thesis using inst(2) e3 e2 failed bad by (auto simp: run_then_answer_eq)
        next
          case (Inr u)
          with inst(2) e3 have last: "run_then (start_olcrtc opts a) (\<lambda>rt.
              if os = MacOS then start_macos opts cfg ws rt a else start_core os ws path rt a) e2 = (r, e')"
            by (simp add: run_then_answer_eq)
          then show ?thesis
          proof (cases rule: run_then_cases)
            case (error x)
            then show ?thesis using failed e2 bad by (auto elim: start_olcrtc_cases)
          next
            case fin: (next_call rt e4)
            have run: "(if os = MacOS then start_macos opts cfg ws rt a e4 else start_core os ws path rt a e4) = (r, e')"
              using fin(2) by (simp split: if_splits)
            from fin(1) show ?thesis
            proof (cases rule: start_olcrtc_cases)
              case none
              then show ?thesis using launched [OF g(2) _ _ _ g(3) run] e2 by simp
            next
              case (runtime h)
              have "e4 \<noteq> e2" using runtime(2) by (auto simp: log_line_def effect_def dest: arg_cong [of _ _ effects])
              then show ?thesis using launched [OF g(2) _ _ _ g(3) run] runtime e2 by simp
            qed simp_all
          qed
        qed
      qed
    qed
  qed
qed

section \<open>Every call keeps the books\<close>

lemma attach_windows_job_fields [simp, engine]:
  "child (attach_windows_job os a e) = child e" "olcrtc (attach_windows_job os a e) = olcrtc e"
  "macos_system_connected (attach_windows_job os a e) = macos_system_connected e"
  "privileged_pid (attach_windows_job os a e) = privileged_pid e"
  "stats_task (attach_windows_job os a e) = stats_task e"
  "mobile_connected (attach_windows_job os a e) = mobile_connected e"
  "balanced p rt (attach_windows_job os a e) = balanced p rt e"
  by (auto simp: attach_windows_job_def balanced_def split: sum.split)

lemma drop_child_fields [simp, engine]:
  "child (drop_child c e) = child e" "olcrtc (drop_child c e) = olcrtc e"
  "macos_system_connected (drop_child c e) = macos_system_connected e"
  "privileged_pid (drop_child c e) = privileged_pid e" "stats_task (drop_child c e) = stats_task e"
  "windows_job (drop_child c e) = windows_job e" "mobile_connected (drop_child c e) = mobile_connected e"
  by (simp_all add: drop_child_def)

lemma reap_child_fields [simp, engine]:
  "child (reap_child c e) = child e" "olcrtc (reap_child c e) = olcrtc e"
  "macos_system_connected (reap_child c e) = macos_system_connected e"
  "privileged_pid (reap_child c e) = privileged_pid e" "stats_task (reap_child c e) = stats_task e"
  "windows_job (reap_child c e) = windows_job e" "mobile_connected (reap_child c e) = mobile_connected e"
  by (simp_all add: reap_child_def)

lemma start_core_balanced:
  assumes "balanced None rt e" and "child e = None" and "start_core os ws path rt a e = (r, e')"
  shows "balanced None None e'"
  using assms by (auto simp: start_core_def Let_def split: sum.splits option.splits)

lemma start_macos_balanced:
  assumes "balanced None rt e" and "start_macos opts cfg ws rt a e = (r, e')"
  shows "balanced None None e'"
  using assms by (auto simp: start_macos_def Let_def split: sum.splits)

lemma start_desktop_balanced:
  assumes "balanced None None e" and "start_desktop os opts a e = (r, e')"
  shows "balanced None None e'"
  using assms(2)
proof (cases rule: start_desktop_cases)
  case (launched ws cfg path rt e1)
  have "balanced None rt e1"
    using launched(2-4) assms(1) by (cases rt) auto
  moreover have "child e1 = None" using launched(1,2) by auto
  ultimately show ?thesis
    using launched(6) start_core_balanced start_macos_balanced by (cases "os = MacOS") auto
qed (use assms(1) in simp_all)

lemma stop_core_balanced:
  assumes "balanced None None e" and "stop_core a e = (r, e')"
  shows "balanced None None e'"
  using assms by (auto simp: stop_core_def Let_def split: option.splits kill_outcome.splits sum.splits)

lemma stop_desktop_balanced:
  assumes "balanced None None e" and "stop_desktop os a e = (r, e')"
  shows "balanced None None e'"
proof -
  have e: "balanced None None (stop_stats_polling e)" using assms(1) by simp
  show ?thesis
  proof (cases "os = MacOS \<and> macos_system_connected (stop_stats_polling e)")
    case True
    with e assms(2) show ?thesis
      by (auto simp: stop_desktop_def stop_macos_tunnel_def Let_def split: sum.splits)
  next
    case no_tunnel: False
    show ?thesis
    proof (cases "if os = MacOS then privileged_pid (stop_stats_polling e) else None")
      case None
      have "stop_core a (stop_stats_polling e) = (r, e')"
        using assms(2) unfolding stop_desktop_def Let_def if_not_P [OF no_tunnel] None by simp
      with e stop_core_balanced show ?thesis by blast
    next
      case (Some pid)
      have "stop_macos_privileged pid a (stop_stats_polling e) = (r, e')"
        using assms(2) unfolding stop_desktop_def Let_def if_not_P [OF no_tunnel] Some by simp
      with e show ?thesis by (auto simp: stop_macos_privileged_def Let_def split: sum.splits)
    qed
  qed
qed

section \<open>Which processes were seen to end\<close>

text \<open>Every process that was sent a kill has been seen to end.\<close>

definition reaped :: "engine \<Rightarrow> bool" where
  "reaped e \<longleftrightarrow> ended (effects e) = kill_requested (effects e)"

text \<open>
  The answers after which nothing was given up blindly: the readiness check came to a decision, and
  the kill of a stop was waited for.
\<close>

definition readiness_decided :: "start_answers \<Rightarrow> bool" where
  "readiness_decided a \<longleftrightarrow> (case wait_for_desktop_readiness (ans_probes a) (ans_last_exit a) of Inl _ \<Rightarrow> False | Inr _ \<Rightarrow> True)"

lemma reaped_same: "effects e' = effects e \<Longrightarrow> reaped e' = reaped e"
  by (simp add: reaped_def)

lemma reaped_quiet:
  "kill_requested [x] = {#} \<Longrightarrow> ended [x] = {#} \<Longrightarrow> reaped (effect x e) = reaped e"
  by (simp add: reaped_def del: account_Cons)

lemma reaped_simps [simp]:
  "reaped (e\<lparr>windows_job := b\<rparr>) = reaped e" "reaped (e\<lparr>macos_system_connected := b\<rparr>) = reaped e"
  "reaped (e\<lparr>privileged_pid := x\<rparr>) = reaped e" "reaped (e\<lparr>child := c\<rparr>) = reaped e"
  "reaped (e\<lparr>olcrtc := h\<rparr>) = reaped e"
  "reaped (start_stats_polling e) = reaped e" "reaped (stop_stats_polling e) = reaped e"
  by (rule reaped_same; simp add: start_stats_polling_def stop_stats_polling_def)+

lemma reaped_effects [simp]:
  "reaped (effect TunnelStarted e) = reaped e" "reaped (effect TunnelStopped e) = reaped e"
  "reaped (effect (ConfigWritten m) e) = reaped e" "reaped (effect (PrivilegedStopped pid) e) = reaped e"
  "reaped (effect (ProcessSpawned n) e) = reaped e" "reaped (effect (RuntimeStarted h) e) = reaped e"
  "reaped (effect (RuntimeStopped h) e) = reaped e" "reaped (effect (RuntimeDropped h) e) = reaped e"
  "reaped (log_line m e) = reaped e"
  unfolding log_line_def by (rule reaped_quiet; simp)+

lemma reaped_runtimes [simp]:
  "reaped (stop_runtime rt e) = reaped e" "reaped (drop_runtime rt e) = reaped e"
  "reaped (keep_runtime rt e) = reaped e" "reaped (take_runtime e) = reaped e"
  by (simp_all add: stop_runtime_def drop_runtime_def keep_runtime_def take_runtime_def split: option.split)

lemma reaped_child [simp]:
  "reaped (reap_child c e) = reaped e" "reaped (attach_windows_job os a e) = reaped e"
  by (simp_all add: reaped_def reap_child_def drop_child_def attach_windows_job_def split: sum.split)

lemma start_core_reaped:
  assumes "reaped e" and "readiness_decided a" and "start_core os ws path rt a e = (r, e')"
  shows "reaped e'"
  using assms by (auto simp: start_core_def readiness_decided_def Let_def split: sum.splits option.splits)

lemma start_macos_reaped:
  assumes "reaped e" and "start_macos opts cfg ws rt a e = (r, e')"
  shows "reaped e'"
  using assms by (auto simp: start_macos_def Let_def split: sum.splits)

lemma start_desktop_reaped:
  assumes "reaped e" and "readiness_decided a" and "start_desktop os opts a e = (r, e')"
  shows "reaped e'"
  using assms(3)
proof (cases rule: start_desktop_cases)
  case (launched ws cfg path rt e1)
  have e1: "reaped e1" using launched(2) assms(1) by auto
  show ?thesis
  proof (cases "os = MacOS")
    case True
    with launched(6) have "start_macos opts cfg ws rt a e1 = (r, e')" by simp
    from start_macos_reaped [OF e1 this] show ?thesis .
  next
    case False
    with launched(6) have "start_core os ws path rt a e1 = (r, e')" by simp
    from start_core_reaped [OF e1 assms(2) this] show ?thesis .
  qed
qed (use assms(1) in simp_all)

lemma stop_core_reaped:
  assumes "reaped e" and "ans_kill a = KillDone" and "stop_core a e = (r, e')"
  shows "reaped e'"
  using assms by (auto simp: stop_core_def Let_def split: option.splits sum.splits)

lemma stop_macos_reaped:
  "reaped e \<Longrightarrow> stop_macos_tunnel a e = (r, e') \<Longrightarrow> reaped e'"
  "reaped e \<Longrightarrow> stop_macos_privileged pid a e = (r, e') \<Longrightarrow> reaped e'"
  by (auto simp: stop_macos_tunnel_def stop_macos_privileged_def Let_def split: sum.splits)

lemma stop_desktop_reaped:
  assumes "reaped e" and "ans_kill a = KillDone" and "stop_desktop os a e = (r, e')"
  shows "reaped e'"
proof -
  have e: "reaped (stop_stats_polling e)" using assms(1) by simp
  have "stop_macos_tunnel a (stop_stats_polling e) = (r, e') \<or>
      (\<exists>pid. stop_macos_privileged pid a (stop_stats_polling e) = (r, e')) \<or>
      stop_core a (stop_stats_polling e) = (r, e')"
    using assms(3) unfolding stop_desktop_def Let_def by (auto split: if_splits option.splits)
  with e stop_macos_reaped stop_core_reaped [OF e assms(2)] show ?thesis by blast
qed

section \<open>Processes and runtimes over a life\<close>

inductive engine_reachable :: "target_os \<Rightarrow> engine \<Rightarrow> bool" for os where
  engine_init: "engine_reachable os default_engine"
| engine_start: "engine_reachable os e \<Longrightarrow> start_desktop os opts a e = (r, e') \<Longrightarrow> engine_reachable os e'"
| engine_stop: "engine_reachable os e \<Longrightarrow> stop_desktop os b e = (r', e') \<Longrightarrow> engine_reachable os e'"

lemma default_balanced: "balanced None None default_engine"
  by (simp add: balanced_def default_engine_def account_defs List.map_filter_def)

lemma default_reaped: "reaped default_engine"
  by (simp add: reaped_def default_engine_def)

lemma reachable_balanced: "engine_reachable os e \<Longrightarrow> balanced None None e"
  by (induction rule: engine_reachable.induct)
    (auto intro: default_balanced start_desktop_balanced stop_desktop_balanced)

text \<open>No forgotten process. Whatever sequence of starts and stops runs, and whatever fails in it, every
  core process ever spawned has been sent a kill, except the one the engine still holds, and there is
  at most one of those.\<close>

theorem no_orphan_process:
  assumes "engine_reachable os e"
  shows "spawned (effects e) = kill_requested (effects e) + held (child e) \<and> size (held (child e)) \<le> 1"
  using reachable_balanced [OF assms] by (cases "child e") (simp_all add: balanced_def)

text \<open>Answers of an environment where everything succeeds.\<close>

definition good_answers :: start_answers where
  "good_answers =
     \<lparr>ans_elevated = True, ans_serialize = (\<lambda>_. Inr ''{}''), ans_write_config = (\<lambda>_. Inr ''cfg''),
      ans_resolve_core = Inr ''core'', ans_id = Some [48], ans_getcap = None,
      ans_check = Exited True [] [], ans_install_profile = Inr (), ans_cleanup = Inr (),
      ans_olcrtc_start = (\<lambda>_. Inr 7), ans_show_uuid = (\<lambda>_. ''id''), ans_start_profile = (\<lambda>_ _. Inr ()), ans_tunnel_clock = (\<lambda>i. 500 * i),
      ans_tunnel_status = (\<lambda>_. Inr True), ans_resolve_core_again = Inr ''core'',
      ans_spawn = Inr 42, ans_windows_job = Inr (),
      ans_probes = (\<lambda>_. \<lparr>probe_exit = Inr None, probe_proxy_port = True, probe_clash_port = False,
                        probe_exit_again = Inr None\<rparr>),
      ans_last_exit = Inr None\<rparr>"

definition good_stop :: stop_answers where
  "good_stop =
     \<lparr>ans_config_path = Inr ''cfg'', ans_stop_cleanup = Inr (), ans_kill = KillDone,
      ans_stop_profile = Inr (), ans_stop_privileged = Inr ()\<rparr>"

definition sample_running :: engine where
  "sample_running = snd (start_desktop Linux sample_options good_answers default_engine)"

lemma sample_running_reachable: "engine_reachable Linux sample_running"
  unfolding sample_running_def by (rule engine_start [OF engine_init prod.collapse [symmetric]])

lemma good_answers_simps [simp]:
  "ans_elevated good_answers" "ans_serialize good_answers j = Inr ''{}''"
  "ans_write_config good_answers s = Inr ''cfg''" "ans_resolve_core good_answers = Inr ''core''"
  "ans_id good_answers = Some [48]" "ans_getcap good_answers = None"
  "ans_check good_answers = Exited True [] []" "ans_cleanup good_answers = Inr ()"
  "ans_install_profile good_answers = Inr ()" "ans_start_profile good_answers = (\<lambda>_ _. Inr ())"
  "ans_olcrtc_start good_answers c = Inr 7" "ans_resolve_core_again good_answers = Inr ''core''"
  "ans_spawn good_answers = Inr 42" "ans_windows_job good_answers = Inr ()"
  by (simp_all add: good_answers_def)

lemma good_permissions: "ensure_linux_tun_permissions Linux (Some [48]) None binary = Inr ()"
proof -
  have zero: "[48] = bytes_of ''0''" by (simp add: bytes_of_def)
  have "from_utf8 [48] = Some ''0''"
    unfolding zero from_utf8_def string_of_bytes_of by (simp add: bytes_of_def utf8_tail_def)
  moreover have "trim ''0'' = ''0''" by (rule trim_plain) (simp_all add: plain_edge_def white_space_def)
  moreover have "parse_u32 ''0'' = Some 0" by (simp add: parse_u32_def from_str_radix_def to_digit_def)
  ultimately show ?thesis by (simp add: ensure_linux_tun_permissions_def)
qed

lemma good_readiness:
  "wait_for_desktop_readiness (ans_probes good_answers) (ans_last_exit good_answers) = Inr None"
  by (simp add: wait_for_desktop_readiness_def good_answers_def inspect_def upt_conv_Cons)

lemma sample_profile: "opt_profile sample_options = sample_olcrtc"
  by (simp add: sample_options_def)

lemma answer_apply [simp]: "answer r e = (r, e)"
  by (simp add: answer_def)

lemma good_stages:
  "start_guard Linux default_engine = (Inr (), default_engine)"
  "prepare_config Linux sample_options good_answers e =
     (Inr ([''Linux TUN mode may require CAP_NET_ADMIN or root privileges''], ''{}'', ''cfg''),
      effect (ConfigWritten ''{}'') e)"
  "check_installation Linux good_answers e = (Inr (), e)"
  "start_olcrtc sample_options good_answers e =
     (Inr (Some 7), log_line ''OLC RTC client connected to WB Stream'' (effect (RuntimeStarted 7) e))"
  by (simp_all add: start_guard_def default_engine_def prepare_config_def run_then_answer_eq
      check_platform_requirements_def is_elevated_def sample_generates check_installation_def
      good_permissions check_config_def start_olcrtc_def sample_profile sample_settings)

lemma good_runs:
  "run_then (start_guard Linux) f default_engine = f () default_engine"
  "run_then (prepare_config Linux sample_options good_answers) f2 e =
     f2 ([''Linux TUN mode may require CAP_NET_ADMIN or root privileges''], ''{}'', ''cfg'')
        (effect (ConfigWritten ''{}'') e)"
  "run_then (check_installation Linux good_answers) f3 e = f3 () e"
  "run_then (start_olcrtc sample_options good_answers) f4 e =
     f4 (Some 7) (log_line ''OLC RTC client connected to WB Stream'' (effect (RuntimeStarted 7) e))"
  by (simp_all add: run_then_def good_stages)

lemma sample_running_core:
  "sample_running = snd (start_core Linux [''Linux TUN mode may require CAP_NET_ADMIN or root privileges'']
     ''cfg'' (Some 7) good_answers
     (log_line ''OLC RTC client connected to WB Stream'' (effect (RuntimeStarted 7)
        (effect (ConfigWritten ''{}'') default_engine))))"
  unfolding sample_running_def start_desktop_def good_runs prod.case run_then_answer_eq
    good_answers_simps sum.case
  by simp

lemma sample_running_eq:
  "child sample_running = Some 42" "olcrtc sample_running = Some 7" "stats_task sample_running"
  "kill_requested (effects sample_running) = {#}" "ended (effects sample_running) = {#}" "windows_job sample_running = False"
  "privileged_pid sample_running = None" "macos_system_connected sample_running = False"
  by (simp_all add: sample_running_core start_core_def good_readiness keep_runtime_def
      drop_runtime_def attach_windows_job_def start_stats_polling_def default_engine_def)

theorem no_orphan_process_witness: "spawned (effects sample_running) = {#42#}"
  using no_orphan_process [OF sample_running_reachable] by (simp add: sample_running_eq)

text \<open>A failed start can leave the local OLC RTC client behind. When the core was spawned but the
  readiness check reports an error (the ports never opened, or the process could not be
  inspected), the core is killed while the runtime is only dropped: it is never stopped, and no
  later stop can reach it.\<close>

theorem failed_start_leaks_runtime:
  assumes "ans_resolve_core_again a = Inr binary" and "ans_spawn a = Inr c"
    and "wait_for_desktop_readiness (ans_probes a) (ans_last_exit a) = Inl err"
    and "start_core os ws path (Some h) a e = (r, e')"
  shows "r = Inl err \<and> runtimes_leaked (effects e') = runtimes_leaked (effects e) + {#h#} \<and>
         runtimes_stopped (effects e') = runtimes_stopped (effects e) \<and> olcrtc e' = olcrtc e"
  using assms
  by (auto simp: start_core_def Let_def drop_runtime_def drop_child_def attach_windows_job_def
      split: sum.splits if_splits)

definition silent_answers :: start_answers where
  "silent_answers = good_answers
     \<lparr>ans_probes := (\<lambda>_. \<lparr>probe_exit = Inr None, probe_proxy_port = False, probe_clash_port = False,
                        probe_exit_again = Inr None\<rparr>)\<rparr>"

theorem failed_start_leaks_runtime_witness:
  "7 \<in># runtimes_leaked (effects (snd (start_core Linux [] ''cfg'' (Some 7) silent_answers default_engine)))"
proof -
  let ?s = "start_core Linux [] ''cfg'' (Some 7) silent_answers default_engine"
  have ready: "wait_for_desktop_readiness (ans_probes silent_answers) (ans_last_exit silent_answers) =
      Inl (Engine ''sing-box did not open local proxy ports during startup'')"
    by code_simp
  have spawn: "ans_resolve_core_again silent_answers = Inr ''core''" "ans_spawn silent_answers = Inr 42"
    by (simp_all add: silent_answers_def good_answers_def)
  obtain r e where s: "?s = (r, e)" by fastforce
  from failed_start_leaks_runtime [OF spawn ready s] s show ?thesis by simp
qed

text \<open>A kill that times out loses the process but keeps the local OLC RTC client: the engine has no
  child any more, so every later stop reports that nothing runs, while the runtime stays in
  place until a later start replaces it, and then it is dropped, not stopped.\<close>

theorem stop_timeout_keeps_runtime:
  assumes "os \<noteq> MacOS" and "child e = Some c" and "olcrtc e = Some h" and "ans_kill a = KillTimedOut"
    and "stop_desktop os a e = (r, e1)"
  shows "r = Inl (Engine ''timed out while stopping sing-box'') \<and> child e1 = None \<and> olcrtc e1 = Some h \<and>
    (\<forall>b r2 e2. stop_desktop os b e1 = (r2, e2) \<longrightarrow> r2 \<noteq> Inr () \<and> olcrtc e2 = Some h) \<and>
    (\<forall>rt. runtimes_leaked (effects (keep_runtime rt e1)) = runtimes_leaked (effects e1) + {#h#})"
proof -
  have e1: "r = Inl (Engine ''timed out while stopping sing-box'') \<and>
      e1 = drop_child c ((stop_stats_polling e)\<lparr>child := None\<rparr>)"
    using assms by (auto simp: stop_desktop_def stop_core_def stop_stats_polling_def Let_def)
  have later: "r2 \<noteq> Inr () \<and> olcrtc e2 = Some h" if "stop_desktop os b e1 = (r2, e2)" for b r2 e2
    using that assms(1,3) e1
    by (auto simp: stop_desktop_def stop_core_def stop_stats_polling_def Let_def and_then_def
        split: sum.splits)
  show ?thesis
    using e1 later assms(3) by (auto simp: keep_runtime_def drop_runtime_def stop_stats_polling_def)
qed

theorem stop_timeout_keeps_runtime_witness:
  "olcrtc (snd (stop_desktop Linux (good_stop\<lparr>ans_kill := KillTimedOut\<rparr>)
     sample_running)) = Some 7"
proof -
  note running = sample_running_eq(1,2)
  from stop_timeout_keeps_runtime [OF _ running _ prod.collapse [symmetric],
      of Linux "good_stop\<lparr>ans_kill := KillTimedOut\<rparr>"]
  show ?thesis by simp
qed

section \<open>Waiting\<close>

lemma inspect_simps [simp]:
  "inspect (Inr x) = Inr x" "inspect (Inl s) = Inl (Engine (''failed to inspect sing-box process: '' @ s))"
  "inspect r = Inr x \<longleftrightarrow> r = Inr x"
  by (cases r; simp add: inspect_def)+

text \<open>A round that keeps the loop waiting, and a round that ends it with the core up.\<close>

definition still_waiting :: "probe \<Rightarrow> bool" where
  "still_waiting p \<longleftrightarrow>
     probe_exit p = Inr None \<and> \<not> probe_proxy_port p \<and> \<not> probe_clash_port p"

definition came_up :: "probe \<Rightarrow> bool" where
  "came_up p \<longleftrightarrow>
     probe_exit p = Inr None \<and> (probe_proxy_port p \<or> probe_clash_port p) \<and>
     probe_exit_again p = Inr None"

lemma first_round:
  assumes "m < n"
  shows "(\<exists>i. m \<le> i \<and> i < n \<and> (\<forall>j. m \<le> j \<and> j < i \<longrightarrow> Q j) \<and> U i) \<longleftrightarrow>
     U m \<or> (Q m \<and> (\<exists>i. Suc m \<le> i \<and> i < n \<and> (\<forall>j. Suc m \<le> j \<and> j < i \<longrightarrow> Q j) \<and> U i))"
    (is "?all = ?step")
proof
  assume ?all
  then obtain i where i: "m \<le> i" "i < n" "\<And>j. m \<le> j \<Longrightarrow> j < i \<Longrightarrow> Q j" "U i" by blast
  show ?step
  proof (cases "i = m")
    case False
    with i have "Suc m \<le> i" "Q m" by simp_all
    with i show ?thesis by (metis Suc_leD)
  qed (use i in simp)
next
  assume ?step
  then show ?all
  proof
    assume "U m"
    then show ?all using assms by (intro exI [of _ m]) auto
  next
    assume "Q m \<and> (\<exists>i. Suc m \<le> i \<and> i < n \<and> (\<forall>j. Suc m \<le> j \<and> j < i \<longrightarrow> Q j) \<and> U i)"
    then obtain i where i: "Q m" "Suc m \<le> i" "i < n" "\<And>j. Suc m \<le> j \<Longrightarrow> j < i \<Longrightarrow> Q j" "U i" by blast
    have "Q j" if "m \<le> j" "j < i" for j using that i(1,4) by (cases "j = m") simp_all
    then show ?all using i by (intro exI [of _ i]) simp
  qed
qed

lemma readiness_round:
  "readiness_rounds probes last_exit (i # rounds) = Inr None \<longleftrightarrow>
     came_up (probes i) \<or>
     (still_waiting (probes i) \<and> readiness_rounds probes last_exit rounds = Inr None)"
  by (cases "probe_exit (probes i)") (auto simp: came_up_def still_waiting_def split: option.splits)

lemma readiness_rounds_up:
  "readiness_rounds probes last_exit [m..<n] = Inr None \<longleftrightarrow>
     (\<exists>i. m \<le> i \<and> i < n \<and> (\<forall>j. m \<le> j \<and> j < i \<longrightarrow> still_waiting (probes j)) \<and> came_up (probes i))"
proof (induction "n - m" arbitrary: m)
  case 0
  then show ?case by (auto simp: vpn_result split: option.splits)
next
  case (Suc k)
  then have less: "m < n" and k: "k = n - Suc m" by simp_all
  have unfold: "[m..<n] = m # [Suc m..<n]" using less by (rule upt_conv_Cons)
  show ?case unfolding unfold readiness_round first_round [OF less] Suc.hyps(1) [OF k] ..
qed

text \<open>C26: The readiness check reports the core as up exactly when, in one of 20 rounds, one of its two
  ports accepted a connection, the process had not ended before and was still alive after the
  settling pause, and in all earlier rounds it was alive with both ports closed.\<close>

theorem readiness_spec:
  "wait_for_desktop_readiness probes last_exit = Inr None \<longleftrightarrow>
     (\<exists>i. i < 20 \<and>
        (\<nexists>j. j < i \<and> \<not> (probe_exit (probes j) = Inr None \<and>
            \<not> probe_proxy_port (probes j) \<and> \<not> probe_clash_port (probes j))) \<and>
        probe_exit (probes i) = Inr None \<and>
        (probe_proxy_port (probes i) \<or> probe_clash_port (probes i)) \<and>
        probe_exit_again (probes i) = Inr None)"
  unfolding wait_for_desktop_readiness_def readiness_rounds_up still_waiting_def came_up_def by auto

lemma poll_tunnel_enough:
  assumes "\<And>j. elapsed (Suc j) \<ge> elapsed j + 500" and "elapsed i \<ge> 500 * i" and "41 \<le> fuel + i"
  shows "poll_tunnel fuel elapsed poll i last_error = poll_tunnel (fuel + k) elapsed poll i last_error"
  using assms(2,3)
proof (induction fuel arbitrary: i last_error)
  case 0
  then have "tunnel_timeout \<le> elapsed i" by (simp add: tunnel_timeout_def)
  then show ?case by (cases k) simp_all
next
  case (Suc fuel)
  have "elapsed (Suc i) \<ge> 500 * Suc i" using assms(1) [of i] Suc.prems(1) by simp
  then have "poll_tunnel fuel elapsed poll (Suc i) le = poll_tunnel (fuel + k) elapsed poll (Suc i) le" for le
    using Suc.IH Suc.prems(2) by simp
  then show ?case by (simp split: sum.split bool.split)
qed

text \<open>C36: The tunnel wait ends: with a clock that advances by at least the pause of 500 ms between two
  polls, 41 rounds decide the loop, and more rounds change nothing.\<close>

theorem tunnel_wait_bounded:
  assumes "\<And>j. elapsed (Suc j) \<ge> elapsed j + 500"
  shows "poll_tunnel (tunnel_rounds + k) elapsed poll 0 last_error =
         poll_tunnel tunnel_rounds elapsed poll 0 last_error"
  using poll_tunnel_enough [where elapsed = elapsed and i = 0 and fuel = tunnel_rounds and k = k, OF assms] by (simp add: tunnel_rounds_def)

theorem tunnel_wait_bounded_witness:
  "poll_tunnel (tunnel_rounds + 1000) (\<lambda>i. 500 * i) (\<lambda>i. Inr (i = 3)) 0 None = Inr ()"
proof -
  have "poll_tunnel tunnel_rounds (\<lambda>i. 500 * i) (\<lambda>i. Inr (i = 3)) 0 None = Inr ()"
  proof -
    have rounds: "tunnel_rounds = Suc (Suc (Suc (Suc 37)))" by (simp add: tunnel_rounds_def)
    show ?thesis unfolding rounds poll_tunnel.simps by (simp add: tunnel_timeout_def)
  qed
  then show ?thesis by (subst tunnel_wait_bounded) simp_all
qed

section \<open>Mobile status\<close>

lemma first_status_cases:
  "(\<exists>s. first_status status is x = Inr s \<and> (\<exists>i \<in> set is. status i = Inr s)) \<or>
   (\<exists>y. first_status status is x = Inl y \<and> (\<forall>i \<in> set is. \<exists>z. status i = Inl z))"
  by (induction "is" arbitrary: x) (auto split: sum.split)

text \<open>After a status query the engine's own flag agrees with what it reports: with a registered
  plugin and an answer in one of three attempts, the flag is the answer; if all three fail the
  error is reported and nothing changes.\<close>

theorem mobile_status_agrees:
  assumes "mob_plugin a"
  shows "case get_mobile_status a e of
     (Inr (up, profile), e') \<Rightarrow>
       mobile_connected e' = up \<and>
       (\<exists>i < 3. \<exists>s. mob_status a i = Inr s \<and> established s = up \<and> ns_active_profile_id s = profile)
   | (Inl err, e') \<Rightarrow> e' = e \<and> (\<forall>i < 3. \<exists>x. mob_status a i = Inl x)"
proof -
  have flag: "mobile_connected (emit_traffic s e') = mobile_connected e'" for s e'
    by (simp add: emit_traffic_def split: option.split)
  consider (ok) s i where "first_status (mob_status a) [0..<3] [] = Inr s" "i < 3" "mob_status a i = Inr s"
    | (failed) x where "first_status (mob_status a) [0..<3] [] = Inl x" "\<forall>i<3. \<exists>z. mob_status a i = Inl z"
    using first_status_cases [of "mob_status a" "[0..<3]" "[]"] by fastforce
  then show ?thesis
  proof cases
    case ok
    then have "\<exists>i<3. \<exists>s'. mob_status a i = Inr s' \<and> established s' = established s \<and>
        ns_active_profile_id s' = ns_active_profile_id s"
      by blast
    with ok(1) assms show ?thesis by (simp add: get_mobile_status_def flag)
  next
    case failed
    with assms show ?thesis by (simp add: get_mobile_status_def)
  qed
qed

definition sample_mobile :: mobile_answers where
  "sample_mobile =
     \<lparr>mob_plugin = True, mob_serialize = (\<lambda>_. Inr []), mob_start = Inr True, mob_clock = (\<lambda>i. 500 * i),
      mob_status = (\<lambda>i. Inr \<lparr>established = True, ns_last_error = None, ns_active_profile_id = None,
                         ns_uploaded_bytes = None, ns_downloaded_bytes = None\<rparr>),
      mob_stop = Inr True\<rparr>"

theorem mobile_status_agrees_witness:
  "mobile_connected (snd (get_mobile_status sample_mobile default_engine))"
proof -
  obtain r e where s: "get_mobile_status sample_mobile default_engine = (r, e)" by fastforce
  then have "r = Inr (True, None)"
    by (simp add: get_mobile_status_def sample_mobile_def upt_conv_Cons)
  with mobile_status_agrees [of sample_mobile default_engine] s show ?thesis
    by (simp add: sample_mobile_def)
qed

section \<open>Choosing the core binary\<close>

lemma in_map_filter: "p \<in> set (List.map_filter (\<lambda>c. c) xs) \<longleftrightarrow> Some p \<in> set xs"
  by (force simp: List.map_filter_def)

text \<open>The core that is resolved exists and is the first existing candidate: an environment override
  that exists always wins, and the search fails only when no candidate exists.\<close>

theorem resolve_core_binary_spec:
  "(case resolve_core_binary os l of
      Inr p \<Rightarrow> look_exists l p \<and> Some p \<in> set (core_candidates os l)
    | Inl e \<Rightarrow> (\<nexists>p. Some p \<in> set (core_candidates os l) \<and> look_exists l p)) \<and>
   (case look_env l of
      None \<Rightarrow> True
    | Some p \<Rightarrow> if look_exists l p then resolve_core_binary os l = Inr p else True)"
proof
  let ?cs = "List.map_filter (\<lambda>c. c) (core_candidates os l)"
  show "case resolve_core_binary os l of
      Inr p \<Rightarrow> look_exists l p \<and> Some p \<in> set (core_candidates os l)
    | Inl e \<Rightarrow> (\<nexists>p. Some p \<in> set (core_candidates os l) \<and> look_exists l p)"
  proof (cases "find (look_exists l) ?cs")
    case None
    then have "\<nexists>p. Some p \<in> set (core_candidates os l) \<and> look_exists l p"
      by (auto simp: find_None_iff in_map_filter)
    with None show ?thesis by (simp add: resolve_core_binary_def)
  next
    case (Some p)
    then have "look_exists l p" "p \<in> set ?cs" by (auto simp: find_Some_iff)
    with Some show ?thesis by (simp add: resolve_core_binary_def in_map_filter)
  qed
  show "case look_env l of
      None \<Rightarrow> True
    | Some p \<Rightarrow> if look_exists l p then resolve_core_binary os l = Inr p else True"
  proof (cases "look_env l")
    case (Some p)
    then have "\<exists>rest. ?cs = p # rest" by (simp add: core_candidates_def Let_def List.map_filter_simps)
    with Some show ?thesis by (auto simp: resolve_core_binary_def)
  qed simp
qed

end
