(* ===== verification/Script_Quoting.thy ===== *)
theory Script_Quoting
  imports Sing_Engine
begin

text \<open>
  The quoting of \<open>src/engine.rs\<close> against the readers it is meant for: how a POSIX shell reads one
  word, and how AppleScript reads a string literal. Both are instances of one contract, so a
  configuration path with any characters stays one argument of the script that is run with
  administrator rights.
\<close>

section \<open>The contract\<close>

locale quoting =
  fixes quote :: "string \<Rightarrow> string"
    and read_quoted :: "string \<Rightarrow> (string \<times> string) option"
    and ends :: "string \<Rightarrow> bool"
  assumes read_quote: "ends rest \<Longrightarrow> read_quoted (quote s @ rest) = Some (s, rest)"
    and ends_Nil: "ends []"
begin

lemma quote_inj: "quote s = quote t \<longleftrightarrow> s = t"
  using read_quote [OF ends_Nil] by (metis append_Nil2 option.inject prod.inject)

text \<open>What follows a quoted text is never read as part of it.\<close>

lemma quote_unique:
  "ends r \<Longrightarrow> ends r' \<Longrightarrow> quote s @ r = quote t @ r' \<Longrightarrow> s = t \<and> r = r'"
  using read_quote by (metis option.inject prod.inject)

lemma quote_in_context:
  assumes "script = before @ quote s @ after" and "ends after"
  shows "read_quoted (drop (length before) script) = Some (s, after)"
  using assms read_quote by simp

end

section \<open>The readers\<close>

definition push_char :: "char \<Rightarrow> (string \<times> string) option \<Rightarrow> (string \<times> string) option" where
  "push_char c r = map_option (\<lambda>(w, rest). (c # w, rest)) r"

lemma push_char_simps [simp]: "push_char c (Some (w, rest)) = Some (c # w, rest)" "push_char c None = None"
  by (simp_all add: push_char_def)

text \<open>
  One word of a POSIX shell: inside single quotes every character stands for itself, outside a
  backslash quotes the next character and a blank or a semicolon ends the word.
\<close>

fun sh_word :: "bool \<Rightarrow> string \<Rightarrow> (string \<times> string) option" where
  "sh_word True [] = None"
| "sh_word True (c # s) = (if c = single_quote then sh_word False s else push_char c (sh_word True s))"
| "sh_word False [] = Some ([], [])"
| "sh_word False (c # s) =
     (if c = single_quote then sh_word True s
      else if c = CHR '' '' \<or> c = CHR '';'' then Some ([], c # s)
      else if c = backslash then (case s of [] \<Rightarrow> None | x # t \<Rightarrow> push_char x (sh_word False t))
      else push_char c (sh_word False s))"

definition sh_ends :: "string \<Rightarrow> bool" where
  "sh_ends s \<longleftrightarrow> s = [] \<or> hd s = CHR '' '' \<or> hd s = CHR '';''"

fun as_body :: "string \<Rightarrow> (string \<times> string) option" where
  "as_body [] = None"
| "as_body (c # s) =
     (if c = double_quote then Some ([], s)
      else if c = backslash then (case s of [] \<Rightarrow> None | x # t \<Rightarrow> push_char x (as_body t))
      else push_char c (as_body s))"

definition as_text :: "string \<Rightarrow> (string \<times> string) option" where
  "as_text s = (case s of [] \<Rightarrow> None | c # t \<Rightarrow> if c = double_quote then as_body t else None)"

lemma quote_chars [simp]:
  "single_quote \<noteq> backslash" "backslash \<noteq> single_quote" "double_quote \<noteq> backslash"
  "backslash \<noteq> double_quote" "single_quote \<noteq> CHR '' ''" "single_quote \<noteq> CHR '';''"
  "backslash \<noteq> CHR '' ''" "backslash \<noteq> CHR '';''"
  by (simp_all add: single_quote_def double_quote_def backslash_def)

lemma replace_char_simps [simp]:
  "replace_char c by [] = []"
  "replace_char c by (x # s) = (if x = c then by else [x]) @ replace_char c by s"
  by (simp_all add: replace_char_def)

lemma sh_word_end: "sh_ends rest \<Longrightarrow> sh_word False rest = Some ([], rest)"
  by (cases rest) (auto simp: sh_ends_def single_quote_def)

lemma sh_word_quoted:
  assumes "sh_ends rest"
  shows "sh_word True
     (replace_char single_quote [single_quote, backslash, single_quote, single_quote] s @ single_quote # rest) =
     Some (s, rest)"
  using sh_word_end [OF assms] by (induction s) simp_all

lemma as_body_quoted:
  "as_body (replace_char double_quote [backslash, double_quote]
     (replace_char backslash [backslash, backslash] s) @ double_quote # rest) = Some (s, rest)"
  by (induction s) simp_all

interpretation shell: quoting shell_quote "sh_word False" sh_ends
  by unfold_locales (simp_all add: shell_quote_def sh_word_quoted sh_ends_def)

interpretation applescript: quoting applescript_string as_text "\<lambda>_. True"
  by unfold_locales (simp_all add: applescript_string_def as_text_def as_body_quoted)

section \<open>Property\<close>

text \<open>No configuration path can break out of the administrator scripts. In the script that stops a
  privileged core the shell reads the pattern with the path as exactly one word, between parts
  that do not depend on the path, and AppleScript reads the whole shell script back unchanged.\<close>

theorem stop_script_quotes:
  "let before = (case pid of None \<Rightarrow> [] | Some p \<Rightarrow> ''kill '' @ show_nat (unat p) @ ''; '') @ ''pkill -f '';
       after = ''; lsof -tiTCP:2080 -sTCP:LISTEN -a -c sing-box | xargs kill 2>/dev/null || true''
   in sh_word False (drop (length before) (stop_script pid path)) = Some (''sing-box.*'' @ path, after) \<and>
      take (length before) (stop_script pid path) = before \<and>
      as_text (drop (length ''do shell script '') (admin_script (stop_script pid path))) =
        Some (stop_script pid path, '' with administrator privileges'')"
proof -
  let ?before = "(case pid of None \<Rightarrow> [] | Some p \<Rightarrow> ''kill '' @ show_nat (unat p) @ ''; '') @ ''pkill -f ''"
  let ?after = "''; lsof -tiTCP:2080 -sTCP:LISTEN -a -c sing-box | xargs kill 2>/dev/null || true''"
  have script: "stop_script pid path = ?before @ shell_quote (''sing-box.*'' @ path) @ ?after"
    by (cases pid) (simp_all add: stop_script_def)
  have "sh_ends ?after" by (simp add: sh_ends_def)
  note word = shell.quote_in_context [OF script this]
  have "admin_script (stop_script pid path) = ''do shell script '' @
      applescript_string (stop_script pid path) @ '' with administrator privileges''"
    by (simp only: admin_script_def)
  note script_text = applescript.quote_in_context [OF this TrueI]
  have "take (length ?before) (stop_script pid path) = ?before" unfolding script by simp
  with word script_text show ?thesis unfolding Let_def by blast
qed

end
