(* ===== verification/Commands.thy ===== *)
theory Commands
  imports Engine_Props
begin

text \<open>
  \<open>src/commands.rs\<close> and \<open>src/state.rs\<close>: the connection status behind its lock, and the commands
  that move it. A command is the sections it runs under the lock with the engine call between
  them, so that the sections of two commands can be interleaved. What a command assumes of the
  engine is a locale with two instances, the desktop engine and the mobile one.
\<close>

section \<open>State\<close>

record vpn_state =
  st_engine :: engine
  st_mobile :: bool
  st_status :: connection_status
  st_events :: "(string \<times> connection_status) list"

definition vpn_state_new :: "engine \<Rightarrow> bool \<Rightarrow> vpn_state" where
  "vpn_state_new e mobile =
     \<lparr>st_engine = e, st_mobile = mobile, st_status = default_connection_status, st_events = []\<rparr>"

definition emit :: "string \<Rightarrow> vpn_state \<Rightarrow> vpn_state" where
  "emit event s = s\<lparr>st_events := st_events s @ [(event, st_status s)]\<rparr>"

definition set_status :: "(connection_status \<Rightarrow> connection_status) \<Rightarrow> vpn_state \<Rightarrow> vpn_state" where
  "set_status f s = s\<lparr>st_status := f (st_status s)\<rparr>"

section \<open>Connect and disconnect\<close>

definition connect_begin :: "connect_options \<Rightarrow> vpn_state \<Rightarrow> unit vpn_result \<times> vpn_state" where
  "connect_begin opts s =
     (if phase (st_status s) = Connected \<or> phase (st_status s) = Connecting
      then (Inl AlreadyRunning, s)
      else
        (Inr (),
         emit ''vpn:status'' (set_status (\<lambda>st. st\<lparr>phase := Connecting,
            active_profile_id := Some (profile_id (opt_profile opts)),
            message := Some ''Connecting''\<rparr>) s)))"

definition connect_finish ::
    "string list vpn_result \<Rightarrow> vpn_state \<Rightarrow> connection_status vpn_result \<times> vpn_state" where
  "connect_finish r s =
     (case r of
        Inr ws \<Rightarrow>
          let s' = emit ''vpn:status'' (set_status (\<lambda>st. st\<lparr>phase := Connected,
                message := (case ws of w # _ \<Rightarrow> Some w | [] \<Rightarrow> Some ''Connected'')\<rparr>) s)
          in (Inr (st_status s'), s')
      | Inl err \<Rightarrow>
          (Inl err, emit ''vpn:error'' (set_status (\<lambda>st. st\<lparr>phase := Failed,
             message := Some (error_display err)\<rparr>) s)))"

text \<open>Run an engine call on the engine in the state.\<close>

definition on_engine :: "'a engine_op \<Rightarrow> vpn_state \<Rightarrow> 'a vpn_result \<times> vpn_state" where
  "on_engine f s = (case f (st_engine s) of (r, e) \<Rightarrow> (r, s\<lparr>st_engine := e\<rparr>))"

definition connect_with ::
    "string list engine_op \<Rightarrow> connect_options \<Rightarrow> vpn_state \<Rightarrow> connection_status vpn_result \<times> vpn_state" where
  "connect_with start opts s =
     (case connect_begin opts s of
        (Inl err, s1) \<Rightarrow> (Inl err, s1)
      | (Inr _, s1) \<Rightarrow> (case on_engine start s1 of (r, s2) \<Rightarrow> connect_finish r s2))"

definition disconnect_begin :: "vpn_state \<Rightarrow> vpn_state" where
  "disconnect_begin s =
     emit ''vpn:status'' (set_status (\<lambda>st. st\<lparr>phase := Disconnecting,
       message := Some ''Disconnecting''\<rparr>) s)"

definition disconnect_finish ::
    "unit vpn_result \<Rightarrow> vpn_state \<Rightarrow> connection_status vpn_result \<times> vpn_state" where
  "disconnect_finish r s =
     (case r of
        Inl err \<Rightarrow> (Inl err, s)
      | Inr _ \<Rightarrow>
          let s' = emit ''vpn:status'' (set_status (\<lambda>_. default_connection_status) s)
          in (Inr (st_status s'), s'))"

definition disconnect_with ::
    "unit engine_op \<Rightarrow> vpn_state \<Rightarrow> connection_status vpn_result \<times> vpn_state" where
  "disconnect_with stop s =
     (case on_engine stop (disconnect_begin s) of (r, s1) \<Rightarrow> disconnect_finish r s1)"

text \<open>\<open>SingBoxEngine::start\<close> and \<open>stop\<close>: the desktop or the mobile engine, by the target.\<close>

definition engine_start ::
    "target_os \<Rightarrow> connect_options \<Rightarrow> start_answers \<Rightarrow> mobile_answers \<Rightarrow> string list engine_op" where
  "engine_start os opts a m =
     (if is_mobile os then start_mobile os opts m else start_desktop os opts a)"

definition engine_stop :: "target_os \<Rightarrow> stop_answers \<Rightarrow> mobile_answers \<Rightarrow> unit engine_op" where
  "engine_stop os b m = (if is_mobile os then stop_mobile m else stop_desktop os b)"

definition connect ::
    "target_os \<Rightarrow> start_answers \<Rightarrow> mobile_answers \<Rightarrow> connect_options \<Rightarrow> vpn_state \<Rightarrow>
     connection_status vpn_result \<times> vpn_state" where
  "connect os a m opts s =
     connect_with (engine_start os opts a (m\<lparr>mob_plugin := st_mobile s\<rparr>)) opts s"

definition disconnect ::
    "target_os \<Rightarrow> stop_answers \<Rightarrow> mobile_answers \<Rightarrow> vpn_state \<Rightarrow>
     connection_status vpn_result \<times> vpn_state" where
  "disconnect os b m s = disconnect_with (engine_stop os b (m\<lparr>mob_plugin := st_mobile s\<rparr>)) s"

section \<open>Status\<close>

text \<open>The status after the native side said whether the tunnel is up.\<close>

definition recover_phase :: "bool \<Rightarrow> connection_status \<Rightarrow> connection_status" where
  "recover_phase up st =
     (if up
      then (if phase st = Disconnected
            then st\<lparr>phase := Connected, message := Some ''Connected (Recovered)''\<rparr> else st)
      else if phase st = Connected \<or> phase st = Connecting
      then st\<lparr>phase := Disconnected, message := None\<rparr> else st)"

text \<open>
  \<open>parse_uuid\<close> is the \<open>uuid\<close> crate's parser, \<open>macos_up\<close> the answer of
  \<open>is_vpn_profile_connected\<close>.
\<close>

definition status_command ::
    "target_os \<Rightarrow> (string \<Rightarrow> uuid option) \<Rightarrow> mobile_answers \<Rightarrow> bool vpn_result \<Rightarrow> vpn_state \<Rightarrow>
     connection_status vpn_result \<times> vpn_state" where
  "status_command os parse_uuid m macos_up s =
     (let s' =
        (if is_mobile os
         then case on_engine (get_mobile_status (m\<lparr>mob_plugin := st_mobile s\<rparr>)) s of
                (Inl _, s1) \<Rightarrow> s1
              | (Inr (up, profile), s1) \<Rightarrow>
                  let s2 = set_status (recover_phase up) s1
                  in if \<not> up then s2
                     else (case Option.bind profile parse_uuid of
                             None \<Rightarrow> s2
                           | Some u \<Rightarrow> set_status (\<lambda>st. st\<lparr>active_profile_id := Some u\<rparr>) s2)
         else if os = MacOS
         then case macos_up of Inl _ \<Rightarrow> s | Inr up \<Rightarrow> set_status (recover_phase up) s
         else s)
      in (Inr (st_status s'), s'))"

section \<open>What the commands need of an engine\<close>

text \<open>The phase tells the truth about the engine, where it says anything.\<close>

definition phase_true :: "(engine \<Rightarrow> bool) \<Rightarrow> vpn_state \<Rightarrow> bool" where
  "phase_true up s \<longleftrightarrow>
     phase (st_status s) \<noteq> Connecting \<and>
     (phase (st_status s) = Connected \<longrightarrow> up (st_engine s)) \<and>
     (phase (st_status s) = Disconnected \<longrightarrow> \<not> up (st_engine s))"

lemma status_update_simps [simp]:
  "st_engine (emit v s) = st_engine s" "st_status (emit v s) = st_status s"
  "st_mobile (emit v s) = st_mobile s" "st_engine (set_status f s) = st_engine s"
  "st_status (set_status f s) = f (st_status s)" "st_mobile (set_status f s) = st_mobile s"
  by (simp_all add: emit_def set_status_def)

lemma connect_with_cases:
  assumes "connect_with start opts s = (r, s')"
  obtains (refused) "s' = s" "r = Inl AlreadyRunning"
      "phase (st_status s) = Connected \<or> phase (st_status s) = Connecting"
  | (connected) ws e' where "start (st_engine s) = (Inr ws, e')" "st_engine s' = e'"
      "phase (st_status s') = Connected" "st_mobile s' = st_mobile s"
      "phase (st_status s) \<noteq> Connected"
  | (failed) err e' where "start (st_engine s) = (Inl err, e')" "st_engine s' = e'"
      "phase (st_status s') = Failed" "st_mobile s' = st_mobile s" "r = Inl err"
      "phase (st_status s) \<noteq> Connected"
  using assms
  by (auto simp: connect_with_def connect_begin_def connect_finish_def on_engine_def Let_def
      split: if_splits prod.splits sum.splits)

lemma disconnect_with_cases:
  assumes "disconnect_with stop s = (r, s')"
  obtains (stopped) e' where "stop (st_engine s) = (Inr (), e')" "st_engine s' = e'"
      "st_status s' = default_connection_status" "st_mobile s' = st_mobile s"
      "r = Inr default_connection_status"
  | (failed) err e' where "stop (st_engine s) = (Inl err, e')" "st_engine s' = e'"
      "phase (st_status s') = Disconnecting" "st_mobile s' = st_mobile s" "r = Inl err"
  using assms
  by (auto simp: disconnect_with_def disconnect_begin_def disconnect_finish_def on_engine_def Let_def
      split: prod.splits sum.splits)

locale command_engine =
  fixes start :: "'s \<Rightarrow> string list engine_op"
    and stop :: "'t \<Rightarrow> unit engine_op"
    and up :: "engine \<Rightarrow> bool"
    and ok :: "engine \<Rightarrow> bool"
  assumes start_done: "ok e \<Longrightarrow> start x e = (Inr ws, e') \<Longrightarrow> up e' \<and> ok e'"
    and start_failed: "ok e \<Longrightarrow> start x e = (Inl err, e') \<Longrightarrow> up e' = up e \<and> ok e'"
    and stop_done: "ok e \<Longrightarrow> stop y e = (Inr (), e') \<Longrightarrow> \<not> up e' \<and> ok e'"
    and stop_failed: "ok e \<Longrightarrow> stop y e = (Inl err, e') \<Longrightarrow> (up e' \<longrightarrow> up e) \<and> ok e'"
begin

lemma connect_keeps:
  assumes "phase_true up s" and "ok (st_engine s)" and "connect_with (start x) opts s = (r, s')"
  shows "phase_true up s' \<and> ok (st_engine s')"
  using assms(3)
proof (cases rule: connect_with_cases)
  case refused
  with assms show ?thesis by simp
next
  case (connected ws e')
  with start_done assms(2) show ?thesis by (simp add: phase_true_def)
next
  case (failed err e')
  with start_failed assms(2) show ?thesis by (simp add: phase_true_def)
qed

lemma disconnect_keeps:
  assumes "ok (st_engine s)" and "disconnect_with (stop y) s = (r, s')"
  shows "phase_true up s' \<and> ok (st_engine s')"
  using assms(2)
proof (cases rule: disconnect_with_cases)
  case (stopped e')
  with stop_done assms(1) show ?thesis by (simp add: phase_true_def default_connection_status_def)
next
  case (failed err e')
  with stop_failed assms(1) show ?thesis by (simp add: phase_true_def)
qed

end

text \<open>An engine that is always down after a stop, and refuses a second start.\<close>

locale reliable_engine = command_engine +
  assumes stop_down: "ok e \<Longrightarrow> stop y e = (r, e') \<Longrightarrow> \<not> up e'"
    and start_refuses: "ok e \<Longrightarrow> up e \<Longrightarrow> start x e \<noteq> (Inr ws, e')"
begin

text \<open>Then the phase is exact: the engine is up if and only if it says Connected.\<close>

lemma connect_exact:
  assumes "up (st_engine s) \<longleftrightarrow> phase (st_status s) = Connected" and "ok (st_engine s)"
    and "connect_with (start x) opts s = (r, s')"
  shows "up (st_engine s') \<longleftrightarrow> phase (st_status s') = Connected"
  using assms(3)
proof (cases rule: connect_with_cases)
  case refused
  with assms(1) show ?thesis by simp
next
  case (connected ws e')
  with start_done assms(2) show ?thesis by simp
next
  case (failed err e')
  with start_failed assms(1,2) show ?thesis by simp
qed

lemma disconnect_exact:
  assumes "ok (st_engine s)" and "disconnect_with (stop y) s = (r, s')"
  shows "up (st_engine s') \<longleftrightarrow> phase (st_status s') = Connected"
  using assms(2)
  by (cases rule: disconnect_with_cases)
    (use stop_down assms(1) in \<open>auto simp: default_connection_status_def\<close>)

end

end
