(* ===== verification/Commands_Props.thy ===== *)
theory Commands_Props
  imports Commands
begin

text \<open>
  The engines as instances of what the commands need, the connection state machine in every
  sequence of commands, and what concurrent commands and unreliable platforms do to it.
\<close>

section \<open>The desktop engine\<close>

definition engine_ok :: "target_os \<Rightarrow> engine \<Rightarrow> bool" where
  "engine_ok os e \<longleftrightarrow>
     privileged_pid e = None \<and>
     (if os = MacOS then child e = None else \<not> macos_system_connected e)"

lemma polling_fields [simp, engine]:
  "child (start_stats_polling e) = child e" "child (stop_stats_polling e) = child e"
  "privileged_pid (start_stats_polling e) = privileged_pid e"
  "privileged_pid (stop_stats_polling e) = privileged_pid e"
  "macos_system_connected (start_stats_polling e) = macos_system_connected e"
  "macos_system_connected (stop_stats_polling e) = macos_system_connected e"
  "mobile_connected (start_stats_polling e) = mobile_connected e"
  "mobile_connected (stop_stats_polling e) = mobile_connected e"
  "olcrtc (start_stats_polling e) = olcrtc e" "olcrtc (stop_stats_polling e) = olcrtc e"
  by (simp_all add: start_stats_polling_def stop_stats_polling_def)

lemma keep_take_fields [simp, engine]:
  "child (keep_runtime rt e) = child e" "child (take_runtime e) = child e"
  "privileged_pid (keep_runtime rt e) = privileged_pid e"
  "privileged_pid (take_runtime e) = privileged_pid e"
  "macos_system_connected (keep_runtime rt e) = macos_system_connected e"
  "macos_system_connected (take_runtime e) = macos_system_connected e"
  "olcrtc (keep_runtime rt e) = rt" "olcrtc (take_runtime e) = None"
  by (simp_all add: keep_runtime_def take_runtime_def)

lemma start_core_outcome:
  "start_core os ws path rt a e = (r, e') \<Longrightarrow>
     privileged_pid e' = privileged_pid e \<and> macos_system_connected e' = macos_system_connected e \<and>
     (case r of Inr _ \<Rightarrow> child e' \<noteq> None | Inl _ \<Rightarrow> child e' = child e)"
  by (auto simp: start_core_def Let_def split: sum.splits option.splits)

lemma start_macos_outcome:
  "start_macos opts cfg ws rt a e = (r, e') \<Longrightarrow>
     privileged_pid e' = privileged_pid e \<and> child e' = child e \<and>
     (case r of Inr _ \<Rightarrow> macos_system_connected e'
      | Inl _ \<Rightarrow> macos_system_connected e' = macos_system_connected e)"
  by (auto simp: start_macos_def Let_def split: sum.splits)

lemma start_desktop_outcome:
  assumes "engine_ok os e" and "start_desktop os opts a e = (r, e')"
  shows "engine_ok os e' \<and> (case r of Inr _ \<Rightarrow> is_running e' \<and> \<not> is_running e | Inl _ \<Rightarrow> is_running e' = is_running e)"
  using assms(2)
proof (cases rule: start_desktop_cases)
  case (launched ws cfg path rt e1)
  have e1: "child e1 = child e" "privileged_pid e1 = privileged_pid e"
    "macos_system_connected e1 = macos_system_connected e"
    using launched(2) by auto
  show ?thesis
  proof (cases "os = MacOS")
    case True
    with launched(6) have "start_macos opts cfg ws rt a e1 = (r, e')" by simp
    from start_macos_outcome [OF this] e1 True launched(1,5) assms(1) show ?thesis
      by (auto simp: engine_ok_def is_running_def split: sum.splits)
  next
    case False
    with launched(6) have "start_core os ws path rt a e1 = (r, e')" by simp
    from start_core_outcome [OF this] e1 False launched(1) assms(1) show ?thesis
      by (auto simp: engine_ok_def is_running_def split: sum.splits)
  qed
qed (use assms(1) in \<open>auto simp: engine_ok_def is_running_def\<close>)

lemma stop_core_outcome:
  "stop_core a e = (r, e') \<Longrightarrow>
     child e' = None \<and> privileged_pid e' = privileged_pid e \<and>
     macos_system_connected e' = macos_system_connected e \<and> (child e = None \<longrightarrow> r \<noteq> Inr ())"
  by (auto simp: stop_core_def Let_def and_then_def split: option.splits kill_outcome.splits sum.splits)

lemma stop_desktop_outcome:
  assumes ok: "engine_ok os e" and stop: "stop_desktop os a e = (r, e')"
  shows "engine_ok os e' \<and> (r = Inr () \<longrightarrow> \<not> is_running e') \<and> (is_running e' \<longrightarrow> is_running e) \<and>
         (os \<noteq> MacOS \<longrightarrow> \<not> is_running e')"
proof (cases "os = MacOS \<and> macos_system_connected e")
  case True
  then have "stop_macos_tunnel a (stop_stats_polling e) = (r, e')"
    using stop by (simp add: stop_desktop_def)
  with ok True show ?thesis
    by (auto simp: stop_macos_tunnel_def Let_def engine_ok_def is_running_def split: sum.splits)
next
  case False
  then have "stop_core a (stop_stats_polling e) = (r, e')"
    using stop ok by (auto simp: stop_desktop_def engine_ok_def split: if_splits)
  from stop_core_outcome [OF this] ok False show ?thesis
    by (auto simp: engine_ok_def is_running_def split: if_splits)
qed

interpretation desk: command_engine "\<lambda>(opts, a). start_desktop os opts a" "stop_desktop os"
  is_running "engine_ok os"
  for os
proof unfold_locales
  fix e e' :: engine and x :: "connect_options \<times> start_answers" and ws err y
  assume ok: "engine_ok os e"
  obtain opts a where x: "x = (opts, a)" by (cases x)
  show "(case x of (opts, a) \<Rightarrow> start_desktop os opts a) e = (Inr ws, e') \<Longrightarrow> is_running e' \<and> engine_ok os e'"
    using start_desktop_outcome [OF ok] x by fastforce
  show "(case x of (opts, a) \<Rightarrow> start_desktop os opts a) e = (Inl err, e') \<Longrightarrow>
      is_running e' = is_running e \<and> engine_ok os e'"
    using start_desktop_outcome [OF ok] x by fastforce
  show "stop_desktop os y e = (Inr (), e') \<Longrightarrow> \<not> is_running e' \<and> engine_ok os e'"
    using stop_desktop_outcome [OF ok] by blast
  show "stop_desktop os y e = (Inl err, e') \<Longrightarrow> (is_running e' \<longrightarrow> is_running e) \<and> engine_ok os e'"
    using stop_desktop_outcome [OF ok] by blast
qed

interpretation core: reliable_engine "\<lambda>(opts, a). start_desktop os opts a" "stop_desktop os"
  is_running "\<lambda>e. engine_ok os e \<and> os \<noteq> MacOS"
  for os
proof unfold_locales
  fix e e' :: engine and x :: "connect_options \<times> start_answers" and ws err y r
  assume ok: "engine_ok os e \<and> os \<noteq> MacOS"
  obtain opts a where x: "x = (opts, a)" by (cases x)
  show "(case x of (opts, a) \<Rightarrow> start_desktop os opts a) e = (Inr ws, e') \<Longrightarrow>
      is_running e' \<and> engine_ok os e' \<and> os \<noteq> MacOS"
    using desk.start_done [of os e x] ok by simp
  show "(case x of (opts, a) \<Rightarrow> start_desktop os opts a) e = (Inl err, e') \<Longrightarrow>
      is_running e' = is_running e \<and> engine_ok os e' \<and> os \<noteq> MacOS"
    using desk.start_failed [of os e x] ok by simp
  show "stop_desktop os y e = (Inr (), e') \<Longrightarrow> \<not> is_running e' \<and> engine_ok os e' \<and> os \<noteq> MacOS"
    using desk.stop_done ok by blast
  show "stop_desktop os y e = (Inl err, e') \<Longrightarrow>
      (is_running e' \<longrightarrow> is_running e) \<and> engine_ok os e' \<and> os \<noteq> MacOS"
    using desk.stop_failed ok by blast
  show "stop_desktop os y e = (r, e') \<Longrightarrow> \<not> is_running e'"
    using stop_desktop_outcome ok by blast
  show "is_running e \<Longrightarrow> (case x of (opts, a) \<Rightarrow> start_desktop os opts a) e \<noteq> (Inr ws, e')"
    using start_desktop_outcome [of os e opts a "Inr ws" e'] ok x by auto
qed

section \<open>The mobile engine\<close>

lemma start_mobile_outcome:
  assumes "start_mobile os opts a e = (r, e')"
  shows "case r of Inr _ \<Rightarrow> mobile_connected e' \<and> mob_plugin a
                 | Inl _ \<Rightarrow> mobile_connected e' = mobile_connected e"
  using assms
  by (auto simp: start_mobile_def run_then_answer_eq wait_for_mobile_system_tunnel_def run_then_def
      perform_def split: if_splits sum.splits)

lemma stop_mobile_outcome:
  assumes "stop_mobile a e = (r, e')"
  shows "case r of Inr _ \<Rightarrow> \<not> mobile_connected e' | Inl _ \<Rightarrow> mobile_connected e' = mobile_connected e"
  using assms by (auto simp: stop_mobile_def split: if_splits sum.splits)

interpretation mobile: command_engine "\<lambda>(os, opts, a). start_mobile os opts a" stop_mobile
  mobile_connected "\<lambda>_. True"
proof unfold_locales
  fix e e' :: engine and x :: "target_os \<times> connect_options \<times> mobile_answers" and ws err y
  obtain os opts a where x: "x = (os, opts, a)" by (cases x)
  show "(case x of (os, opts, a) \<Rightarrow> start_mobile os opts a) e = (Inr ws, e') \<Longrightarrow>
      mobile_connected e' \<and> True"
    using start_mobile_outcome x by fastforce
  show "(case x of (os, opts, a) \<Rightarrow> start_mobile os opts a) e = (Inl err, e') \<Longrightarrow>
      mobile_connected e' = mobile_connected e \<and> True"
    using start_mobile_outcome x by fastforce
  show "stop_mobile y e = (Inr (), e') \<Longrightarrow> \<not> mobile_connected e' \<and> True"
    using stop_mobile_outcome by fastforce
  show "stop_mobile y e = (Inl err, e') \<Longrightarrow> (mobile_connected e' \<longrightarrow> mobile_connected e) \<and> True"
    using stop_mobile_outcome by fastforce
qed

section \<open>Sequences of commands\<close>

inductive command_step :: "target_os \<Rightarrow> vpn_state \<Rightarrow> vpn_state \<Rightarrow> bool" for os where
  step_connect: "connect os a m opts s = (r, s') \<Longrightarrow> command_step os s s'"
| step_disconnect: "disconnect os b m s = (r, s') \<Longrightarrow> command_step os s s'"
| step_status: "status_command os parse_uuid m macos_up s = (r, s') \<Longrightarrow> command_step os s s'"

inductive commands_reachable :: "target_os \<Rightarrow> bool \<Rightarrow> vpn_state \<Rightarrow> bool" for os plugin where
  commands_init: "commands_reachable os plugin (vpn_state_new default_engine plugin)"
| commands_step: "commands_reachable os plugin s \<Longrightarrow> command_step os s s' \<Longrightarrow>
    commands_reachable os plugin s'"

text \<open>On Windows and Linux.\<close>

definition core_inv :: "target_os \<Rightarrow> vpn_state \<Rightarrow> bool" where
  "core_inv os s \<longleftrightarrow>
     engine_ok os (st_engine s) \<and> phase_true is_running s \<and>
     (is_running (st_engine s) \<longleftrightarrow> phase (st_status s) = Connected)"

lemma core_inv_step:
  assumes os: "\<not> is_mobile os" "os \<noteq> MacOS" and inv: "core_inv os s" and step: "command_step os s s'"
  shows "core_inv os s'"
  using step
proof cases
  case (step_connect a m opts r)
  then have c: "connect_with ((\<lambda>(opts, a). start_desktop os opts a) (opts, a)) opts s = (r, s')"
    using os by (simp add: connect_def engine_start_def)
  show ?thesis
    using inv os(2) desk.connect_keeps [OF _ _ c] core.connect_exact [OF _ _ c] by (simp add: core_inv_def)
next
  case (step_disconnect b m r)
  then have d: "disconnect_with (stop_desktop os b) s = (r, s')"
    using os by (simp add: disconnect_def engine_stop_def)
  show ?thesis
    using inv os(2) desk.disconnect_keeps [OF _ d] core.disconnect_exact [OF _ d] by (simp add: core_inv_def)
next
  case (step_status parse_uuid m macos_up r)
  then have "s' = s" using os by (simp add: status_command_def)
  with inv show ?thesis by simp
qed

lemma default_not_running: "\<not> is_running default_engine" "engine_ok os default_engine"
  by (simp_all add: is_running_def engine_ok_def default_engine_def)

lemma core_reachable_inv:
  assumes "\<not> is_mobile os" and "os \<noteq> MacOS" and "commands_reachable os plugin s"
  shows "core_inv os s"
  using assms(3)
proof (induction rule: commands_reachable.induct)
  case commands_init
  then show ?case
    by (simp add: core_inv_def vpn_state_new_def default_not_running phase_true_def
        default_connection_status_def)
next
  case (commands_step s s')
  then show ?case using core_inv_step assms(1,2) by blast
qed

text \<open>C8: On Windows and Linux, after any sequence of commands run one after the other, each finished before
  the next begins, with any outcome of the processes they start, the phase is Connected exactly when the
  engine holds a core, and it is never left at Connecting. For commands that overlap this fails:
  \<open>stale_connected\<close> in \<open>Command_Races\<close> ends Connected with no core.\<close>

theorem desktop_phase_exact:
  assumes "\<not> is_mobile os" and "os \<noteq> MacOS" and "commands_reachable os plugin s"
  shows "(phase (st_status s) = Connected \<longleftrightarrow> is_running (st_engine s)) \<and>
         phase (st_status s) \<noteq> Connecting"
  using core_reachable_inv [OF assms] by (auto simp: core_inv_def phase_true_def)

definition sample_connected :: vpn_state where
  "sample_connected = snd (connect Linux good_answers sample_mobile sample_options (vpn_state_new default_engine False))"

lemma sample_connected_reachable: "commands_reachable Linux False sample_connected"
  unfolding sample_connected_def
  by (rule commands_step [OF commands_init step_connect [OF prod.collapse [symmetric]]])

lemma sample_start: "\<exists>ws. start_desktop Linux sample_options good_answers default_engine = (Inr ws, sample_running)"
proof -
  obtain r where s: "start_desktop Linux sample_options good_answers default_engine = (r, sample_running)"
    unfolding sample_running_def by (metis prod.collapse)
  have "is_running sample_running" by (simp add: is_running_def sample_running_eq)
  then show ?thesis
    using start_desktop_outcome [OF default_not_running(2) s] default_not_running(1) s
    by (auto split: sum.splits)
qed

lemma sample_connected_engine: "st_engine sample_connected = sample_running"
proof -
  obtain ws where "start_desktop Linux sample_options good_answers default_engine = (Inr ws, sample_running)"
    using sample_start by blast
  then show ?thesis
    by (simp add: sample_connected_def connect_def connect_with_def connect_begin_def vpn_state_new_def
        default_connection_status_def engine_start_def is_mobile_def on_engine_def connect_finish_def Let_def)
qed

theorem desktop_phase_exact_witness: "phase (st_status sample_connected) = Connected"
proof -
  have "is_running (st_engine sample_connected)"
    by (simp add: sample_connected_engine is_running_def sample_running_eq)
  then show ?thesis
    using desktop_phase_exact [OF _ _ sample_connected_reachable] by (simp add: is_mobile_def)
qed

text \<open>On Android and iOS; the plugin handle is fixed when the state is made.\<close>

definition mobile_inv :: "bool \<Rightarrow> vpn_state \<Rightarrow> bool" where
  "mobile_inv plugin s \<longleftrightarrow>
     st_mobile s = plugin \<and> phase_true mobile_connected s \<and>
     (mobile_connected (st_engine s) \<longrightarrow> plugin)"

lemma start_mobile_plugin:
  "start_mobile os opts (a\<lparr>mob_plugin := plugin\<rparr>) e = (r, e') \<Longrightarrow>
     (mobile_connected e \<longrightarrow> plugin) \<Longrightarrow> mobile_connected e' \<longrightarrow> plugin"
  using start_mobile_outcome [of os opts "a\<lparr>mob_plugin := plugin\<rparr>" e r e'] by (auto split: sum.splits)

lemma recovered_phase_true:
  assumes "phase (st_status s) \<noteq> Connecting"
  shows "phase (recover_phase up (st_status s)) \<noteq> Connecting \<and>
     (phase (recover_phase up (st_status s)) = Connected \<longrightarrow> up) \<and>
     (phase (recover_phase up (st_status s)) = Disconnected \<longrightarrow> \<not> up)"
  using assms by (auto simp: recover_phase_def)

lemma status_mobile_inv:
  assumes inv: "mobile_inv plugin s" and os: "is_mobile os"
    and st: "status_command os parse_uuid m macos_up s = (r, s')"
  shows "mobile_inv plugin s'"
proof -
  obtain q e where q: "get_mobile_status (m\<lparr>mob_plugin := plugin\<rparr>) (st_engine s) = (q, e)" by fastforce
  have plugin: "st_mobile s = plugin" and true: "phase_true mobile_connected s"
    and held: "mobile_connected (st_engine s) \<longrightarrow> plugin"
    using inv by (simp_all add: mobile_inv_def)
  show ?thesis
  proof (cases q)
    case (Inl err)
    then have "e = st_engine s" using q by (auto simp: get_mobile_status_def split: if_splits sum.splits)
    with Inl q st os inv show ?thesis by (auto simp: status_command_def plugin on_engine_def Let_def)
  next
    case (Inr res)
    obtain up profile where res: "res = (up, profile)" by (cases res)
    have flag: "mobile_connected (emit_traffic st x) = mobile_connected x" for st x
      by (simp add: emit_traffic_def split: option.split)
    have up: "mobile_connected e = up \<and> (up \<longrightarrow> plugin)"
      using q Inr res held by (auto simp: get_mobile_status_def flag split: if_splits sum.splits)
    have s': "st_engine s' = e" "st_mobile s' = plugin"
      "phase (st_status s') = phase (recover_phase up (st_status s))"
      using st q Inr res os plugin
      by (auto simp: status_command_def on_engine_def Let_def split: option.splits if_splits)
    show ?thesis
      using up s' recovered_phase_true [of s up] true by (auto simp: mobile_inv_def phase_true_def)
  qed
qed

lemma mobile_inv_step:
  assumes os: "is_mobile os" and inv: "mobile_inv plugin s" and step: "command_step os s s'"
  shows "mobile_inv plugin s'"
  using step
proof cases
  case (step_connect a m opts r)
  let ?m = "m\<lparr>mob_plugin := plugin\<rparr>"
  from step_connect have c: "connect_with ((\<lambda>(os, opts, a). start_mobile os opts a) (os, opts, ?m)) opts s = (r, s')"
    using os inv by (simp add: connect_def engine_start_def mobile_inv_def)
  have true: "phase_true mobile_connected s'"
    using mobile.connect_keeps [OF _ _ c] inv by (simp add: mobile_inv_def)
  have held: "mobile_connected (st_engine s) \<longrightarrow> plugin" "st_mobile s = plugin"
    using inv by (simp_all add: mobile_inv_def)
  from c have "(mobile_connected (st_engine s') \<longrightarrow> plugin) \<and> st_mobile s' = plugin"
  proof (cases rule: connect_with_cases)
    case refused
    with held show ?thesis by simp
  next
    case (connected ws e')
    then have "start_mobile os opts ?m (st_engine s) = (Inr ws, e')" by simp
    from start_mobile_plugin [OF this held(1)] connected held(2) show ?thesis by simp
  next
    case (failed err e')
    then have "start_mobile os opts ?m (st_engine s) = (Inl err, e')" by simp
    from start_mobile_plugin [OF this held(1)] failed held(2) show ?thesis by simp
  qed
  with true show ?thesis by (simp add: mobile_inv_def)
next
  case (step_disconnect b m r)
  let ?m = "m\<lparr>mob_plugin := plugin\<rparr>"
  from step_disconnect have d: "disconnect_with (stop_mobile ?m) s = (r, s')"
    using os inv by (simp add: disconnect_def engine_stop_def mobile_inv_def)
  have true: "phase_true mobile_connected s'"
    using mobile.disconnect_keeps [OF _ d] by simp
  from d show ?thesis
    by (cases rule: disconnect_with_cases)
      (use inv true mobile.stop_done mobile.stop_failed in \<open>auto simp: mobile_inv_def\<close>)
next
  case (step_status parse_uuid m macos_up r)
  with status_mobile_inv inv os show ?thesis by blast
qed

lemma mobile_reachable_inv:
  assumes "is_mobile os" and "commands_reachable os plugin s"
  shows "mobile_inv plugin s"
  using assms(2)
proof (induction rule: commands_reachable.induct)
  case commands_init
  then show ?case
    by (simp add: mobile_inv_def vpn_state_new_def phase_true_def default_connection_status_def
        default_engine_def)
next
  case (commands_step s s')
  then show ?case using mobile_inv_step assms(1) by blast
qed

text \<open>C20: On Android and iOS, after any sequence of commands run one after the other, each finished before the
  next begins, and with any answers of the native plugin, a phase of Connected or Disconnected is what
  the engine believes of the native tunnel, and the phase is never left at Connecting. Commands whose
  parts overlap are the subject of \<open>Mobile_Races\<close>, where this does not hold in general.\<close>

theorem mobile_phase_true:
  assumes "is_mobile os" and "commands_reachable os plugin s"
  shows "phase (st_status s) \<noteq> Connecting \<and>
    (if mobile_connected (st_engine s) then phase (st_status s) \<noteq> Disconnected
     else phase (st_status s) \<noteq> Connected)"
  using mobile_reachable_inv [OF assms] by (auto simp: mobile_inv_def phase_true_def)

definition sample_recovered :: vpn_state where
  "sample_recovered =
     snd (status_command Android (\<lambda>_. None) sample_mobile (Inr False) (vpn_state_new default_engine True))"

theorem mobile_phase_true_witness: "phase (st_status sample_recovered) \<noteq> Disconnected"
proof -
  have r: "commands_reachable Android True sample_recovered"
    unfolding sample_recovered_def
    by (rule commands_step [OF commands_init step_status [OF prod.collapse [symmetric]]])
  have "mobile_connected (st_engine sample_recovered)"
    by (simp add: sample_recovered_def status_command_def is_mobile_def on_engine_def vpn_state_new_def
        get_mobile_status_def sample_mobile_def upt_conv_Cons emit_traffic_def Let_def split: prod.split)
  then show ?thesis using mobile_phase_true [OF _ r] by (simp add: is_mobile_def)
qed

section \<open>Outcomes\<close>

text \<open>What connecting reports. It is refused, with nothing changed, exactly while a connection is up or
  coming up; otherwise the engine runs once, its result decides between Connected (with its first
  warning) and Failed (with the text of its error), the profile is the active one, and the
  listeners get the Connecting status and then the final one.\<close>

theorem connect_reports:
  "connect os a m opts s =
     (if phase (st_status s) = Connected \<or> phase (st_status s) = Connecting
      then (Inl AlreadyRunning, s)
      else
        let (r, e) = engine_start os opts a (m\<lparr>mob_plugin := st_mobile s\<rparr>) (st_engine s);
            connecting = (st_status s)\<lparr>phase := Connecting,
              active_profile_id := Some (profile_id (opt_profile opts)), message := Some ''Connecting''\<rparr>;
            final = (case r of
                Inr ws \<Rightarrow> connecting\<lparr>phase := Connected,
                  message := Some (case ws of [] \<Rightarrow> ''Connected'' | w # _ \<Rightarrow> w)\<rparr>
              | Inl err \<Rightarrow> connecting\<lparr>phase := Failed, message := Some (error_display err)\<rparr>)
        in (case r of Inr _ \<Rightarrow> Inr final | Inl err \<Rightarrow> Inl err,
            s\<lparr>st_engine := e, st_status := final,
              st_events := st_events s @ [(''vpn:status'', connecting),
                (case r of Inr _ \<Rightarrow> ''vpn:status'' | Inl _ \<Rightarrow> ''vpn:error'', final)]\<rparr>))"
  by (auto simp: connect_def connect_with_def connect_begin_def connect_finish_def on_engine_def
      emit_def set_status_def Let_def split: prod.split sum.split list.split)

section \<open>Events\<close>

text \<open>The listener of the events has seen the current status.\<close>

definition announced_status :: "vpn_state \<Rightarrow> bool" where
  "announced_status s \<longleftrightarrow>
     (if st_events s = [] then st_status s = default_connection_status
      else snd (last (st_events s)) = st_status s)"

lemma connect_with_announces:
  assumes "announced_status s" and "connect_with start opts s = (r, s')"
  shows "announced_status s'"
  using assms
  by (auto simp: connect_with_def connect_begin_def connect_finish_def on_engine_def announced_status_def
      emit_def set_status_def Let_def split: if_splits prod.splits sum.splits)

lemma disconnect_with_announces:
  assumes "disconnect_with stop s = (r, s')"
  shows "announced_status s'"
  using assms
  by (auto simp: disconnect_with_def disconnect_begin_def disconnect_finish_def on_engine_def
      announced_status_def emit_def set_status_def Let_def split: prod.splits sum.splits)

text \<open>C21: The events keep the user interface current. On Windows and Linux, after any sequence of commands
  with any outcome, the status the commands hold is the one of the last event, or the initial one
  if there was no event.\<close>

theorem events_current:
  assumes "\<not> is_mobile os" and "os \<noteq> MacOS" and "commands_reachable os plugin s"
  shows "if st_events s = [] then st_status s = default_connection_status
         else \<exists>before event. st_events s = before @ [(event, st_status s)]"
proof -
  have "announced_status s"
    using assms(3)
  proof (induction rule: commands_reachable.induct)
    case commands_init
    then show ?case by (simp add: announced_status_def vpn_state_new_def)
  next
    case (commands_step s s')
    from commands_step.hyps(2) show ?case
    proof cases
      case (step_connect a m opts r)
      with commands_step.IH connect_with_announces show ?thesis unfolding connect_def by blast
    next
      case (step_disconnect b m r)
      with disconnect_with_announces show ?thesis unfolding disconnect_def by blast
    next
      case (step_status parse_uuid m macos_up r)
      with assms(1,2) commands_step.IH show ?thesis by (simp add: status_command_def)
    qed
  qed
  then show ?thesis
    by (cases "st_events s" rule: rev_cases) (auto simp: announced_status_def)
qed

theorem events_current_witness:
  "\<exists>before event. st_events sample_connected = before @ [(event, st_status sample_connected)]"
proof -
  obtain ws where "start_desktop Linux sample_options good_answers default_engine = (Inr ws, sample_running)"
    using sample_start by blast
  then have "st_events sample_connected \<noteq> []"
    by (simp add: sample_connected_def connect_def connect_with_def connect_begin_def vpn_state_new_def emit_def
        default_connection_status_def engine_start_def is_mobile_def on_engine_def connect_finish_def Let_def
        set_status_def)
  then show ?thesis
    using events_current [OF _ _ sample_connected_reachable] by (simp add: is_mobile_def)
qed

text \<open>On macOS a recovered connection is reported to the caller only: the status changes and no event says so.\<close>

lemma recovery_is_silent:
  assumes "phase (st_status s) = Disconnected" and "status_command MacOS parse_uuid m (Inr True) s = (r, s')"
  shows "st_events s' = st_events s \<and> phase (st_status s') = Connected"
  using assms by (auto simp: status_command_def recover_phase_def set_status_def is_mobile_def split: if_splits)

text \<open>Disconnecting when nothing runs leaves the status stuck: on Windows and Linux the command
  fails, the phase stays at Disconnecting, and asking for the status never changes that.\<close>

theorem disconnect_idle_sticks:
  assumes "\<not> is_mobile os" and "os \<noteq> MacOS" and "commands_reachable os plugin s"
    and "phase (st_status s) = Disconnected" and "disconnect os b m s = (r, s')"
  shows "(\<exists>err. r = Inl err) \<and> phase (st_status s') = Disconnecting \<and>
         snd (status_command os parse_uuid m' macos_up s') = s'"
proof -
  have "\<not> is_running (st_engine s)"
    using core_reachable_inv [OF assms(1-3)] assms(4) by (simp add: core_inv_def)
  then have idle: "child (stop_stats_polling (st_engine s)) = None" by (simp add: is_running_def)
  from assms(5) have d: "disconnect_with (stop_desktop os b) s = (r, s')"
    using assms(1) by (simp add: disconnect_def engine_stop_def)
  have "stop_desktop os b (st_engine s) \<noteq> (Inr (), e')" for e'
    using stop_core_outcome [of b "stop_stats_polling (st_engine s)"] idle assms(2)
    by (auto simp: stop_desktop_def)
  with d have "(\<exists>err. r = Inl err) \<and> phase (st_status s') = Disconnecting"
    by (cases rule: disconnect_with_cases) auto
  then show ?thesis using assms(1,2) by (simp add: status_command_def)
qed

theorem disconnect_idle_sticks_witness:
  "phase (st_status (snd (disconnect Linux good_stop sample_mobile (vpn_state_new default_engine False)))) =
     Disconnecting"
proof -
  have "phase (st_status (vpn_state_new default_engine False)) = Disconnected"
    by (simp add: vpn_state_new_def default_connection_status_def)
  from disconnect_idle_sticks [OF _ _ commands_init this prod.collapse [symmetric], of Linux]
  show ?thesis by (simp add: is_mobile_def)
qed

text \<open>On macOS a recovered connection cannot be ended. When the status query finds the system tunnel
  up, the phase becomes Connected while the engine does not know of a tunnel; disconnecting then
  fails, sends the tunnel no stop, and leaves the phase at Disconnecting.\<close>

theorem macos_recovered_stuck:
  assumes "engine_ok MacOS (st_engine s)" and "\<not> is_running (st_engine s)"
    and "phase (st_status s) = Disconnected"
    and "status_command MacOS parse_uuid m (Inr True) s = (q, s1)"
    and "disconnect MacOS b m' s1 = (r, s2)"
  shows "phase (st_status s1) = Connected \<and> (\<exists>err. r = Inl err) \<and>
         phase (st_status s2) = Disconnecting \<and> effects (st_engine s2) = effects (st_engine s)"
proof -
  have s1: "s1 = set_status (recover_phase True) s"
    using assms(4) by (simp add: status_command_def is_mobile_def)
  have e1: "st_engine s1 = st_engine s" by (simp add: s1)
  have idle: "child (st_engine s) = None" "\<not> macos_system_connected (st_engine s)"
    "privileged_pid (st_engine s) = None"
    using assms(2) by (simp_all add: is_running_def)
  from assms(5) have d: "disconnect_with (stop_desktop MacOS b) s1 = (r, s2)"
    by (simp add: disconnect_def engine_stop_def is_mobile_def)
  have stop: "stop_desktop MacOS b (st_engine s1) = (x, e) \<Longrightarrow>
      effects e = effects (st_engine s) \<and> x \<noteq> Inr ()" for x e
    using idle by (auto simp: e1 stop_desktop_def stop_core_def Let_def stop_stats_polling_def
        and_then_def split: sum.splits)
  have "(\<exists>err. r = Inl err) \<and> phase (st_status s2) = Disconnecting \<and>
      effects (st_engine s2) = effects (st_engine s)"
    using d by (cases rule: disconnect_with_cases) (auto dest: stop)
  moreover have "phase (st_status s1) = Connected" using assms(3) by (simp add: s1 recover_phase_def)
  ultimately show ?thesis by blast
qed

theorem macos_recovered_stuck_witness:
  "\<exists>s1 s2. status_command MacOS (\<lambda>_. None) sample_mobile (Inr True) (vpn_state_new default_engine False) =
       (Inr (st_status s1), s1) \<and> phase (st_status s1) = Connected \<and>
     phase (st_status (snd (disconnect MacOS good_stop sample_mobile s1))) = Disconnecting"
proof -
  let ?s = "vpn_state_new default_engine False"
  obtain s1 where s1: "status_command MacOS (\<lambda>_. None) sample_mobile (Inr True) ?s = (Inr (st_status s1), s1)"
    by (simp add: status_command_def is_mobile_def Let_def)
  have "engine_ok MacOS (st_engine ?s)" "\<not> is_running (st_engine ?s)" "phase (st_status ?s) = Disconnected"
    by (simp_all add: vpn_state_new_def engine_ok_def is_running_def default_engine_def
        default_connection_status_def)
  from macos_recovered_stuck [OF this s1 prod.collapse [symmetric], of good_stop sample_mobile] s1
  show ?thesis by blast
qed

end
