(* ===== verification/Windows_Cleanup.thy ===== *)
theory Windows_Cleanup
  imports Script_Quoting
begin

text \<open>
  The clean-up of stale cores on Windows (\<open>cleanup_desktop_artifacts_blocking\<close> of \<open>src/engine.rs\<close>): the
  PowerShell script, the command that runs it, and what the script asks to be stopped.
\<close>

section \<open>The command\<close>

text \<open>The script as the lines between the newlines of the literal.\<close>

definition cleanup_script_lines :: "string list" where
  "cleanup_script_lines =
     [''$ErrorActionPreference = 'SilentlyContinue'' @ [CHR 0x27],
      ''$target = [System.IO.Path]::GetFullPath($env:KOSTRA_VPN_CONFIG_PATH)'',
      ''Get-CimInstance Win32_Process |'',
      ''  Where-Object { $_.Name -ieq 'sing-box.exe' -and $_.CommandLine -and $_.CommandLine.Contains($target) } |'',
      ''  ForEach-Object { Stop-Process -Id $_.ProcessId -Force -ErrorAction SilentlyContinue }'',
      [],
      ''Get-NetTCPConnection -LocalAddress '127.0.0.1' -LocalPort 2080 -State Listen |'',
      ''  ForEach-Object {'',
      ''    $process = Get-CimInstance Win32_Process -Filter '' @ [CHR 0x22] @ ''ProcessId=$($_.OwningProcess)'' @ [CHR 0x22],
      ''    if ($process -and $process.Name -ieq 'sing-box.exe') {'',
      ''      Stop-Process -Id $_.OwningProcess -Force -ErrorAction SilentlyContinue'',
      ''    }'',
      ''  }'',
      [],
      ''Start-Sleep -Milliseconds 250'',
      [],
      ''$indices = @'' @ ''{}'',
      ''Get-NetIPAddress -AddressFamily IPv4 -IPAddress '172.19.0.1' |'',
      ''  ForEach-Object { $indices[$_.InterfaceIndex] = $true }'',
      ''Get-NetAdapter |'',
      ''  Where-Object { $_.Name -like 'tun*' -or $_.InterfaceDescription -like '*sing-tun*' } |'',
      ''  ForEach-Object { $indices[$_.ifIndex] = $true }'',
      [],
      ''foreach ($index in $indices.Keys) {'',
      ''  Get-NetRoute -InterfaceIndex $index | Remove-NetRoute -Confirm:$false -ErrorAction SilentlyContinue'',
      ''  Get-NetIPAddress -InterfaceIndex $index | Remove-NetIPAddress -Confirm:$false -ErrorAction SilentlyContinue'',
      ''  Set-DnsClientServerAddress -InterfaceIndex $index -ResetServerAddresses -ErrorAction SilentlyContinue'',
      ''}'']"

definition windows_cleanup_script :: string where
  "windows_cleanup_script = CHR 0x0A # concat (map (\<lambda>line. line @ [CHR 0x0A]) cleanup_script_lines)"

record std_command =
  cmd_program :: string
  cmd_args :: "string list"
  cmd_env :: "(string \<times> string) list"

text \<open>\<open>canonicalize\<close> is the answer of the file system; without one the path is used as it is.\<close>

definition windows_cleanup_command :: "(string \<Rightarrow> string option) \<Rightarrow> string \<Rightarrow> std_command" where
  "windows_cleanup_command canonicalize config_path =
     \<lparr>cmd_program = ''powershell'',
      cmd_args = [''-NoProfile'', ''-ExecutionPolicy'', ''Bypass'', ''-Command'', windows_cleanup_script],
      cmd_env = [(''KOSTRA_VPN_CONFIG_PATH'', unwrap_or (canonicalize config_path) config_path)]\<rparr>"

datatype exit_outcome = CannotRun string | ExitedWith bool string

definition windows_cleanup ::
    "(std_command \<Rightarrow> exit_outcome) \<Rightarrow> (string \<Rightarrow> string option) \<Rightarrow> string \<Rightarrow> unit vpn_result" where
  "windows_cleanup run canonicalize config_path =
     (case run (windows_cleanup_command canonicalize config_path) of
        CannotRun e \<Rightarrow> Inl (Engine (''failed to clean up stale Windows TUN state: '' @ e))
      | ExitedWith success status \<Rightarrow>
          if success then Inr ()
          else Inl (Engine (''Windows TUN cleanup exited with status '' @ status)))"

section \<open>What the script does\<close>

text \<open>\<open>-ieq\<close> and \<open>-like\<close> do not distinguish case.\<close>

definition lower_char :: "char \<Rightarrow> char" where
  "lower_char c = (if 65 \<le> (of_char c :: nat) \<and> (of_char c :: nat) \<le> 90 then char_of ((of_char c :: nat) + 32) else c)"

definition ieq :: "string \<Rightarrow> string \<Rightarrow> bool" where
  "ieq s t \<longleftrightarrow> map lower_char s = map lower_char t"

record win_process =
  wp_id :: nat
  wp_name :: string
  wp_command_line :: "string option"

text \<open>
  The first pass: every \<open>sing-box.exe\<close> whose command line contains \<open>$target\<close>, the full path of the
  variable. The second: the owners of listeners on port 2080 that are \<open>sing-box.exe\<close>.
\<close>

definition stale_by_path :: "string \<Rightarrow> win_process list \<Rightarrow> nat list" where
  "stale_by_path target procs =
     map wp_id (filter (\<lambda>p. ieq (wp_name p) ''sing-box.exe'' \<and>
        (case wp_command_line p of None \<Rightarrow> False | Some line \<Rightarrow> line \<noteq> [] \<and> sublist target line)) procs)"

definition stale_by_port :: "win_process list \<Rightarrow> nat list \<Rightarrow> nat list" where
  "stale_by_port procs owners =
     filter (\<lambda>owner. case find (\<lambda>p. wp_id p = owner) procs of
        None \<Rightarrow> False | Some p \<Rightarrow> ieq (wp_name p) ''sing-box.exe'') owners"

text \<open>The path the script works with: \<open>full_path\<close> is \<open>GetFullPath\<close>.\<close>

definition script_target :: "(string \<Rightarrow> string) \<Rightarrow> std_command \<Rightarrow> string" where
  "script_target full_path cmd =
     full_path (unwrap_or (map_of (cmd_env cmd) ''KOSTRA_VPN_CONFIG_PATH'') [])"

section \<open>The first pass misses the cores of the plugin\<close>

text \<open>\<open>canonicalize\<close> gives a verbatim path on Windows, with this prefix.\<close>

definition verbatim_prefix :: string where
  "verbatim_prefix = [backslash, backslash, CHR ''?'', backslash]"

text \<open>A command line as the engine starts the core: \<open>run -c\<close> and the path, each argument quoted.\<close>

definition core_command_line :: "(string \<Rightarrow> string) \<Rightarrow> string \<Rightarrow> string \<Rightarrow> string" where
  "core_command_line quote binary config_path =
     quote binary @ '' run -c '' @ quote config_path"

lemma sublist_middle: "sublist t (xs @ t @ ys)"
  by (auto simp: sublist_def)

text \<open>
  The engine starts its core with the path as it is, and the script is given the canonical one. On
  Windows that is the verbatim form, which \<open>GetFullPath\<close> keeps, and no part of a Windows path can
  hold a question mark: the first pass stops no core of the plugin. With the path as it is, it
  would stop exactly these.
\<close>

theorem canonical_path_misses:
  assumes "canonicalize config_path = Some (verbatim_prefix @ canonical)"
    and "\<And>p. full_path (verbatim_prefix @ p) = verbatim_prefix @ p"
    and "full_path config_path = config_path"
    and "\<And>s. set (quote s) \<subseteq> insert double_quote (insert backslash (set s))"
    and "\<exists>xs ys. quote config_path = xs @ config_path @ ys"
    and "CHR ''?'' \<notin> set binary" and "CHR ''?'' \<notin> set config_path"
    and "wp_command_line core = Some (core_command_line quote binary config_path)"
    and "wp_name core = ''sing-box.exe''"
  shows "stale_by_path (script_target full_path (windows_cleanup_command canonicalize config_path)) [core] = [] \<and>
     stale_by_path (script_target full_path (windows_cleanup_command (\<lambda>p. None) config_path)) [core] = [wp_id core]"
proof -
  let ?line = "core_command_line quote binary config_path"
  have targets: "script_target full_path (windows_cleanup_command canonicalize config_path) = verbatim_prefix @ canonical"
    "script_target full_path (windows_cleanup_command (\<lambda>p. None) config_path) = config_path"
    using assms(1-3) by (simp_all add: script_target_def windows_cleanup_command_def)
  have "CHR ''?'' \<notin> set (quote s)" if "CHR ''?'' \<notin> set s" for s
    using assms(4) [of s] that by (auto simp: double_quote_def backslash_def)
  with assms(6,7) have "CHR ''?'' \<notin> set ?line" by (simp add: core_command_line_def)
  moreover have "CHR ''?'' \<in> set (verbatim_prefix @ canonical)" by (simp add: verbatim_prefix_def)
  ultimately have miss: "\<not> sublist (verbatim_prefix @ canonical) ?line"
    using set_mono_sublist by blast
  obtain xs ys where "quote config_path = xs @ config_path @ ys" using assms(5) by blast
  then have "sublist config_path ?line"
    using sublist_middle [of config_path "quote binary @ '' run -c '' @ xs" ys] by (simp add: core_command_line_def)
  moreover have "?line \<noteq> []" by (simp add: core_command_line_def)
  ultimately show ?thesis
    using miss assms(8,9) by (simp add: targets stale_by_path_def ieq_def)
qed

text \<open>A path with a space, so the argument is quoted.\<close>

definition sample_core :: win_process where
  "sample_core = \<lparr>wp_id = 7, wp_name = ''sing-box.exe'',
     wp_command_line = Some (core_command_line (\<lambda>s. double_quote # s @ [double_quote]) ''C:/app/sing-box.exe'' ''C:/My Data/c.json'')\<rparr>"

theorem canonical_path_misses_witness:
  "stale_by_path (script_target (\<lambda>p. p) (windows_cleanup_command (\<lambda>p. Some (verbatim_prefix @ p)) ''C:/My Data/c.json'')) [sample_core] = []"
proof -
  have "\<exists>xs ys. double_quote # ''C:/My Data/c.json'' @ [double_quote] = xs @ ''C:/My Data/c.json'' @ ys"
    by (rule exI [of _ "[double_quote]"], rule exI [of _ "[double_quote]"]) simp
  then show ?thesis
    by (intro canonical_path_misses [where core = sample_core and full_path = "\<lambda>p. p" and
          canonicalize = "\<lambda>p. Some (verbatim_prefix @ p)" and config_path = "''C:/My Data/c.json''" and
          canonical = "''C:/My Data/c.json''" and binary = "''C:/app/sing-box.exe''" and
          quote = "\<lambda>s. double_quote # s @ [double_quote]", THEN conjunct1])
      (auto simp: sample_core_def)
qed

end
