(* ===== verification/Engine_Tasks.thy ===== *)
theory Engine_Tasks
  imports Windows_Cleanup
begin

text \<open>
  The rest of \<open>src/engine.rs\<close>: the tasks that run beside the commands (traffic statistics and log
  lines), the file the configuration is written to, the clean-up of stale cores, and the
  privileged start of macOS. Texts that come from \<open>from_utf8_lossy\<close> are arguments.
\<close>

section \<open>Lines\<close>

text \<open>\<open>str::lines\<close>: a line ends with a newline, which is dropped with a carriage return before it.\<close>

definition strip_cr :: "string \<Rightarrow> string" where
  "strip_cr s = (if s \<noteq> [] \<and> last s = CHR 0x0D then butlast s else s)"

fun str_lines :: "string \<Rightarrow> string \<Rightarrow> string list" where
  "str_lines acc [] = (if acc = [] then [] else [acc])"
| "str_lines acc (c # s) =
     (if c = CHR 0x0A then strip_cr acc # str_lines [] s else str_lines (acc @ [c]) s)"

section \<open>Background tasks\<close>

text \<open>The answer to one request of the statistics: an error, or a body that may not decode.\<close>

type_synonym stats_answer = "string + (string + u64 \<times> u64)"

definition stats_url :: string where
  "stats_url = ''http://'' @ clash_api_addr @ ''/connections''"

definition stats_round :: "stats_answer \<Rightarrow> engine \<Rightarrow> engine" where
  "stats_round a =
     (case a of
        Inl e \<Rightarrow> log_line (''failed to query traffic stats: '' @ e)
      | Inr (Inl e) \<Rightarrow> log_line (''failed to decode traffic stats: '' @ e)
      | Inr (Inr (up, down)) \<Rightarrow>
          effect (StatsEmitted \<lparr>uploaded_bytes = up, downloaded_bytes = down\<rparr>))"

text \<open>The polling task until it is aborted: it has seen these answers.\<close>

definition stats_loop :: "stats_answer list \<Rightarrow> engine \<Rightarrow> engine" where
  "stats_loop answers e = fold stats_round answers e"

datatype line_read = LineRead string | LinesEnd | LineError string

text \<open>The log task of one stream; the flag tells that it has ended.\<close>

fun pipe_loop :: "string \<Rightarrow> line_read list \<Rightarrow> engine \<Rightarrow> bool \<times> engine" where
  "pipe_loop label [] e = (False, e)"
| "pipe_loop label (LineRead line # reads) e =
     pipe_loop label reads (log_line (''sing-box '' @ label @ '': '' @ line) e)"
| "pipe_loop label (LinesEnd # reads) e = (True, e)"
| "pipe_loop label (LineError err # reads) e =
     (True, log_line (''sing-box '' @ label @ '' read error: '' @ err) e)"

definition pipe_logs :: "line_read list option \<Rightarrow> string \<Rightarrow> engine \<Rightarrow> bool \<times> engine" where
  "pipe_logs stream label e =
     (case stream of None \<Rightarrow> (True, e) | Some reads \<Rightarrow> pipe_loop label reads e)"

section \<open>Files\<close>

definition runtime_config_path :: "string + components \<Rightarrow> components vpn_result" where
  "runtime_config_path local_data_dir =
     map_sum (\<lambda>e. Platform (''app data directory unavailable: '' @ e))
       (\<lambda>dir. dir @ [''sing-box.generated.json'']) local_data_dir"

text \<open>
  \<open>create_dir\<close> and \<open>write\<close> are the answers of the file system. The result carries the file written.
\<close>

definition write_runtime_config ::
    "string + components \<Rightarrow> (components \<Rightarrow> string + unit) \<Rightarrow> (components \<Rightarrow> string \<Rightarrow> string + unit) \<Rightarrow>
     string \<Rightarrow> components vpn_result" where
  "write_runtime_config local_data_dir create_dir write config_text =
     and_then (runtime_config_path local_data_dir) (\<lambda>config_path.
     and_then
       (case path_parent config_path of
          None \<Rightarrow> Inr ()
        | Some dir \<Rightarrow> map_err from_io_error (create_dir dir)) (\<lambda>_.
     and_then (map_err from_io_error (write config_path config_text)) (\<lambda>_.
       Inr config_path)))"

text \<open>\<open>stdin\<close> is \<^const>\<open>None\<close> when the child has no pipe.\<close>

definition write_child_stdin :: "(byte list \<Rightarrow> string + unit) option \<Rightarrow> byte list \<Rightarrow> unit vpn_result" where
  "write_child_stdin stdin input =
     (case stdin of None \<Rightarrow> Inr () | Some write \<Rightarrow> map_err from_io_error (write input))"

section \<open>Probing a port\<close>

datatype connect_outcome = ConnectTimedOut | ConnectFailed string | ConnectOk

definition tcp_connects :: "connect_outcome \<Rightarrow> bool" where
  "tcp_connects r = (case r of ConnectOk \<Rightarrow> True | _ \<Rightarrow> False)"

section \<open>The privileged core of macOS\<close>

text \<open>A status query of a process (\<open>lsof\<close>, \<open>ps\<close>): it cannot be run, or whether it succeeded.\<close>

definition status_success :: "string + bool \<Rightarrow> bool" where
  "status_success r = (case r of Inl _ \<Rightarrow> False | Inr b \<Rightarrow> b)"

text \<open>A program with its arguments; \<open>run\<close> says how a program that is only run for its status ended.\<close>

type_synonym program = "string \<times> string list"

definition listener_query :: program where
  "listener_query = (''lsof'', [''-tiTCP:2080'', ''-sTCP:LISTEN'', ''-a'', ''-c'', ''sing-box''])"

definition macos_has_sing_box_listener :: "(program \<Rightarrow> string + bool) \<Rightarrow> bool" where
  "macos_has_sing_box_listener run \<longleftrightarrow> status_success (run listener_query)"

definition macos_has_sing_box_listener_blocking :: "(program \<Rightarrow> string + bool) \<Rightarrow> bool" where
  "macos_has_sing_box_listener_blocking run \<longleftrightarrow> status_success (run listener_query)"

definition process_exists :: "(program \<Rightarrow> string + bool) \<Rightarrow> u32 \<Rightarrow> bool" where
  "process_exists run pid \<longleftrightarrow> status_success (run (''ps'', [''-p'', show_nat (unat pid)]))"

definition run_macos_admin_script :: "(string \<Rightarrow> run_outcome) \<Rightarrow> string \<Rightarrow> string vpn_result" where
  "run_macos_admin_script osascript shell_script =
     (case osascript (admin_script shell_script) of
        TimedOut \<Rightarrow> Inl (Engine ''administrator approval timed out'')
      | RunError e \<Rightarrow> Inl (Engine (''failed to request administrator approval: '' @ e))
      | Exited success out_text err_text \<Rightarrow>
          if success then Inr out_text
          else Inl (Engine (''administrator command failed: '' @ trim err_text)))"

definition privileged_log_path :: "components \<Rightarrow> components" where
  "privileged_log_path config_path = butlast config_path @ [''sing-box.macos.log'']"

text \<open>The paths of the script in their text form.\<close>

definition privileged_start_script :: "string \<Rightarrow> string \<Rightarrow> string \<Rightarrow> string" where
  "privileged_start_script binary config_path log_path =
     ''cd /; '' @ shell_quote binary @ '' run -c '' @ shell_quote config_path @ '' >> '' @
     shell_quote log_path @ '' 2>&1 < /dev/null & echo $!''"

definition last_pid :: "string \<Rightarrow> u32 option" where
  "last_pid out_text =
     (case List.map_filter (\<lambda>line. parse_u32 (trim line)) (rev (str_lines [] out_text)) of
        [] \<Rightarrow> None
      | pid # _ \<Rightarrow> Some pid)"

definition start_macos_privileged_sing_box ::
    "(string \<Rightarrow> run_outcome) \<Rightarrow> string \<Rightarrow> string \<Rightarrow> string \<Rightarrow> u32 engine_op" where
  "start_macos_privileged_sing_box osascript binary config_path log_path e =
     (let e1 = log_line ''macOS administrator approval is required to start the system tunnel'' e
      in (and_then
            (run_macos_admin_script osascript (privileged_start_script binary config_path log_path))
            (\<lambda>out_text. ok_or (last_pid out_text)
               (Engine (''failed to read privileged sing-box pid from osascript output: '' @ trim out_text))),
          e1))"

text \<open>\<open>contents\<close> is \<^const>\<open>None\<close> when the log cannot be read.\<close>

definition privileged_log_tail :: "string \<Rightarrow> string option \<Rightarrow> string" where
  "privileged_log_tail log_path contents =
     ''Log file: '' @ log_path @
     (case contents of
        None \<Rightarrow> []
      | Some s \<Rightarrow> CHR 0x0A # join [CHR 0x0A] (rev (take 12 (rev (str_lines [] s)))))"

fun privileged_rounds ::
    "u32 \<Rightarrow> (nat \<Rightarrow> connect_outcome \<times> connect_outcome) \<Rightarrow> (nat \<Rightarrow> program \<Rightarrow> string + bool) \<Rightarrow> string \<Rightarrow>
     nat list \<Rightarrow> unit vpn_result" where
  "privileged_rounds pid ports run tail [] =
     Inl (Engine (''sing-box did not open local proxy ports during startup. '' @ tail))"
| "privileged_rounds pid ports run tail (i # rounds) =
     (if tcp_connects (fst (ports i)) \<or> tcp_connects (snd (ports i)) then Inr ()
      else if \<not> process_exists (run i) pid
      then Inl (Engine (''sing-box administrator process exited during startup. '' @ tail))
      else privileged_rounds pid ports run tail rounds)"

definition wait_for_macos_privileged_readiness ::
    "u32 \<Rightarrow> (nat \<Rightarrow> connect_outcome \<times> connect_outcome) \<Rightarrow> (nat \<Rightarrow> program \<Rightarrow> string + bool) \<Rightarrow> string \<Rightarrow>
     unit vpn_result" where
  "wait_for_macos_privileged_readiness pid ports run tail =
     privileged_rounds pid ports run tail [0..<20]"

definition stop_macos_privileged_sing_box ::
    "(string \<Rightarrow> run_outcome) \<Rightarrow> u32 option \<Rightarrow> string \<Rightarrow> unit vpn_result" where
  "stop_macos_privileged_sing_box osascript pid config_path =
     and_then (run_macos_admin_script osascript (stop_script pid config_path)) (\<lambda>_. Inr ())"

section \<open>Clean-up of stale cores\<close>

text \<open>Linux: the processes killed, from what \<open>lsof\<close> lists.\<close>

definition linux_cleanup :: "string option \<Rightarrow> string list" where
  "linux_cleanup lsof_text =
     (case lsof_text of
        None \<Rightarrow> []
      | Some s \<Rightarrow> filter (\<lambda>pid. pid \<noteq> []) (map trim (str_lines [] s)))"

text \<open>macOS: the pattern script of the blocking clean-up, and its result.\<close>

definition blocking_cleanup_script :: "string \<Rightarrow> string" where
  "blocking_cleanup_script config_path =
     ''pkill -f '' @ shell_quote (''sing-box.*'' @ config_path) @
     '' 2>/dev/null || true; lsof -tiTCP:2080 -sTCP:LISTEN -a -c sing-box | xargs kill 2>/dev/null || true''"

definition macos_cleanup_blocking ::
    "(program \<Rightarrow> string + bool) \<Rightarrow> (string \<Rightarrow> exit_outcome) \<Rightarrow> string \<Rightarrow> unit vpn_result" where
  "macos_cleanup_blocking run osascript config_path =
     (if \<not> macos_has_sing_box_listener_blocking run then Inr ()
      else
        case osascript (admin_script (blocking_cleanup_script config_path)) of
          CannotRun e \<Rightarrow>
            Inl (Engine (''failed to request administrator cleanup on macOS: '' @ e))
        | ExitedWith success status \<Rightarrow>
            if success then Inr ()
            else Inl (Engine (''macOS administrator cleanup exited with status '' @ status)))"

record cleanup_env =
  clean_windows :: "std_command \<Rightarrow> exit_outcome"
  clean_canonicalize :: "string \<Rightarrow> string option"
  clean_run :: "program \<Rightarrow> string + bool"
  clean_osascript :: "string \<Rightarrow> run_outcome"
  clean_osascript_blocking :: "string \<Rightarrow> exit_outcome"

definition cleanup_desktop_artifacts :: "target_os \<Rightarrow> cleanup_env \<Rightarrow> string \<Rightarrow> unit vpn_result" where
  "cleanup_desktop_artifacts os env config_path =
     (if os = Windows then windows_cleanup (clean_windows env) (clean_canonicalize env) config_path
      else if os = MacOS
      then
        if macos_has_sing_box_listener (clean_run env)
        then stop_macos_privileged_sing_box (clean_osascript env) None config_path
        else Inr ()
      else Inr ())"

definition cleanup_desktop_artifacts_blocking :: "target_os \<Rightarrow> cleanup_env \<Rightarrow> string \<Rightarrow> unit vpn_result" where
  "cleanup_desktop_artifacts_blocking os env config_path =
     (if os = Windows then windows_cleanup (clean_windows env) (clean_canonicalize env) config_path
      else if os = MacOS
      then macos_cleanup_blocking (clean_run env) (clean_osascript_blocking env) config_path
      else Inr ())"

text \<open>\<open>Drop\<close> of the engine on a desktop: only the statistics task is ended.\<close>

definition drop_engine :: "target_os \<Rightarrow> engine \<Rightarrow> engine" where
  "drop_engine os e = (if is_mobile os then e else stop_stats_polling e)"

end
