(* ===== verification/Engine_Tasks_Props.thy ===== *)
theory Engine_Tasks_Props
  imports Engine_Tasks Engine_Props
begin

text \<open>
  Properties of the tasks and scripts of \<open>Engine_Tasks\<close>: the background tasks only ever append
  log lines and statistics, the scripts keep every path one word, the process id is the last
  number printed, and the log tail is the end of the log.
\<close>

section \<open>Background tasks\<close>

definition quiet_effect :: "engine_effect \<Rightarrow> bool" where
  "quiet_effect x = (case x of LogEmitted _ \<Rightarrow> True | StatsEmitted _ \<Rightarrow> True | _ \<Rightarrow> False)"

definition background :: "engine \<Rightarrow> engine \<Rightarrow> bool" where
  "background e e' \<longleftrightarrow>
     (\<exists>xs. list_all quiet_effect xs \<and> e' = e\<lparr>effects := effects e @ xs\<rparr>)"

lemma background_refl: "background e e"
  unfolding background_def by (rule exI [of _ "[]"]) simp

lemma background_trans:
  assumes "background e e1" and "background e1 e2" shows "background e e2"
proof -
  obtain xs ys where xs: "list_all quiet_effect xs" "e1 = e\<lparr>effects := effects e @ xs\<rparr>"
    and ys: "list_all quiet_effect ys" "e2 = e1\<lparr>effects := effects e1 @ ys\<rparr>"
    using assms unfolding background_def by blast
  then show ?thesis unfolding background_def by (intro exI [of _ "xs @ ys"]) simp
qed

lemma background_log: "background e (log_line m e)"
  unfolding background_def
  by (intro exI [of _ "[LogEmitted m]"]) (simp add: log_line_def effect_def quiet_effect_def)

lemma background_stats: "background e (effect (StatsEmitted t) e)"
  unfolding background_def
  by (intro exI [of _ "[StatsEmitted t]"]) (simp add: effect_def quiet_effect_def)

lemma stats_round_background: "background e (stats_round a e)"
  using background_log background_stats by (simp add: stats_round_def split: sum.split prod.split)

lemma stats_loop_background: "background e (stats_loop answers e)"
proof (induction answers arbitrary: e)
  case Nil
  then show ?case by (simp add: stats_loop_def background_refl)
next
  case (Cons a answers)
  from background_trans [OF stats_round_background Cons.IH] show ?case by (simp add: stats_loop_def)
qed

lemma pipe_loop_background: "background e (snd (pipe_loop label reads e))"
proof (induction label reads e rule: pipe_loop.induct)
  case (2 label line reads e)
  from background_trans [OF background_log this] show ?case by simp
qed (simp_all add: background_refl background_log)

lemma quiet_accounts:
  assumes "list_all quiet_effect xs"
  shows "spawned xs = {#}" "kill_requested xs = {#}" "ended xs = {#}" "runtimes_started xs = {#}"
    "runtimes_stopped xs = {#}" "runtimes_leaked xs = {#}"
  using assms
  by (induction xs)
    (auto simp: account_defs List.map_filter_def quiet_effect_def split: engine_effect.splits)

lemma background_balanced:
  assumes "background e e'" and "balanced p rt e" shows "balanced p rt e'"
proof -
  obtain xs where "list_all quiet_effect xs" "e' = e\<lparr>effects := effects e @ xs\<rparr>"
    using assms(1) unfolding background_def by blast
  with assms(2) quiet_accounts [of xs] show ?thesis by (simp add: balanced_def)
qed

lemma background_reaped:
  assumes "background e e'" and "reaped e" shows "reaped e'"
proof -
  obtain xs where "list_all quiet_effect xs" "e' = e\<lparr>effects := effects e @ xs\<rparr>"
    using assms(1) unfolding background_def by blast
  with assms(2) quiet_accounts [of xs] show ?thesis by (simp add: reaped_def)
qed

lemma background_fields:
  assumes "background e e'"
  shows "child e' = child e" "windows_job e' = windows_job e" "privileged_pid e' = privileged_pid e"
    "macos_system_connected e' = macos_system_connected e" "olcrtc e' = olcrtc e"
    "mobile_connected e' = mobile_connected e" "stats_task e' = stats_task e"
  using assms unfolding background_def by auto

section \<open>Scripts\<close>

text \<open>
  A script of fixed parts and words between them: read from the left, the shell finds exactly
  these words and these parts.
\<close>

fun reads_as :: "string list \<Rightarrow> string list \<Rightarrow> string \<Rightarrow> bool" where
  "reads_as [fixed] [] s = (s = fixed)"
| "reads_as (fixed # parts) (w # ws) s =
     (take (length fixed) s = fixed \<and>
      (case sh_word False (drop (length fixed) s) of
         None \<Rightarrow> False
       | Some (w', rest) \<Rightarrow> w' = w \<and> reads_as parts ws rest))"
| "reads_as _ _ s = False"

lemma reads_as_quoted:
  assumes "sh_ends rest" and "reads_as (part # parts) ws rest"
  shows "reads_as (fixed # part # parts) (w # ws) (fixed @ shell_quote w @ rest)"
  using assms shell.read_quote [OF assms(1), of w] by simp

text \<open>C22: No path can break out of the scripts that run with administrator rights. In the script that
  starts the privileged core the shell reads the binary, the configuration and the log as exactly
  one word each; in the two scripts that stop stale cores it reads the pattern with the path as one
  word; all other parts are fixed. AppleScript reads each whole script back unchanged.\<close>

theorem admin_scripts_quote:
  "reads_as [''cd /; '', '' run -c '', '' >> '', '' 2>&1 < /dev/null & echo $!'']
     [binary, config_path, log_path] (privileged_start_script binary config_path log_path) \<and>
   reads_as [(case pid of None \<Rightarrow> [] | Some p \<Rightarrow> ''kill '' @ show_nat (unat p) @ ''; '') @ ''pkill -f '',
       ''; lsof -tiTCP:2080 -sTCP:LISTEN -a -c sing-box | xargs kill 2>/dev/null || true'']
     [''sing-box.*'' @ config_path] (stop_script pid config_path) \<and>
   reads_as [''pkill -f '', '' 2>/dev/null || true; lsof -tiTCP:2080 -sTCP:LISTEN -a -c sing-box | xargs kill 2>/dev/null || true'']
     [''sing-box.*'' @ config_path] (blocking_cleanup_script config_path) \<and>
   as_text (drop (length ''do shell script '') (admin_script script)) =
     Some (script, '' with administrator privileges'')"
proof (intro conjI)
  show "reads_as [''cd /; '', '' run -c '', '' >> '', '' 2>&1 < /dev/null & echo $!'']
     [binary, config_path, log_path] (privileged_start_script binary config_path log_path)"
    unfolding privileged_start_script_def
    by (intro reads_as_quoted) (simp_all add: sh_ends_def)
  have "stop_script pid config_path =
      ((case pid of None \<Rightarrow> [] | Some p \<Rightarrow> ''kill '' @ show_nat (unat p) @ ''; '') @ ''pkill -f '') @
      shell_quote (''sing-box.*'' @ config_path) @
      ''; lsof -tiTCP:2080 -sTCP:LISTEN -a -c sing-box | xargs kill 2>/dev/null || true''"
    by (cases pid) (simp_all add: stop_script_def)
  then show "reads_as [(case pid of None \<Rightarrow> [] | Some p \<Rightarrow> ''kill '' @ show_nat (unat p) @ ''; '') @ ''pkill -f '',
       ''; lsof -tiTCP:2080 -sTCP:LISTEN -a -c sing-box | xargs kill 2>/dev/null || true'']
     [''sing-box.*'' @ config_path] (stop_script pid config_path)"
    by (simp only:) (intro reads_as_quoted; simp add: sh_ends_def)
  show "reads_as [''pkill -f '', '' 2>/dev/null || true; lsof -tiTCP:2080 -sTCP:LISTEN -a -c sing-box | xargs kill 2>/dev/null || true'']
     [''sing-box.*'' @ config_path] (blocking_cleanup_script config_path)"
    unfolding blocking_cleanup_script_def
    by (intro reads_as_quoted) (simp_all add: sh_ends_def)
  have "admin_script script = ''do shell script '' @ applescript_string script @ '' with administrator privileges''"
    by (simp only: admin_script_def)
  from applescript.quote_in_context [OF this TrueI]
  show "as_text (drop (length ''do shell script '') (admin_script script)) =
     Some (script, '' with administrator privileges'')" .
qed

section \<open>Reading outputs\<close>

text \<open>The process id is read off the last line that is a number.\<close>

lemma first_some:
  "(case List.map_filter f xs of [] \<Rightarrow> None | y # _ \<Rightarrow> Some y) = Some v \<longleftrightarrow>
     (\<exists>pre x post. xs = pre @ x # post \<and> f x = Some v \<and> (\<forall>z \<in> set pre. f z = None))"
proof (induction xs)
  case Nil
  then show ?case by (simp add: List.map_filter_simps)
next
  case (Cons a xs)
  show ?case
  proof (cases "f a")
    case None
    have "(\<exists>pre x post. a # xs = pre @ x # post \<and> f x = Some v \<and> (\<forall>z \<in> set pre. f z = None)) \<longleftrightarrow>
        (\<exists>pre x post. xs = pre @ x # post \<and> f x = Some v \<and> (\<forall>z \<in> set pre. f z = None))"
      (is "?l \<longleftrightarrow> ?r")
    proof
      assume ?l
      then obtain pre x post where l: "a # xs = pre @ x # post" "f x = Some v" "\<forall>z \<in> set pre. f z = None"
        by blast
      with None obtain pre' where "pre = a # pre'" "xs = pre' @ x # post" by (cases pre) auto
      with l(2,3) show ?r by auto
    next
      assume ?r
      then obtain pre x post where r: "xs = pre @ x # post" "f x = Some v" "\<forall>z \<in> set pre. f z = None"
        by blast
      with None have "a # xs = (a # pre) @ x # post \<and> f x = Some v \<and> (\<forall>z \<in> set (a # pre). f z = None)"
        by simp
      then show ?l by blast
    qed
    with Cons None show ?thesis by (simp add: List.map_filter_simps)
  next
    case (Some y)
    then show ?thesis
      by (auto simp: List.map_filter_simps Cons_eq_append_conv intro: exI [of _ "[]"])
  qed
qed

lemma last_pid_spec:
  "last_pid out_text = Some pid \<longleftrightarrow>
     (\<exists>pre line post. str_lines [] out_text = pre @ line # post \<and> parse_u32 (trim line) = Some pid \<and>
        (\<forall>l \<in> set post. parse_u32 (trim l) = None))"
proof -
  let ?L = "str_lines [] out_text" and ?f = "\<lambda>line. parse_u32 (trim line)"
  have swap: "rev xs = pre @ x # post \<longleftrightarrow> xs = rev post @ x # rev pre" for xs pre post :: "string list" and x
    by (auto simp: rev_swap)
  have "last_pid out_text = Some pid \<longleftrightarrow>
      (\<exists>pre x post. ?L = rev post @ x # rev pre \<and> ?f x = Some pid \<and> (\<forall>z \<in> set pre. ?f z = None))"
    unfolding last_pid_def first_some swap by (rule refl)
  also have "\<dots> \<longleftrightarrow> (\<exists>pre x post. ?L = pre @ x # post \<and> ?f x = Some pid \<and> (\<forall>z \<in> set post. ?f z = None))"
    (is "?l \<longleftrightarrow> ?r")
  proof
    assume ?l
    then obtain pre x post where l: "?L = rev post @ x # rev pre" "?f x = Some pid" "\<forall>z \<in> set pre. ?f z = None"
      by blast
    from l(3) have "\<forall>z \<in> set (rev pre). ?f z = None" by simp
    with l(1,2) show ?r by blast
  next
    assume ?r
    then obtain pre x post where r: "?L = pre @ x # post" "?f x = Some pid" "\<forall>z \<in> set post. ?f z = None"
      by blast
    then have "?L = rev (rev pre) @ x # rev (rev post)" and "\<forall>z \<in> set (rev post). ?f z = None"
      by simp_all
    with r(2) show ?l by blast
  qed
  finally show ?thesis .
qed

text \<open>The tail shows the last twelve lines of the log.\<close>

lemma log_tail_lines:
  "privileged_log_tail path (Some s) =
     ''Log file: '' @ path @ CHR 0x0A # join [CHR 0x0A] (drop (length (str_lines [] s) - 12) (str_lines [] s))"
  by (simp add: privileged_log_tail_def take_rev)

text \<open>Linux kills exactly the non-blank lines of the list.\<close>

lemma linux_cleanup_set:
  "set (linux_cleanup (Some s)) = {trim l | l. l \<in> set (str_lines [] s) \<and> trim l \<noteq> []}"
  by (auto simp: linux_cleanup_def)

end
