(* ===== verification/Command_Races.thy ===== *)
theory Command_Races
  imports Commands_Props Engine_Tasks_Props
begin

text \<open>
  Commands that run at the same time. A connect or disconnect is three sections: the status lock before the engine
  call, the engine call (one step on a desktop, where it holds the child lock throughout) and the
  status lock after it; a status query holds the status lock throughout. The sections of different
  tasks interleave freely, with the rounds of the statistics task and of the log tasks among them.
\<close>

datatype task =
    Idle
  | Starting connect_options
  | Started "string list vpn_result"
  | Stopping
  | Stopped "unit vpn_result"

record race =
  race_state :: vpn_state
  race_task :: "nat \<Rightarrow> task"

definition race_start :: "bool \<Rightarrow> race" where
  "race_start plugin = \<lparr>race_state = vpn_state_new default_engine plugin, race_task = (\<lambda>_. Idle)\<rparr>"

definition on_race_engine :: "(engine \<Rightarrow> engine) \<Rightarrow> race \<Rightarrow> race" where
  "on_race_engine f r = r\<lparr>race_state := (race_state r)\<lparr>st_engine := f (st_engine (race_state r))\<rparr>\<rparr>"

definition advance :: "nat \<Rightarrow> task \<Rightarrow> vpn_state \<Rightarrow> race \<Rightarrow> race" where
  "advance t p s r = \<lparr>race_state = s, race_task = (race_task r)(t := p)\<rparr>"

text \<open>
  In a \<open>timely\<close> run every readiness check comes to a decision and every kill is waited for; in the
  others they may time out or fail.
\<close>

inductive race_step :: "target_os \<Rightarrow> bool \<Rightarrow> race \<Rightarrow> race \<Rightarrow> bool" for os timely where
  connect_enter: "race_task r t = Idle \<Longrightarrow> connect_begin opts (race_state r) = (Inr (), s) \<Longrightarrow>
    race_step os timely r (advance t (Starting opts) s r)"
| connect_refused: "race_task r t = Idle \<Longrightarrow> connect_begin opts (race_state r) = (Inl err, s) \<Longrightarrow>
    race_step os timely r (advance t Idle s r)"
| connect_run: "race_task r t = Starting opts \<Longrightarrow>
    on_engine (start_desktop os opts a) (race_state r) = (x, s) \<Longrightarrow>
    (timely \<Longrightarrow> readiness_decided a) \<Longrightarrow>
    race_step os timely r (advance t (Started x) s r)"
| connect_leave: "race_task r t = Started x \<Longrightarrow> connect_finish x (race_state r) = (y, s) \<Longrightarrow>
    race_step os timely r (advance t Idle s r)"
| disconnect_enter: "race_task r t = Idle \<Longrightarrow>
    race_step os timely r (advance t Stopping (disconnect_begin (race_state r)) r)"
| disconnect_run: "race_task r t = Stopping \<Longrightarrow>
    on_engine (stop_desktop os b) (race_state r) = (u, s) \<Longrightarrow>
    (timely \<Longrightarrow> ans_kill b = KillDone) \<Longrightarrow>
    race_step os timely r (advance t (Stopped u) s r)"
| disconnect_leave: "race_task r t = Stopped u \<Longrightarrow> disconnect_finish u (race_state r) = (y, s) \<Longrightarrow>
    race_step os timely r (advance t Idle s r)"
| status_run: "race_task r t = Idle \<Longrightarrow> \<not> is_mobile os \<Longrightarrow>
    status_command os parse_uuid m up (race_state r) = (z, s) \<Longrightarrow>
    race_step os timely r (advance t Idle s r)"
| stats_run: "race_step os timely r (on_race_engine (stats_loop answers) r)"
| logs_run: "race_step os timely r (on_race_engine (\<lambda>e. snd (pipe_logs stream label e)) r)"

inductive race_reachable :: "target_os \<Rightarrow> bool \<Rightarrow> bool \<Rightarrow> race \<Rightarrow> bool" for os timely plugin where
  race_init: "race_reachable os timely plugin (race_start plugin)"
| race_next: "race_reachable os timely plugin r \<Longrightarrow> race_step os timely r r' \<Longrightarrow> race_reachable os timely plugin r'"

lemma advance_simps [simp]:
  "race_state (advance t p s r) = s" "race_task (advance t p s r) = (race_task r)(t := p)"
  by (simp_all add: advance_def)

section \<open>What interleaving keeps\<close>

lemma begin_finish_engine [simp]:
  "st_engine (disconnect_begin s) = st_engine s"
  by (simp add: disconnect_begin_def)

lemma section_engines:
  "connect_begin opts s = (q, s') \<Longrightarrow> st_engine s' = st_engine s"
  "connect_finish x s = (y, s') \<Longrightarrow> st_engine s' = st_engine s"
  "disconnect_finish u s = (z, s') \<Longrightarrow> st_engine s' = st_engine s"
  "\<not> is_mobile os \<Longrightarrow> status_command os parse_uuid m up s = (st, s') \<Longrightarrow> st_engine s' = st_engine s"
  by (auto simp: connect_begin_def connect_finish_def disconnect_finish_def status_command_def Let_def
      split: if_splits sum.splits)

definition race_engine_ok :: "target_os \<Rightarrow> bool \<Rightarrow> race \<Rightarrow> bool" where
  "race_engine_ok os timely r \<longleftrightarrow>
     engine_ok os (st_engine (race_state r)) \<and> balanced None None (st_engine (race_state r)) \<and>
     (timely \<longrightarrow> reaped (st_engine (race_state r)))"

lemma background_race:
  assumes "race_engine_ok os timely r" and "background (st_engine (race_state r)) (f (st_engine (race_state r)))"
  shows "race_engine_ok os timely (on_race_engine f r)"
  using assms(1) background_balanced [OF assms(2)] background_reaped [OF assms(2)] background_fields [OF assms(2)]
  by (simp add: race_engine_ok_def engine_ok_def on_race_engine_def)

lemma race_engine_step:
  assumes "race_engine_ok os timely r" and "race_step os timely r r'"
  shows "race_engine_ok os timely r'"
  using assms(2)
proof cases
  case (connect_run t opts a x s)
  then obtain e where "start_desktop os opts a (st_engine (race_state r)) = (x, e)" "st_engine s = e"
    by (auto simp: on_engine_def split: prod.splits)
  with connect_run(1,4) assms(1) start_desktop_outcome start_desktop_balanced start_desktop_reaped show ?thesis
    by (auto simp: race_engine_ok_def)
next
  case (disconnect_run t b u s)
  then obtain e where "stop_desktop os b (st_engine (race_state r)) = (u, e)" "st_engine s = e"
    by (auto simp: on_engine_def split: prod.splits)
  with disconnect_run(1,4) assms(1) stop_desktop_outcome stop_desktop_balanced stop_desktop_reaped show ?thesis
    by (auto simp: race_engine_ok_def)
next
  case (stats_run answers)
  with background_race [OF assms(1)] stats_loop_background show ?thesis by blast
next
  case (logs_run stream label)
  have "background e (snd (pipe_logs stream label e))" for e
    using background_refl pipe_loop_background by (simp add: pipe_logs_def split: option.split)
  then show ?thesis
    unfolding logs_run by (intro background_race [OF assms(1)])
qed (use assms(1) section_engines in \<open>auto simp: race_engine_ok_def\<close>)

lemma race_reachable_engine: "race_reachable os timely plugin r \<Longrightarrow> race_engine_ok os timely r"
proof (induction rule: race_reachable.induct)
  case race_init
  then show ?case
    by (simp add: race_engine_ok_def race_start_def vpn_state_new_def default_not_running default_balanced default_reaped)
next
  case (race_next r r')
  then show ?case using race_engine_step by blast
qed

text \<open>C6: Concurrent commands never lose track of a core. In every interleaving of any number of
  connect, disconnect and status commands on a desktop, every core ever spawned has been sent a kill,
  except at most one, and that one is the engine's child. A core that may still be alive is that
  child or one whose kill was requested and not seen through: by a stop whose kill timed out or
  failed, or a start whose readiness check reported an error. In a run without these at most one
  core is alive at any time.\<close>

theorem concurrent_single_core:
  assumes "race_reachable os timely plugin r"
  shows "let e = st_engine (race_state r); alive = spawned (effects e) - ended (effects e) in
         spawned (effects e) = kill_requested (effects e) + held (child e) \<and>
         ended (effects e) \<subseteq># kill_requested (effects e) \<and>
         alive = held (child e) + (kill_requested (effects e) - ended (effects e)) \<and>
         (timely \<longrightarrow> alive = held (child e) \<and> size alive \<le> 1)"
proof -
  have "add_mset c A - B = add_mset c (A - B)" if "B \<subseteq># A" for c :: nat and A B
    using that by (simp add: multiset_eq_iff subseteq_mset_def Suc_diff_le)
  with race_reachable_engine [OF assms] show ?thesis
    by (cases "child (st_engine (race_state r))")
      (simp_all add: race_engine_ok_def balanced_def reaped_def Let_def)
qed

section \<open>What interleaving breaks\<close>

lemma sample_stop:
  "\<exists>e. stop_desktop Linux good_stop sample_running = (Inr (), e) \<and> \<not> is_running e"
proof -
  have "stop_desktop Linux good_stop sample_running =
      (Inr (), log_line ''sing-box process stopped''
        ((take_runtime (reap_child 42 ((stop_stats_polling sample_running)\<lparr>child := None\<rparr>)))\<lparr>windows_job := False\<rparr>))"
    by (simp add: stop_desktop_def stop_core_def sample_running_eq good_stop_def cleanup_after_def Let_def)
  moreover have "engine_ok Linux sample_running" by (simp add: engine_ok_def sample_running_eq)
  ultimately show ?thesis using stop_desktop_outcome [of Linux sample_running] by fastforce
qed

lemma connect_begin_new:
  "connect_begin opts (vpn_state_new default_engine plugin) = (Inr (), s) \<Longrightarrow> st_engine s = default_engine"
  by (auto simp: connect_begin_def vpn_state_new_def split: if_splits)

text \<open>The first part of a run: a connect whose engine start went through, before its last section.\<close>

lemma sample_race:
  obtains r ws where "race_reachable Linux timely plugin r" "st_engine (race_state r) = sample_running"
    "race_task r 0 = Started (Inr ws)" "\<And>t. t \<noteq> 0 \<Longrightarrow> race_task r t = Idle"
proof -
  let ?r0 = "race_start plugin"
  obtain s1 where s1: "connect_begin sample_options (race_state ?r0) = (Inr (), s1)"
    by (simp add: connect_begin_def race_start_def vpn_state_new_def default_connection_status_def)
  let ?r1 = "advance 0 (Starting sample_options) s1 ?r0"
  obtain ws where start: "start_desktop Linux sample_options good_answers default_engine = (Inr ws, sample_running)"
    using sample_start by blast
  have "st_engine s1 = default_engine"
    using s1 connect_begin_new by (simp add: race_start_def)
  then have run: "on_engine (start_desktop Linux sample_options good_answers) (race_state ?r1) =
      (Inr ws, s1\<lparr>st_engine := sample_running\<rparr>)"
    using start by (simp add: on_engine_def)
  let ?r2 = "advance 0 (Started (Inr ws)) (s1\<lparr>st_engine := sample_running\<rparr>) ?r1"
  have "race_reachable Linux timely plugin ?r1"
    by (rule race_next [OF race_init connect_enter [OF _ s1]]) (simp add: race_start_def)
  then have "race_reachable Linux timely plugin ?r2"
    by (rule race_next [OF _ connect_run [OF _ run]]) (simp_all add: readiness_decided_def good_readiness)
  then show ?thesis by (rule that) (simp_all add: race_start_def)
qed

text \<open>Concurrent commands can leave a wrong status for good: a disconnect that runs between the engine
  start of a connect and its last section makes the status Connected, with all commands finished
  and no core running.\<close>

theorem stale_connected:
  "\<exists>r. race_reachable Linux True plugin r \<and> (\<forall>t. race_task r t = Idle) \<and>
       phase (st_status (race_state r)) = Connected \<and> \<not> is_running (st_engine (race_state r))"
proof -
  obtain r2 ws where r2: "race_reachable Linux True plugin r2" "st_engine (race_state r2) = sample_running"
    "race_task r2 0 = Started (Inr ws)" and idle: "\<And>t. t \<noteq> 0 \<Longrightarrow> race_task r2 t = Idle"
    using sample_race [of True plugin] by blast
  let ?r3 = "advance 1 Stopping (disconnect_begin (race_state r2)) r2"
  obtain e where stop: "stop_desktop Linux good_stop sample_running = (Inr (), e)" "\<not> is_running e"
    using sample_stop by blast
  let ?s4 = "(race_state ?r3)\<lparr>st_engine := e\<rparr>"
  have halt: "on_engine (stop_desktop Linux good_stop) (race_state ?r3) = (Inr (), ?s4)"
    using stop r2(2) by (simp add: on_engine_def)
  let ?r4 = "advance 1 (Stopped (Inr ())) ?s4 ?r3"
  obtain y s5 where s5: "disconnect_finish (Inr ()) (race_state ?r4) = (y, s5)" by fastforce
  let ?r5 = "advance 1 Idle s5 ?r4"
  obtain z s6 where s6: "connect_finish (Inr ws) (race_state ?r5) = (z, s6)" by fastforce
  let ?r6 = "advance 0 Idle s6 ?r5"
  have "race_reachable Linux True plugin ?r3"
    by (rule race_next [OF r2(1) disconnect_enter]) (simp add: idle)
  then have "race_reachable Linux True plugin ?r4"
    by (rule race_next [OF _ disconnect_run [OF _ halt]]) (simp_all add: good_stop_def)
  then have "race_reachable Linux True plugin ?r5"
    by (rule race_next [OF _ disconnect_leave [OF _ s5]]) simp
  then have "race_reachable Linux True plugin ?r6"
    by (rule race_next [OF _ connect_leave [OF _ s6]]) (simp add: r2(3))
  moreover have "race_task ?r6 t = Idle" for t by (simp add: idle)
  moreover have "st_engine s6 = e" using section_engines(2) [OF s6] section_engines(3) [OF s5] by simp
  moreover have "phase (st_status s6) = Connected" using s6 by (auto simp: connect_finish_def Let_def)
  ultimately show ?thesis using stop(2) by (intro exI [of _ ?r6]) simp
qed

theorem concurrent_single_core_witness:
  "\<exists>r. race_reachable Linux True False r \<and> child (st_engine (race_state r)) = Some 42 \<and>
     spawned (effects (st_engine (race_state r))) - ended (effects (st_engine (race_state r))) = {#42#}"
proof -
  obtain r ws where r: "race_reachable Linux True False r" "st_engine (race_state r) = sample_running"
    using sample_race [of True False] by blast
  from concurrent_single_core [OF r(1)] r show ?thesis
    by (intro exI [of _ r]) (simp add: Let_def sample_running_eq)
qed

end
