(* ===== verification/Socks_Client.thy ===== *)
theory Socks_Client
  imports Mux_Delivery Olc_Config
begin

text \<open>
  \<open>src/olcrtc/client.rs\<close>: the local SOCKS5 server of an OLC RTC connection. A TCP connection is the
  bytes its peer sends before the stream ends, the bytes written to it, and the errors its ends
  report. What other tasks do to the multiplexer while one task waits is given as the frames that
  arrive meanwhile.
\<close>

section \<open>A TCP connection\<close>

record conn =
  incoming :: "byte list"
  read_failure :: string
  written :: "byte list"
  write_failure :: "string option"

type_synonym 'a conn_op = "conn \<Rightarrow> 'a vpn_result \<times> conn"

definition conn_then :: "'a conn_op \<Rightarrow> ('a \<Rightarrow> 'b conn_op) \<Rightarrow> 'b conn_op" where
  "conn_then f g = (\<lambda>s. case f s of (Inl e, s') \<Rightarrow> (Inl e, s') | (Inr x, s') \<Rightarrow> g x s')"

definition conn_return :: "'a vpn_result \<Rightarrow> 'a conn_op" where
  "conn_return r = (\<lambda>s. (r, s))"

definition read_exact :: "nat \<Rightarrow> byte list conn_op" where
  "read_exact n s =
     (if n \<le> length (incoming s)
      then (Inr (take n (incoming s)), s\<lparr>incoming := drop n (incoming s)\<rparr>)
      else (Inl (from_io_error (read_failure s)), s\<lparr>incoming := []\<rparr>))"

definition write_all :: "byte list \<Rightarrow> unit conn_op" where
  "write_all bs s =
     (case write_failure s of
        Some e \<Rightarrow> (Inl (from_io_error e), s)
      | None \<Rightarrow> (Inr (), s\<lparr>written := written s @ bs\<rparr>))"

section \<open>Replies and addresses\<close>

definition reply_success :: "byte list" where
  "reply_success = [5, 0, 0, 1, 0, 0, 0, 0, 0, 0]"

definition reply_host_unreachable :: "byte list" where
  "reply_host_unreachable = [5, 4, 0, 1, 0, 0, 0, 0, 0, 0]"

fun join_with :: "string \<Rightarrow> string list \<Rightarrow> string" where
  "join_with sep [] = []"
| "join_with sep [s] = s"
| "join_with sep (s # ss) = s @ sep @ join_with sep ss"

text \<open>\<open>Display\<close> of \<open>Ipv4Addr\<close>.\<close>

definition ipv4_display :: "byte list \<Rightarrow> string" where
  "ipv4_display bs = join_with ''.'' (map (\<lambda>b. show_nat (unat b)) bs)"

text \<open>
  \<open>Display\<close> of \<open>Ipv6Addr\<close>: an IPv4-mapped address in dotted form, else the segments in
  hexadecimal with the first longest run of at least two zero segments as \<open>::\<close>.
\<close>

fun zero_runs :: "nat \<Rightarrow> u16 list \<Rightarrow> nat \<times> nat \<Rightarrow> nat \<times> nat \<Rightarrow> nat \<times> nat" where
  "zero_runs i [] longest current = longest"
| "zero_runs i (s # ss) (l_start, l_len) (c_start, c_len) =
     (if s = 0
      then
        let current = (if c_len = 0 then i else c_start, c_len + 1);
            longest = (if l_len < snd current then current else (l_start, l_len))
        in zero_runs (i + 1) ss longest current
      else zero_runs (i + 1) ss (l_start, l_len) (0, 0))"

definition ipv6_segments :: "byte list \<Rightarrow> u16 list" where
  "ipv6_segments bs = map u16_from_be (chunks 2 bs)"

definition show_segments :: "u16 list \<Rightarrow> string" where
  "show_segments ss = join_with '':'' (map (\<lambda>s. show_radix 16 (unat s)) ss)"

definition ipv6_display :: "byte list \<Rightarrow> string" where
  "ipv6_display bs =
     (if take 12 bs = replicate 10 0 @ [0xFF, 0xFF]
      then ''::ffff:'' @ ipv4_display (drop 12 bs)
      else
        let ss = ipv6_segments bs; (start, len) = zero_runs 0 ss (0, 0) (0, 0)
        in if 1 < len
           then show_segments (take start ss) @ ''::'' @ show_segments (drop (start + len) ss)
           else show_segments ss)"

section \<open>The handshake and the request\<close>

definition socks5_handshake :: "unit conn_op" where
  "socks5_handshake =
     conn_then (read_exact 2) (\<lambda>header.
       if header ! 0 \<noteq> 5 then conn_return (Inl (Engine ''invalid SOCKS5 version''))
       else
         conn_then (read_exact (unat (header ! 1))) (\<lambda>_.
           write_all [5, 0]))"

text \<open>\<open>utf8_error\<close> is the text of a \<open>FromUtf8Error\<close>.\<close>

definition socks5_address :: "(byte list \<Rightarrow> string) \<Rightarrow> byte \<Rightarrow> string conn_op" where
  "socks5_address utf8_error kind =
     (if kind = 1 then conn_then (read_exact 4) (\<lambda>ip. conn_return (Inr (ipv4_display ip)))
      else if kind = 3
      then
        conn_then (read_exact 1) (\<lambda>len.
        conn_then (read_exact (unat (len ! 0))) (\<lambda>domain.
          conn_return (ok_or (from_utf8 domain)
            (Engine (''invalid SOCKS5 domain: '' @ utf8_error domain)))))
      else if kind = 4 then conn_then (read_exact 16) (\<lambda>ip. conn_return (Inr (ipv6_display ip)))
      else conn_return (Inl (Engine (''unsupported SOCKS5 address type '' @ show_nat (unat kind)))))"

definition socks5_request :: "(byte list \<Rightarrow> string) \<Rightarrow> (string \<times> u16) conn_op" where
  "socks5_request utf8_error =
     conn_then (read_exact 4) (\<lambda>header.
       if header ! 0 \<noteq> 5 \<or> header ! 1 \<noteq> 1
       then conn_return
         (Inl (Engine (''unsupported SOCKS5 command '' @ show_nat (unat (header ! 1)))))
       else
         conn_then (socks5_address utf8_error (header ! 3)) (\<lambda>addr.
         conn_then (read_exact 2) (\<lambda>port.
           conn_return (Inr (addr, u16_from_be port)))))"

section \<open>The pumps\<close>

text \<open>
  The two pumps of a connection are polled by one \<open>select!\<close>: each stands at one of its await points,
  and every poll takes it to the next one. Reading from the client, or between the chunks of a
  \<open>send_data\<close>, or handing a frame whose sequence number is taken to the send callback; waiting for
  data, about to read the stream, writing what was read, or about to test for the close.
\<close>

datatype to_mux = Reading | Sending "byte list list" | Handing frame "byte list list"

datatype from_mux = Waiting | Taking | Writing "byte list" | Checking

record 'p relay =
  rl_to :: to_mux
  rl_from :: from_mux
  rl_mux :: multiplexer
  rl_conn :: conn
  rl_out :: 'p
  rl_over :: bool

definition relay_start :: "multiplexer \<Rightarrow> conn \<Rightarrow> 'p \<Rightarrow> 'p relay" where
  "relay_start m s p =
     \<lparr>rl_to = Reading, rl_from = Waiting, rl_mux = m, rl_conn = s, rl_out = p, rl_over = False\<rparr>"

text \<open>
  What happens to a connection: a poll of either pump; the client's socket gives some bytes, or ends;
  it takes some of the bytes being written, or is gone; a frame arrives at the multiplexer.
\<close>

datatype relay_event =
  PollToMux | PollFromMux | ClientGives nat | ClientEnds | ClientTakes nat | ClientGone | FrameArrives frame

definition relay_buf_size :: nat where
  "relay_buf_size = 16 * 1024"

definition client_gives :: "nat \<Rightarrow> 'p relay \<Rightarrow> 'p relay" where
  "client_gives n r =
     (let s = rl_conn r in
      if rl_to r = Reading \<and> 0 < n \<and> n \<le> relay_buf_size \<and> n \<le> length (incoming s)
      then r\<lparr>rl_to := Sending (chunks chunk_size (take n (incoming s))),
             rl_conn := s\<lparr>incoming := drop n (incoming s)\<rparr>\<rparr>
      else r)"

definition client_ends :: "'p relay \<Rightarrow> 'p relay" where
  "client_ends r = (if rl_to r = Reading then r\<lparr>rl_over := True\<rparr> else r)"

text \<open>A poll of \<open>pump_to_mux\<close>: the sections of \<open>send_data\<close>, chunk by chunk.\<close>

definition pump_to_mux :: "'p send_fn \<Rightarrow> u16 \<Rightarrow> 'p relay \<Rightarrow> 'p relay" where
  "pump_to_mux send sid r =
     (case rl_to r of
        Reading \<Rightarrow> r
      | Sending [] \<Rightarrow> r\<lparr>rl_to := Reading\<rparr>
      | Sending (chunk # rest) \<Rightarrow>
          (case stream_at (rl_mux r) sid of
             None \<Rightarrow> r\<lparr>rl_to := Reading\<rparr>
           | Some st \<Rightarrow>
               if closed st then r\<lparr>rl_to := Reading\<rparr>
               else r\<lparr>rl_to := Handing (data_frame (mux_client_id (rl_mux r)) sid (next_send_seq st) chunk) rest,
                      rl_mux := put_stream sid (st\<lparr>next_send_seq := next_send_seq st + 1\<rparr>) (rl_mux r)\<rparr>)
      | Handing frame rest \<Rightarrow>
          (case send frame (rl_out r) of
             (Inl _, p') \<Rightarrow> r\<lparr>rl_to := Reading, rl_out := p', rl_over := True\<rparr>
           | (Inr _, p') \<Rightarrow> r\<lparr>rl_to := Sending rest, rl_out := p'\<rparr>))"

text \<open>A poll of \<open>pump_from_mux\<close>; \<open>wait_for_data\<close> makes a missing stream.\<close>

definition pump_from_mux :: "u16 \<Rightarrow> 'p relay \<Rightarrow> 'p relay" where
  "pump_from_mux sid r =
     (case rl_from r of
        Waiting \<Rightarrow>
          let (handle, m) = wait_check sid (rl_mux r)
          in r\<lparr>rl_mux := m, rl_from := (if handle = None then Taking else Waiting)\<rparr>
      | Taking \<Rightarrow>
          let (data, m) = read_stream sid (rl_mux r)
          in r\<lparr>rl_mux := m, rl_from := (if data = [] then Checking else Writing data)\<rparr>
      | Writing data \<Rightarrow> r
      | Checking \<Rightarrow>
          if stream_closed sid (rl_mux r) then r\<lparr>rl_over := True\<rparr> else r\<lparr>rl_from := Waiting\<rparr>)"

definition client_takes :: "nat \<Rightarrow> 'p relay \<Rightarrow> 'p relay" where
  "client_takes n r =
     (case rl_from r of
        Writing data \<Rightarrow>
          if n = 0 then r
          else
            (case write_all (take n data) (rl_conn r) of
               (Inl _, s) \<Rightarrow> r\<lparr>rl_conn := s, rl_over := True\<rparr>
             | (Inr _, s) \<Rightarrow>
                 r\<lparr>rl_conn := s, rl_from := (if n < length data then Writing (drop n data) else Checking)\<rparr>)
      | _ \<Rightarrow> r)"

definition client_gone :: "'p relay \<Rightarrow> 'p relay" where
  "client_gone r = (case rl_from r of Writing data \<Rightarrow> r\<lparr>rl_over := True\<rparr> | _ \<Rightarrow> r)"

text \<open>
  The \<open>select!\<close>: when one pump ends, the other is dropped where it stands, so nothing happens any
  more. \<^const>\<open>None\<close> is a panic of the multiplexer.
\<close>

definition relay_step :: "'p send_fn \<Rightarrow> u16 \<Rightarrow> relay_event \<Rightarrow> 'p relay \<Rightarrow> 'p relay option" where
  "relay_step send sid event r =
     (case event of
        PollToMux \<Rightarrow> Some (pump_to_mux send sid r)
      | PollFromMux \<Rightarrow> Some (pump_from_mux sid r)
      | ClientGives n \<Rightarrow> Some (client_gives n r)
      | ClientEnds \<Rightarrow> Some (client_ends r)
      | ClientTakes n \<Rightarrow> Some (client_takes n r)
      | ClientGone \<Rightarrow> Some (client_gone r)
      | FrameArrives frame \<Rightarrow> map_option (\<lambda>m. r\<lparr>rl_mux := m\<rparr>) (handle_frame frame (rl_mux r)))"

fun relay_run :: "'p send_fn \<Rightarrow> u16 \<Rightarrow> relay_event list \<Rightarrow> 'p relay \<Rightarrow> 'p relay option" where
  "relay_run send sid [] r = Some r"
| "relay_run send sid (event # events) r =
     (if rl_over r then Some r
      else Option.bind (relay_step send sid event r) (relay_run send sid events))"

section \<open>The tunnel\<close>

text \<open>
  \<open>json_text\<close> prints JSON; \<open>answer_frames\<close> are the frames handled while the setup waits for the
  first answer, \<open>relay_events\<close> what happens once the tunnel is up.
\<close>

record 'p tunnel_env =
  json_text :: "json \<Rightarrow> string"
  send_frame :: "'p send_fn"
  answer_frames :: "frame list"
  relay_events :: "relay_event list"

definition connect_request :: "string \<Rightarrow> u16 \<Rightarrow> json" where
  "connect_request addr port =
     JObj [(''cmd'', JStr ''connect''), (''addr'', JStr addr), (''port'', json_u16 port)]"

definition reject_tunnel :: "string \<Rightarrow> unit conn_op" where
  "reject_tunnel reason =
     conn_then (write_all reply_host_unreachable) (\<lambda>_. conn_return (Inl (Engine reason)))"

text \<open>
  \<open>wait_for_data\<close> within the time-out: the frames are those handled until it ends. It returned in
  time if the stream is ready then, and timed out otherwise.
\<close>

definition wait_answer :: "u16 \<Rightarrow> frame list \<Rightarrow> multiplexer \<Rightarrow> (bool \<times> multiplexer) option" where
  "wait_answer sid frames m =
     do {
       m1 \<leftarrow> handle_frames frames (snd (wait_check sid m));
       let (waiting, m2) = wait_check sid m1;
       Some (waiting = None, m2)
     }"

text \<open>\<^const>\<open>None\<close> is a panic of the multiplexer.\<close>

definition setup_tunnel ::
    "'p tunnel_env \<Rightarrow> u16 \<Rightarrow> string \<Rightarrow> u16 \<Rightarrow> conn \<Rightarrow> multiplexer \<Rightarrow> 'p \<Rightarrow>
     (unit vpn_result \<times> conn \<times> multiplexer \<times> 'p) option" where
  "setup_tunnel env sid addr port s m p =
     (case send_data (send_frame env) sid (bytes_of (json_text env (connect_request addr port))) m p of
        (Inl e, m1, p1) \<Rightarrow> Some (Inl e, s, m1, p1)
      | (Inr _, m1, p1) \<Rightarrow>
          (case wait_answer sid (answer_frames env) m1 of
             None \<Rightarrow> None
           | Some (True, m2) \<Rightarrow>
               let (response, m3) = read_stream sid m2;
                   (r, s') = (if response \<noteq> [] \<and> hd response = 0 then write_all reply_success s
                              else reject_tunnel ''OLC RTC tunnel setup failed'' s)
               in Some (r, s', m3, p1)
           | Some (False, m2) \<Rightarrow>
               let (r, s') = reject_tunnel ''OLC RTC tunnel setup timed out'' s
               in Some (r, s', m2, p1)))"

text \<open>
  \<^const>\<open>None\<close>: the search for a stream id does not end, or a panic. The stream is closed at the end
  of the relay; if the events end before the relay does, the connection is still being served.
\<close>

definition close_after :: "'p tunnel_env \<Rightarrow> u16 \<Rightarrow> unit vpn_result \<Rightarrow> conn \<Rightarrow> multiplexer \<Rightarrow> 'p \<Rightarrow>
    unit vpn_result \<times> conn \<times> multiplexer \<times> 'p" where
  "close_after env sid r s m p =
     (case close_stream (send_frame env) sid m p of (_, m', p') \<Rightarrow> (r, s, m', p'))"

datatype 'p served =
    Serving "'p relay"
  | Served "unit vpn_result" conn multiplexer 'p

definition served_of :: "unit vpn_result \<times> conn \<times> multiplexer \<times> 'p \<Rightarrow> 'p served" where
  "served_of x = (case x of (r, s, m, p) \<Rightarrow> Served r s m p)"

definition handle_socks5 ::
    "(byte list \<Rightarrow> string) \<Rightarrow> 'p tunnel_env \<Rightarrow> conn \<Rightarrow> multiplexer \<Rightarrow> 'p \<Rightarrow> 'p served option" where
  "handle_socks5 utf8_error env s m p =
     (case conn_then socks5_handshake (\<lambda>_. socks5_request utf8_error) s of
        (Inl e, s1) \<Rightarrow> Some (Served (Inl e) s1 m p)
      | (Inr (addr, port), s1) \<Rightarrow>
          do {
            (sid, m1) \<leftarrow> open_stream m;
            (r, s2, m2, p2) \<leftarrow> setup_tunnel env sid addr port s1 m1 p;
            case r of
              Inl e \<Rightarrow> Some (served_of (close_after env sid (Inl e) s2 m2 p2))
            | Inr _ \<Rightarrow>
                do {
                  relay \<leftarrow> relay_run (send_frame env) sid (relay_events env) (relay_start m2 s2 p2);
                  Some (if rl_over relay
                        then served_of (close_after env sid (Inr ()) (rl_conn relay) (rl_mux relay) (rl_out relay))
                        else Serving relay)
                }
          })"

end
