(* ===== verification/Socks_Props.thy ===== *)
theory Socks_Props
  imports Socks_Client Mux_Wakeup
begin

text \<open>
  What the local SOCKS5 server guarantees: it reads the requests clients send, answers each with
  one reply, and gives its stream back; and which early bytes are lost.
\<close>

lemma conn_then_Inr: "f s = (Inr x, s') \<Longrightarrow> conn_then f g s = g x s'"
  by (simp add: conn_then_def)

lemma read_exact_prefix:
  assumes "incoming s = bs @ rest" and "length bs = n"
  shows "read_exact n s = (Inr bs, s\<lparr>incoming := rest\<rparr>)"
  using assms by (simp add: read_exact_def)

section \<open>Reading what clients send\<close>

text \<open>A request as RFC 1928 writes it.\<close>

datatype socks_addr = Ip4 "byte list" | Domain "byte list" | Ip6 "byte list"

fun addr_ok :: "socks_addr \<Rightarrow> bool" where
  "addr_ok (Ip4 ip) \<longleftrightarrow> length ip = 4"
| "addr_ok (Domain d) \<longleftrightarrow> length d < 256 \<and> from_utf8 d \<noteq> None"
| "addr_ok (Ip6 ip) \<longleftrightarrow> length ip = 16"

fun addr_wire :: "socks_addr \<Rightarrow> byte list" where
  "addr_wire (Ip4 ip) = 1 # ip"
| "addr_wire (Domain d) = 3 # of_nat (length d) # d"
| "addr_wire (Ip6 ip) = 4 # ip"

fun addr_text :: "socks_addr \<Rightarrow> string" where
  "addr_text (Ip4 ip) = ipv4_display ip"
| "addr_text (Domain d) = string_of d"
| "addr_text (Ip6 ip) = ipv6_display ip"

definition request_wire :: "socks_addr \<Rightarrow> u16 \<Rightarrow> byte list" where
  "request_wire a port = [5, 1, 0] @ addr_wire a @ be_u16 port"

definition hello_wire :: "byte list \<Rightarrow> byte list" where
  "hello_wire methods = [5, of_nat (length methods)] @ methods"

lemma socks5_address_reads:
  assumes "addr_ok a" and "incoming s = tl (addr_wire a) @ rest"
  shows "socks5_address utf8_error (hd (addr_wire a)) s = (Inr (addr_text a), s\<lparr>incoming := rest\<rparr>)"
proof (cases a)
  case (Ip4 ip)
  then have "read_exact 4 s = (Inr ip, s\<lparr>incoming := rest\<rparr>)"
    using assms by (intro read_exact_prefix) simp_all
  then show ?thesis by (simp add: socks5_address_def Ip4 conn_then_Inr conn_return_def)
next
  case (Ip6 ip)
  then have "read_exact 16 s = (Inr ip, s\<lparr>incoming := rest\<rparr>)"
    using assms by (intro read_exact_prefix) simp_all
  then show ?thesis by (simp add: socks5_address_def Ip6 conn_then_Inr conn_return_def)
next
  case (Domain d)
  then have d: "length d < 256" "from_utf8 d \<noteq> None" "incoming s = [of_nat (length d)] @ d @ rest"
    using assms by simp_all
  have "unat (of_nat (length d) :: byte) = length d" using d(1) by (simp add: unat_byte_of_nat)
  moreover have "read_exact 1 s = (Inr [of_nat (length d)], s\<lparr>incoming := d @ rest\<rparr>)"
    by (rule read_exact_prefix) (simp_all add: d(3))
  moreover have "read_exact (length d) (s\<lparr>incoming := d @ rest\<rparr>) = (Inr d, s\<lparr>incoming := rest\<rparr>)"
    using read_exact_prefix [of "s\<lparr>incoming := d @ rest\<rparr>" d rest] by simp
  moreover have "from_utf8 d = Some (string_of d)" using d(2) by (simp add: from_utf8_def split: if_splits)
  ultimately show ?thesis by (simp add: socks5_address_def Domain conn_then_Inr conn_return_def)
qed

lemma socks5_request_reads:
  assumes "addr_ok a" and "incoming s = request_wire a port @ rest"
  shows "socks5_request utf8_error s = (Inr (addr_text a, port), s\<lparr>incoming := rest\<rparr>)"
proof -
  let ?k = "hd (addr_wire a)"
  have split: "addr_wire a = ?k # tl (addr_wire a)" by (cases a) simp_all
  have "incoming s = [5, 1, 0, ?k] @ tl (addr_wire a) @ be_u16 port @ rest"
    using assms(2) split by (cases a) (simp_all add: request_wire_def)
  then have "read_exact 4 s = (Inr [5, 1, 0, ?k], s\<lparr>incoming := tl (addr_wire a) @ be_u16 port @ rest\<rparr>)"
    by (rule read_exact_prefix) simp
  moreover have "socks5_address utf8_error ?k (s\<lparr>incoming := tl (addr_wire a) @ be_u16 port @ rest\<rparr>) =
      (Inr (addr_text a), s\<lparr>incoming := be_u16 port @ rest\<rparr>)"
    using socks5_address_reads [OF assms(1), of "s\<lparr>incoming := tl (addr_wire a) @ be_u16 port @ rest\<rparr>"
        "be_u16 port @ rest"] by simp
  moreover have "read_exact 2 (s\<lparr>incoming := be_u16 port @ rest\<rparr>) = (Inr (be_u16 port), s\<lparr>incoming := rest\<rparr>)"
    using read_exact_prefix [of "s\<lparr>incoming := be_u16 port @ rest\<rparr>" "be_u16 port" rest 2] by simp
  ultimately show ?thesis by (simp add: socks5_request_def conn_then_Inr conn_return_def)
qed

lemma socks5_handshake_reads:
  assumes "incoming s = hello_wire methods @ rest" and "length methods < 256" and "write_failure s = None"
  shows "socks5_handshake s = (Inr (), s\<lparr>incoming := rest, written := written s @ [5, 0]\<rparr>)"
proof -
  have "incoming s = [5, of_nat (length methods)] @ methods @ rest"
    using assms(1) by (simp add: hello_wire_def)
  then have "read_exact 2 s = (Inr [5, of_nat (length methods)], s\<lparr>incoming := methods @ rest\<rparr>)"
    by (rule read_exact_prefix) simp
  moreover have "unat (of_nat (length methods) :: byte) = length methods"
    using assms(2) by (simp add: unat_byte_of_nat)
  moreover have "read_exact (length methods) (s\<lparr>incoming := methods @ rest\<rparr>) =
      (Inr methods, s\<lparr>incoming := rest\<rparr>)"
    using read_exact_prefix [of "s\<lparr>incoming := methods @ rest\<rparr>" methods rest] by simp
  ultimately show ?thesis
    using assms(3) by (simp add: socks5_handshake_def conn_then_Inr write_all_def)
qed

text \<open>C29: A well-formed SOCKS5 client is understood: from its greeting and its CONNECT request, for an
  IPv4 address, a domain or an IPv6 address, exactly these bytes are read, the greeting is
  answered once, and the address text and the port are those of the request. The offered methods
  are not looked at: even an empty offer is answered with "no authentication".\<close>

theorem socks5_client_understood:
  assumes "incoming s = hello_wire methods @ request_wire a port @ rest"
    and "length methods < 256" and "addr_ok a" and "write_failure s = None"
  shows "conn_then socks5_handshake (\<lambda>_. socks5_request utf8_error) s =
         (Inr (addr_text a, port), s\<lparr>incoming := rest, written := written s @ [5, 0]\<rparr>)"
proof -
  have "socks5_handshake s = (Inr (), s\<lparr>incoming := request_wire a port @ rest, written := written s @ [5, 0]\<rparr>)"
    using assms by (intro socks5_handshake_reads) simp_all
  moreover have "socks5_request utf8_error
      (s\<lparr>incoming := request_wire a port @ rest, written := written s @ [5, 0]\<rparr>) =
      (Inr (addr_text a, port), s\<lparr>incoming := rest, written := written s @ [5, 0]\<rparr>)"
    using socks5_request_reads [OF assms(3),
        of "s\<lparr>incoming := request_wire a port @ rest, written := written s @ [5, 0]\<rparr>"] by simp
  ultimately show ?thesis by (simp add: conn_then_Inr)
qed

definition sample_conn :: conn where
  "sample_conn =
     \<lparr>incoming = [5, 1, 0, 5, 1, 0, 1, 10, 0, 0, 1, 1, 187], read_failure = ''early eof'',
      written = [], write_failure = None\<rparr>"

theorem socks5_client_understood_witness:
  "fst (conn_then socks5_handshake (\<lambda>_. socks5_request (\<lambda>_. [])) sample_conn) = Inr (''10.0.0.1'', 443)"
proof -
  have port: "be_u16 443 = [1, 187]" by code_simp
  have "incoming sample_conn = hello_wire [0] @ request_wire (Ip4 [10, 0, 0, 1]) 443 @ []"
    by (simp add: sample_conn_def hello_wire_def request_wire_def port)
  moreover have "addr_text (Ip4 [10, 0, 0, 1]) = ''10.0.0.1''" by code_simp
  moreover have "write_failure sample_conn = None" by (simp add: sample_conn_def)
  ultimately show ?thesis
    using socks5_client_understood [of sample_conn "[0]" "Ip4 [10, 0, 0, 1]" 443 "[]" "\<lambda>_. []"] by simp
qed

section \<open>A connection as a whole\<close>

lemma close_local_closes: "stream_closed sid (close_local sid m)"
  by (simp add: stream_closed_def close_local_def split: option.split)

text \<open>C30: A served connection gives its stream back. Either the client was refused before any stream
  was opened and the multiplexer is untouched, or the last thing done to the multiplexer is
  closing the stream that was opened, whichever way the tunnel ended, so the stream does not
  stay open. A connection that is still being served has its tunnel set up.\<close>

theorem handle_socks5_closes:
  assumes "handle_socks5 utf8_error env s m p = Some res"
  shows "case res of
     Serving relay \<Rightarrow> \<exists>sid m1 addr port s1 s2 m2 p2. open_stream m = Some (sid, m1) \<and>
       setup_tunnel env sid addr port s1 m1 p = Some (Inr (), s2, m2, p2) \<and>
       relay_run (send_frame env) sid (relay_events env) (relay_start m2 s2 p2) = Some relay \<and>
       \<not> rl_over relay
   | Served r s' m' p' \<Rightarrow>
       (m' = m \<and> p' = p \<and> (\<exists>e. r = Inl e)) \<or>
       (\<exists>sid m1 mx px q. open_stream m = Some (sid, m1) \<and>
          close_stream (send_frame env) sid mx px = (q, m', p') \<and> stream_closed sid m')"
proof -
  have close: "\<exists>q m' p'. close_after env sid r s2 m2 p2 = (r, s2, m', p') \<and>
      close_stream (send_frame env) sid m2 p2 = (q, m', p') \<and> stream_closed sid m'" for sid r s2 m2 p2
    using close_local_closes [of sid m2] by (auto simp: close_after_def close_stream_def Let_def split: prod.split)
  obtain q s1 where q: "conn_then socks5_handshake (\<lambda>_. socks5_request utf8_error) s = (q, s1)" by fastforce
  show ?thesis
  proof (cases q)
    case (Inl e)
    with assms q show ?thesis by (auto simp: handle_socks5_def)
  next
    case (Inr ap)
    obtain addr port where ap: "ap = (addr, port)" by (cases ap)
    from assms q Inr ap obtain sid m1 where o: "open_stream m = Some (sid, m1)"
      by (auto simp: handle_socks5_def bind_eq_Some_conv)
    from assms q Inr ap o obtain r s2 m2 p2
      where t: "setup_tunnel env sid addr port s1 m1 p = Some (r, s2, m2, p2)"
      by (auto simp: handle_socks5_def bind_eq_Some_conv)
    show ?thesis
    proof (cases r)
      case (Inl e)
      with assms q Inr ap o t close [of sid "Inl e" s2 m2 p2] show ?thesis
        by (auto simp: handle_socks5_def served_of_def)
    next
      case (Inr u)
      from assms q \<open>q = Inr ap\<close> Inr ap o t obtain relay
        where rel: "relay_run (send_frame env) sid (relay_events env) (relay_start m2 s2 p2) = Some relay"
        and res: "res = (if rl_over relay
          then served_of (close_after env sid (Inr ()) (rl_conn relay) (rl_mux relay) (rl_out relay))
          else Serving relay)"
        by (auto simp: handle_socks5_def bind_eq_Some_conv)
      show ?thesis
      proof (cases "rl_over relay")
        case False
        with res rel t o Inr show ?thesis by auto blast
      next
        case True
        with res o close [of sid "Inr ()" "rl_conn relay" "rl_mux relay" "rl_out relay"]
        show ?thesis by (auto simp: served_of_def) blast
      qed
    qed
  qed
qed

definition sample_tunnel :: "nat tunnel_env" where
  "sample_tunnel =
     \<lparr>json_text = (\<lambda>_. ''{}''), send_frame = (\<lambda>_ n. (Inr (), Suc n)), answer_frames = [],
      relay_events = []\<rparr>"

lemma wait_times_out:
  "stream_at m sid = Some st \<Longrightarrow> \<not> ready st \<Longrightarrow> wait_answer sid [] m = Some (False, m)"
  by (simp add: wait_answer_def wait_check_def entry_or_insert_def)

lemma sample_setup:
  "setup_tunnel sample_tunnel 1 addr port s sample_mux n =
     (let m = put_stream 1 ((new_stream 0 0)\<lparr>next_send_seq := 1\<rparr>) sample_mux;
          (r, s') = reject_tunnel ''OLC RTC tunnel setup timed out'' s
      in Some (r, s', m, Suc n))"
proof -
  let ?m = "put_stream 1 ((new_stream 0 0)\<lparr>next_send_seq := 1\<rparr>) sample_mux"
  have "send_data (send_frame sample_tunnel) 1 (bytes_of (json_text sample_tunnel j)) sample_mux n = (Inr (), ?m, Suc n)" for j
    by (simp add: sample_tunnel_def send_data_def bytes_of_def chunks_short chunk_size_def sample_mux_def Let_def)
  moreover have "wait_answer 1 (answer_frames sample_tunnel) ?m = Some (False, ?m)"
    by (simp add: sample_tunnel_def wait_times_out ready_def)
  ultimately show ?thesis by (simp add: setup_tunnel_def Let_def split: prod.split)
qed

theorem handle_socks5_closes_witness:
  "\<exists>r s' m' n. handle_socks5 (\<lambda>_. []) sample_tunnel sample_conn (mux_new 7) 0 = Some (Served r s' m' n) \<and>
     stream_closed 1 m'"
proof -
  have none: "write_failure sample_conn = None" by (simp add: sample_conn_def)
  have "\<exists>e s2. reject_tunnel reason s = (Inl e, s2)" for reason s
    by (simp add: reject_tunnel_def conn_then_def conn_return_def split: prod.split sum.split)
  then obtain e s2 where rej: "\<And>s. reject_tunnel ''OLC RTC tunnel setup timed out'' s = (Inl (e s), s2 s)"
    by metis
  have "\<exists>r s' m' n. handle_socks5 (\<lambda>_. []) sample_tunnel sample_conn (mux_new 7) 0 = Some (Served r s' m' n)"
    by (auto simp: handle_socks5_def sample_open sample_setup rej served_of_def close_after_def Let_def
        split: prod.split sum.split)
  then obtain r s' m' n where h: "handle_socks5 (\<lambda>_. []) sample_tunnel sample_conn (mux_new 7) 0 = Some (Served r s' m' n)"
    by blast
  have "stream_closed 1 (mux_new 7)" by (simp add: stream_closed_def mux_new_def)
  with handle_socks5_closes [OF h] sample_open have "stream_closed 1 m'" by auto
  with h show ?thesis by blast
qed

text \<open>C31: The client gets at most one reply and it tells the truth. When the request could not be sent to the
  peer, nothing is written and the setup fails with that error. Otherwise one reply is due: the
  success reply exactly when the peer answered in time with data that begins with a zero byte, else the
  host-unreachable reply; it is written whole if the client's socket takes it, and then the setup
  succeeds exactly with the success reply; a socket that refuses the write makes the setup fail with the
  socket's error.\<close>

theorem setup_tunnel_replies:
  assumes "setup_tunnel env sid addr port s m p = Some (r, s', m', p')"
  shows "incoming s' = incoming s \<and>
    (case send_data (send_frame env) sid (bytes_of (json_text env (connect_request addr port))) m p of
       (Inl e, _, _) \<Rightarrow> r = Inl e \<and> s' = s
     | (Inr _, m1, _) \<Rightarrow>
         let accepted = (\<exists>m2 rest. wait_answer sid (answer_frames env) m1 = Some (True, m2) \<and>
               fst (read_stream sid m2) = 0 # rest) in
         (case write_failure s of
            None \<Rightarrow> written s' = written s @ (if accepted then reply_success else reply_host_unreachable) \<and>
              (r = Inr () \<longleftrightarrow> accepted)
          | Some e \<Rightarrow> s' = s \<and> r = Inl (from_io_error e)))"
proof -
  obtain q m1 p1 where q:
    "send_data (send_frame env) sid (bytes_of (json_text env (connect_request addr port))) m p = (q, m1, p1)"
    by (metis prod.exhaust)
  show ?thesis
  proof (cases q)
    case (Inl e)
    note sent = q [unfolded Inl]
    from assms show ?thesis unfolding sent by (auto simp: setup_tunnel_def sent)
  next
    case (Inr u)
    with assms q obtain waited m2 where w: "wait_answer sid (answer_frames env) m1 = Some (waited, m2)"
      by (auto simp: setup_tunnel_def split: option.splits)
    show ?thesis
    proof (cases waited)
      case True
      obtain response m3 where read: "read_stream sid m2 = (response, m3)" by fastforce
      have "(response \<noteq> [] \<and> hd response = 0) = (\<exists>rest. response = 0 # rest)"
        by (cases response) auto
      with assms q Inr w True read show ?thesis
        by (cases "write_failure s")
          (auto simp: setup_tunnel_def Let_def write_all_def reject_tunnel_def conn_then_def conn_return_def
            split: prod.splits if_splits)
    next
      case False
      with assms q Inr w show ?thesis
        by (cases "write_failure s")
          (auto simp: setup_tunnel_def Let_def write_all_def reject_tunnel_def conn_then_def conn_return_def
            split: prod.splits)
    qed
  qed
qed

theorem setup_tunnel_replies_witness:
  "\<exists>s' m n. setup_tunnel sample_tunnel 1 ''h'' 80 (sample_conn\<lparr>write_failure := Some ''gone''\<rparr>) sample_mux 0 =
       Some (Inl (from_io_error ''gone''), s', m, n) \<and> written s' = written sample_conn"
proof -
  let ?s = "sample_conn\<lparr>write_failure := Some ''gone''\<rparr>"
  obtain r s' where "reject_tunnel ''OLC RTC tunnel setup timed out'' ?s = (r, s')" by fastforce
  then obtain m n where t: "setup_tunnel sample_tunnel 1 ''h'' 80 ?s sample_mux 0 = Some (r, s', m, n)"
    by (simp add: sample_setup Let_def)
  have "\<exists>m1 p1. send_data (send_frame sample_tunnel) 1 (bytes_of (json_text sample_tunnel (connect_request ''h'' 80)))
      sample_mux 0 = (Inr (), m1, p1)"
    by (simp add: sample_tunnel_def send_data_def bytes_of_def chunks_short chunk_size_def sample_mux_def Let_def)
  then obtain m1 p1 where "send_data (send_frame sample_tunnel) 1
      (bytes_of (json_text sample_tunnel (connect_request ''h'' 80))) sample_mux 0 = (Inr (), m1, p1)" by blast
  with setup_tunnel_replies [OF t] have "s' = ?s" "r = Inl (from_io_error ''gone'')" by (auto simp: Let_def)
  with t show ?thesis by auto
qed

section \<open>Early data\<close>

text \<open>Data that arrives together with the acceptance is lost: if the buffer holds the accepting zero
  byte and more bytes behind it, the setup succeeds, the client gets the success reply only, and
  the further bytes are neither written to the client nor left in the stream.\<close>

theorem setup_drops_early_data:
  assumes "write_failure s = None"
    and "send_data (send_frame env) sid (bytes_of (json_text env (connect_request addr port))) m p = (Inr (), m1, p1)"
    and "wait_answer sid (answer_frames env) m1 = Some (True, m2)" and "stream_at m2 sid = Some st"
    and "recv_buf st = 0 # early"
  shows "\<exists>m3. setup_tunnel env sid addr port s m p =
            Some (Inr (), s\<lparr>written := written s @ reply_success\<rparr>, m3, p1) \<and>
            stream_at m3 sid = Some (st\<lparr>recv_buf := []\<rparr>)"
  using assms by (simp add: setup_tunnel_def read_stream_def write_all_def Let_def)

text \<open>The acceptance and the banner of the target in one frame.\<close>

theorem setup_drops_early_data_witness:
  "\<exists>m3 st n. stream_at m3 1 = Some (st\<lparr>recv_buf := []\<rparr>) \<and> recv_buf st = [0, 83, 83, 72] \<and>
     setup_tunnel (sample_tunnel\<lparr>answer_frames := [data_frame 0 1 0 [0, 83, 83, 72]]\<rparr>) 1 ''h'' 80 sample_conn sample_mux 0 =
       Some (Inr (), sample_conn\<lparr>written := reply_success\<rparr>, m3, n)"
proof -
  let ?env = "sample_tunnel\<lparr>answer_frames := [data_frame 0 1 0 [0, 83, 83, 72]]\<rparr>"
  let ?opened = "(new_stream 0 0)\<lparr>next_send_seq := 1\<rparr>"
  let ?m = "put_stream 1 ?opened sample_mux"
  let ?m2 = "receive_data 0 1 0 [0, 83, 83, 72] ?m"
  have sent: "send_data (send_frame ?env) 1 (bytes_of (json_text ?env j)) sample_mux 0 = (Inr (), ?m, Suc 0)" for j
    by (simp add: sample_tunnel_def send_data_def bytes_of_def chunks_short chunk_size_def sample_mux_def Let_def)
  let ?st = "fst (accept_segment 0 [0, 83, 83, 72] ?opened)"
  have st: "recv_buf ?st = [0, 83, 83, 72]" by (simp add: accept_segment_def drain.simps)
  have "stream_at ?m 1 = Some ?opened" and "st_client_id ?opened = 0" by simp_all
  note received = receive_data_stream [OF this, where q = 0 and d = "[0, 83, 83, 72]" and k = 1]
  have m2: "stream_at ?m2 1 = Some ?st" by (rule trans [OF received if_P]) (rule refl)
  have "snd (wait_check 1 ?m) = ?m" by (simp add: wait_check_def entry_or_insert_def)
  moreover have "handle_frames [data_frame 0 1 0 [0, 83, 83, 72]] ?m = Some ?m2"
    by (simp add: handle_data_frame chunk_size_def)
  moreover have "wait_check 1 ?m2 = (None, ?m2)"
    using st by (simp add: wait_check_def entry_or_insert_def m2 ready_def)
  ultimately have wait: "wait_answer 1 (answer_frames ?env) ?m = Some (True, ?m2)"
    by (simp add: wait_answer_def del: handle_frames.simps)
  have "write_failure sample_conn = None" by (simp add: sample_conn_def)
  from setup_drops_early_data [OF this sent wait m2 st]
  obtain m3 where "setup_tunnel ?env 1 ''h'' 80 sample_conn sample_mux 0 =
        Some (Inr (), sample_conn\<lparr>written := written sample_conn @ reply_success\<rparr>, m3, Suc 0)"
      and at: "stream_at m3 1 = Some (?st\<lparr>recv_buf := []\<rparr>)"
    by blast
  then have "setup_tunnel ?env 1 ''h'' 80 sample_conn sample_mux 0 =
        Some (Inr (), sample_conn\<lparr>written := reply_success\<rparr>, m3, Suc 0)"
    by (simp only: sample_conn_def conn.simps append_Nil)
  with at st show ?thesis by blast
qed

end
