(* ===== verification/Wire_Format.thy ===== *)
theory Wire_Format
  imports Vpn_Protocols
begin

text \<open>
  The JSON that goes over the command bridge: what the \<open>serde\<close> attributes of \<open>src/models.rs\<close> and
  \<open>src/errors.rs\<close> make of the data. A struct is an object with its fields in the order of their
  declaration under camel-case names, an enum its variant name in kebab or camel case, an absent
  \<open>Option\<close> is null; a field marked \<open>default\<close> may be missing and unknown fields are ignored. The
  errors of \<open>serde\<close> are \<^const>\<open>None\<close>; the positional form of a struct as an array, and a variant as an
  object, are left out. \<open>show_uuid\<close> and \<open>parse_uuid\<close> stand for the printer and the parser of the
  \<open>uuid\<close> crate.
\<close>

section \<open>Values\<close>

type_synonym fields = "(string \<times> json) list"

fun decode_bool :: "json \<Rightarrow> bool option" where
  "decode_bool (JBool b) = Some b"
| "decode_bool _ = None"

text \<open>An integer must fit its type.\<close>

definition decode_word :: "json \<Rightarrow> 'w::len word option" where
  "decode_word j =
     Option.bind (as_u64 j) (\<lambda>n. if unat n < 2 ^ LENGTH('w) then Some (ucast n) else None)"

definition encode_word :: "'w::len word \<Rightarrow> json" where
  "encode_word w = JNum (PosInt (ucast w))"

definition decode_opt :: "(json \<Rightarrow> 'a option) \<Rightarrow> json \<Rightarrow> 'a option option" where
  "decode_opt dec j = (if is_null j then Some None else map_option Some (dec j))"

fun decode_vec :: "(json \<Rightarrow> 'a option) \<Rightarrow> json \<Rightarrow> 'a list option" where
  "decode_vec dec (JArr js) = those (map dec js)"
| "decode_vec dec _ = None"

definition encode_vec :: "('a \<Rightarrow> json) \<Rightarrow> 'a list \<Rightarrow> json" where
  "encode_vec enc xs = JArr (map enc xs)"

fun decode_map :: "(json \<Rightarrow> 'a option) \<Rightarrow> json \<Rightarrow> (string, 'a) btree_map option" where
  "decode_map dec (JObj kvs) = those (map (\<lambda>(k, v). map_option (Pair k) (dec v)) kvs)"
| "decode_map dec _ = None"

definition encode_map :: "('a \<Rightarrow> json) \<Rightarrow> (string, 'a) btree_map \<Rightarrow> json" where
  "encode_map enc m = JObj (map (\<lambda>(k, v). (k, enc v)) m)"

definition decode_variant :: "('a \<Rightarrow> string) \<Rightarrow> 'a list \<Rightarrow> json \<Rightarrow> 'a option" where
  "decode_variant name variants j = Option.bind (as_str j) (\<lambda>s. find (\<lambda>x. name x = s) variants)"

definition decode_struct :: "(fields \<Rightarrow> 'a option) \<Rightarrow> json \<Rightarrow> 'a option" where
  "decode_struct dec j = (case j of JObj kvs \<Rightarrow> dec kvs | _ \<Rightarrow> None)"

text \<open>A required field, and one with a default.\<close>

definition field :: "string \<Rightarrow> (json \<Rightarrow> 'a option) \<Rightarrow> fields \<Rightarrow> 'a option" where
  "field k dec kvs = Option.bind (map_of kvs k) dec"

definition field_or :: "string \<Rightarrow> 'a \<Rightarrow> (json \<Rightarrow> 'a option) \<Rightarrow> fields \<Rightarrow> 'a option" where
  "field_or k d dec kvs = (case map_of kvs k of None \<Rightarrow> Some d | Some j \<Rightarrow> dec j)"

abbreviation opt_field :: "string \<Rightarrow> (json \<Rightarrow> 'a option) \<Rightarrow> fields \<Rightarrow> 'a option option" where
  "opt_field k dec \<equiv> field_or k None (decode_opt dec)"

subsection \<open>Decoding what was encoded\<close>

named_theorems wire \<open>decoding inverts encoding\<close>

lemma those_map_inverse: "(\<And>x. x \<in> set xs \<Longrightarrow> dec (enc x) = Some x) \<Longrightarrow> those (map (\<lambda>x. dec (enc x)) xs) = Some xs"
  by (induction xs) auto

lemma decode_encode_word [wire]:
  assumes "LENGTH('w::len) \<le> 64"
  shows "decode_word (encode_word (w :: 'w word)) = Some w"
proof -
  have bound: "unat w < 2 ^ LENGTH('w)" by (rule unat_bound)
  also have "(2 :: nat) ^ LENGTH('w) \<le> 2 ^ 64" using assms by (intro power_increasing) simp_all
  finally have wide: "unat (ucast w :: u64) = unat w"
    by (simp add: unsigned_ucast_eq take_bit_nat_eq_self)
  have "unat (ucast (ucast w :: u64) :: 'w word) = unat w"
    using bound by (subst unsigned_ucast_eq) (simp add: wide take_bit_nat_eq_self)
  then have "(ucast (ucast w :: u64) :: 'w word) = w" by (simp add: word_unat_eq_iff)
  with wide bound show ?thesis by (simp add: decode_word_def encode_word_def)
qed

lemma decode_encode_opt [wire]:
  assumes "\<And>x. v = Some x \<Longrightarrow> dec (enc x) = Some x" and "\<And>x. v = Some x \<Longrightarrow> \<not> is_null (enc x)"
  shows "decode_opt dec (json_opt enc v) = Some v"
  using assms by (cases v) (simp_all add: decode_opt_def)

lemma decode_encode_vec [wire]:
  "(\<And>x. x \<in> set xs \<Longrightarrow> dec (enc x) = Some x) \<Longrightarrow> decode_vec dec (encode_vec enc xs) = Some xs"
  using those_map_inverse [of xs dec enc] by (simp add: encode_vec_def comp_def)

lemma decode_encode_map [wire]:
  assumes "\<And>k x. (k, x) \<in> set m \<Longrightarrow> dec (enc x) = Some x"
  shows "decode_map dec (encode_map enc m) = Some m"
proof -
  have "those (map (\<lambda>(k, v). map_option (Pair k) (dec (enc v))) m) = Some m"
    using assms by (induction m) fastforce+
  then show ?thesis by (simp add: encode_map_def comp_def case_prod_unfold)
qed

lemma decode_str [wire]: "as_str (JStr s) = Some s"
  by simp

lemma encoded_not_null [wire]:
  "\<not> is_null (JStr s)" "\<not> is_null (JObj kvs)" "\<not> is_null (JArr js)" "\<not> is_null (JNum n)"
  "\<not> is_null (encode_vec enc xs)"
  by (simp_all add: encode_vec_def)

lemma decode_struct_object [simp]: "decode_struct dec (JObj kvs) = dec kvs"
  by (simp add: decode_struct_def)

section \<open>Variants\<close>

fun protocol_wire :: "vpn_protocol \<Rightarrow> string" where
  "protocol_wire Vless = ''vless''"
| "protocol_wire Vmess = ''vmess''"
| "protocol_wire Trojan = ''trojan''"
| "protocol_wire Shadowsocks = ''shadowsocks''"
| "protocol_wire WireGuard = ''wire-guard''"
| "protocol_wire Hysteria = ''hysteria''"
| "protocol_wire Hysteria2 = ''hysteria2''"
| "protocol_wire Tuic = ''tuic''"
| "protocol_wire Tun = ''tun''"
| "protocol_wire Mixed = ''mixed''"
| "protocol_wire Socks = ''socks''"
| "protocol_wire Http = ''http''"
| "protocol_wire OlcRtc = ''olc-rtc''"

fun transport_kind_wire :: "transport_kind \<Rightarrow> string" where
  "transport_kind_wire Tcp = ''tcp''"
| "transport_kind_wire WebSocket = ''web-socket''"
| "transport_kind_wire Grpc = ''grpc''"
| "transport_kind_wire HttpUpgrade = ''http-upgrade''"
| "transport_kind_wire Xhttp = ''xhttp''"
| "transport_kind_wire Quic = ''quic''"

fun dns_strategy_wire :: "dns_strategy \<Rightarrow> string" where
  "dns_strategy_wire Ipv4Only = ''ipv4-only''"
| "dns_strategy_wire Ipv6Only = ''ipv6-only''"
| "dns_strategy_wire PreferIpv4 = ''prefer-ipv4''"
| "dns_strategy_wire PreferIpv6 = ''prefer-ipv6''"

fun route_mode_wire :: "route_mode \<Rightarrow> string" where
  "route_mode_wire Global = ''global''"
| "route_mode_wire Rule = ''rule''"

fun phase_wire :: "connection_phase \<Rightarrow> string" where
  "phase_wire Disconnected = ''disconnected''"
| "phase_wire Connecting = ''connecting''"
| "phase_wire Connected = ''connected''"
| "phase_wire Disconnecting = ''disconnecting''"
| "phase_wire Failed = ''failed''"

definition decode_protocol :: "json \<Rightarrow> vpn_protocol option" where
  "decode_protocol = decode_variant protocol_wire Enum.enum"

definition decode_transport_kind :: "json \<Rightarrow> transport_kind option" where
  "decode_transport_kind =
     decode_variant transport_kind_wire [Tcp, WebSocket, Grpc, HttpUpgrade, Xhttp, Quic]"

definition decode_dns_strategy :: "json \<Rightarrow> dns_strategy option" where
  "decode_dns_strategy = decode_variant dns_strategy_wire [Ipv4Only, Ipv6Only, PreferIpv4, PreferIpv6]"

definition decode_route_mode :: "json \<Rightarrow> route_mode option" where
  "decode_route_mode = decode_variant route_mode_wire [Global, Rule]"

definition decode_phase :: "json \<Rightarrow> connection_phase option" where
  "decode_phase =
     decode_variant phase_wire [Disconnected, Connecting, Connected, Disconnecting, Failed]"

lemma decode_variants [wire]:
  "decode_protocol (JStr (protocol_wire a)) = Some a"
  "decode_transport_kind (JStr (transport_kind_wire b)) = Some b"
  "decode_dns_strategy (JStr (dns_strategy_wire c)) = Some c"
  "decode_route_mode (JStr (route_mode_wire d)) = Some d"
  "decode_phase (JStr (phase_wire e)) = Some e"
proof -
  note defs = decode_variant_def
  show "decode_protocol (JStr (protocol_wire a)) = Some a"
    by (cases a) (simp_all add: decode_protocol_def defs enum_vpn_protocol_def)
  show "decode_transport_kind (JStr (transport_kind_wire b)) = Some b"
    by (cases b) (simp_all add: decode_transport_kind_def defs)
  show "decode_dns_strategy (JStr (dns_strategy_wire c)) = Some c"
    by (cases c) (simp_all add: decode_dns_strategy_def defs)
  show "decode_route_mode (JStr (route_mode_wire d)) = Some d"
    by (cases d) (simp_all add: decode_route_mode_def defs)
  show "decode_phase (JStr (phase_wire e)) = Some e"
    by (cases e) (simp_all add: decode_phase_def defs)
qed

section \<open>Profiles\<close>

definition auth_fields :: "auth_options \<Rightarrow> fields" where
  "auth_fields a =
     [(''uuid'', json_opt JStr (auth_uuid a)), (''password'', json_opt JStr (auth_password a)),
      (''method'', json_opt JStr (auth_method a)), (''username'', json_opt JStr (auth_username a))]"

definition encode_auth :: "auth_options \<Rightarrow> json" where
  "encode_auth a = JObj (auth_fields a)"

definition decode_auth :: "json \<Rightarrow> auth_options option" where
  "decode_auth = decode_struct (\<lambda>kvs.
     do {
       u \<leftarrow> opt_field ''uuid'' as_str kvs;
       p \<leftarrow> opt_field ''password'' as_str kvs;
       m \<leftarrow> opt_field ''method'' as_str kvs;
       n \<leftarrow> opt_field ''username'' as_str kvs;
       Some \<lparr>auth_uuid = u, auth_password = p, auth_method = m, auth_username = n\<rparr>
     })"

definition transport_fields :: "transport \<Rightarrow> fields" where
  "transport_fields t =
     [(''kind'', JStr (transport_kind_wire (transport_kind t))),
      (''path'', json_opt JStr (transport_path t)), (''host'', json_opt JStr (transport_host t)),
      (''serviceName'', json_opt JStr (transport_service_name t)),
      (''headers'', encode_map JStr (transport_headers t))]"

definition encode_transport :: "transport \<Rightarrow> json" where
  "encode_transport t = JObj (transport_fields t)"

definition decode_transport :: "json \<Rightarrow> transport option" where
  "decode_transport = decode_struct (\<lambda>kvs.
     do {
       k \<leftarrow> field ''kind'' decode_transport_kind kvs;
       p \<leftarrow> opt_field ''path'' as_str kvs;
       h \<leftarrow> opt_field ''host'' as_str kvs;
       n \<leftarrow> opt_field ''serviceName'' as_str kvs;
       hs \<leftarrow> field_or ''headers'' [] (decode_map as_str) kvs;
       Some \<lparr>transport_kind = k, transport_path = p, transport_host = h, transport_service_name = n,
             transport_headers = hs\<rparr>
     })"

definition tls_fields :: "tls_options \<Rightarrow> fields" where
  "tls_fields t =
     [(''enabled'', JBool (tls_enabled t)), (''serverName'', json_opt JStr (tls_server_name t)),
      (''alpn'', encode_vec JStr (tls_alpn t)), (''insecure'', JBool (tls_insecure t)),
      (''fingerprint'', json_opt JStr (tls_fingerprint t))]"

definition encode_tls :: "tls_options \<Rightarrow> json" where
  "encode_tls t = JObj (tls_fields t)"

definition decode_tls :: "json \<Rightarrow> tls_options option" where
  "decode_tls = decode_struct (\<lambda>kvs.
     do {
       e \<leftarrow> field ''enabled'' decode_bool kvs;
       n \<leftarrow> opt_field ''serverName'' as_str kvs;
       a \<leftarrow> field_or ''alpn'' [] (decode_vec as_str) kvs;
       i \<leftarrow> field_or ''insecure'' False decode_bool kvs;
       f \<leftarrow> opt_field ''fingerprint'' as_str kvs;
       Some \<lparr>tls_enabled = e, tls_server_name = n, tls_alpn = a, tls_insecure = i, tls_fingerprint = f\<rparr>
     })"

definition reality_fields :: "reality_options \<Rightarrow> fields" where
  "reality_fields r =
     [(''publicKey'', JStr (reality_public_key r)),
      (''shortId'', json_opt JStr (reality_short_id r)),
      (''spiderX'', json_opt JStr (reality_spider_x r))]"

definition encode_reality :: "reality_options \<Rightarrow> json" where
  "encode_reality r = JObj (reality_fields r)"

definition decode_reality :: "json \<Rightarrow> reality_options option" where
  "decode_reality = decode_struct (\<lambda>kvs.
     do {
       k \<leftarrow> field ''publicKey'' as_str kvs;
       s \<leftarrow> opt_field ''shortId'' as_str kvs;
       x \<leftarrow> opt_field ''spiderX'' as_str kvs;
       Some \<lparr>reality_public_key = k, reality_short_id = s, reality_spider_x = x\<rparr>
     })"

definition wireguard_fields :: "wireguard_options \<Rightarrow> fields" where
  "wireguard_fields w =
     [(''privateKey'', JStr (wg_private_key w)),
      (''peerPublicKey'', json_opt JStr (wg_peer_public_key w)),
      (''preSharedKey'', json_opt JStr (wg_pre_shared_key w)),
      (''localAddress'', encode_vec JStr (wg_local_address w)),
      (''reserved'', json_opt (encode_vec encode_word) (wg_reserved w))]"

definition encode_wireguard :: "wireguard_options \<Rightarrow> json" where
  "encode_wireguard w = JObj (wireguard_fields w)"

definition decode_wireguard :: "json \<Rightarrow> wireguard_options option" where
  "decode_wireguard = decode_struct (\<lambda>kvs.
     do {
       k \<leftarrow> field ''privateKey'' as_str kvs;
       p \<leftarrow> opt_field ''peerPublicKey'' as_str kvs;
       s \<leftarrow> opt_field ''preSharedKey'' as_str kvs;
       a \<leftarrow> field_or ''localAddress'' [] (decode_vec as_str) kvs;
       r \<leftarrow> opt_field ''reserved'' (decode_vec decode_word) kvs;
       Some \<lparr>wg_private_key = k, wg_peer_public_key = p, wg_pre_shared_key = s,
             wg_local_address = a, wg_reserved = r\<rparr>
     })"

lemmas part_fields_defs = auth_fields_def transport_fields_def tls_fields_def reality_fields_def
  wireguard_fields_def

lemma decode_parts [wire]:
  "decode_auth (encode_auth a) = Some a"
  "decode_transport (encode_transport t) = Some t"
  "decode_tls (encode_tls s) = Some s"
  "decode_reality (encode_reality r) = Some r"
  "decode_wireguard (encode_wireguard w) = Some w"
  by (simp_all add: decode_auth_def encode_auth_def decode_transport_def encode_transport_def
      decode_tls_def encode_tls_def decode_reality_def encode_reality_def decode_wireguard_def
      encode_wireguard_def part_fields_defs field_def field_or_def wire)

lemma parts_not_null [wire]:
  "\<not> is_null (encode_auth a)" "\<not> is_null (encode_transport t)" "\<not> is_null (encode_tls s)"
  "\<not> is_null (encode_reality r)" "\<not> is_null (encode_wireguard w)"
  by (simp_all add: encode_auth_def encode_transport_def encode_tls_def encode_reality_def
      encode_wireguard_def)

definition decode_uuid :: "(string \<Rightarrow> uuid option) \<Rightarrow> json \<Rightarrow> uuid option" where
  "decode_uuid parse_uuid j = Option.bind (as_str j) parse_uuid"

definition profile_fields :: "(uuid \<Rightarrow> string) \<Rightarrow> vpn_profile \<Rightarrow> fields" where
  "profile_fields show_uuid p =
     [(''id'', JStr (show_uuid (profile_id p))), (''name'', JStr (profile_name p)),
      (''protocol'', JStr (protocol_wire (profile_protocol p))), (''server'', JStr (profile_server p)),
      (''port'', encode_word (profile_port p)), (''auth'', encode_auth (profile_auth p)),
      (''transport'', encode_transport (profile_transport p)),
      (''tls'', json_opt encode_tls (profile_tls p)),
      (''reality'', json_opt encode_reality (profile_reality p)),
      (''wireguard'', json_opt encode_wireguard (profile_wireguard p)),
      (''extra'', encode_map (\<lambda>j. j) (profile_extra p))]"

definition encode_profile :: "(uuid \<Rightarrow> string) \<Rightarrow> vpn_profile \<Rightarrow> json" where
  "encode_profile show_uuid p = JObj (profile_fields show_uuid p)"

definition decode_profile :: "(string \<Rightarrow> uuid option) \<Rightarrow> json \<Rightarrow> vpn_profile option" where
  "decode_profile parse_uuid = decode_struct (\<lambda>kvs.
     do {
       i \<leftarrow> field ''id'' (decode_uuid parse_uuid) kvs;
       n \<leftarrow> field ''name'' as_str kvs;
       p \<leftarrow> field ''protocol'' decode_protocol kvs;
       s \<leftarrow> field ''server'' as_str kvs;
       port \<leftarrow> field ''port'' decode_word kvs;
       a \<leftarrow> field ''auth'' decode_auth kvs;
       t \<leftarrow> field_or ''transport'' default_transport decode_transport kvs;
       tls \<leftarrow> opt_field ''tls'' decode_tls kvs;
       r \<leftarrow> opt_field ''reality'' decode_reality kvs;
       w \<leftarrow> opt_field ''wireguard'' decode_wireguard kvs;
       e \<leftarrow> field_or ''extra'' [] (decode_map Some) kvs;
       Some \<lparr>profile_id = i, profile_name = n, profile_protocol = p, profile_server = s,
             profile_port = port, profile_auth = a, profile_transport = t, profile_tls = tls,
             profile_reality = r, profile_wireguard = w, profile_extra = e\<rparr>
     })"

lemma decode_encode_profile:
  assumes "\<And>u. parse_uuid (show_uuid u) = Some u"
  shows "decode_profile parse_uuid (encode_profile show_uuid p) = Some p"
  using assms
  by (simp add: decode_profile_def encode_profile_def profile_fields_def decode_uuid_def field_def field_or_def wire)

section \<open>Connect options\<close>

definition dns_fields :: "dns_options \<Rightarrow> fields" where
  "dns_fields d =
     [(''strategy'', JStr (dns_strategy_wire (dns_opt_strategy d))),
      (''servers'', encode_vec JStr (dns_servers d))]"

definition encode_dns_options :: "dns_options \<Rightarrow> json" where
  "encode_dns_options d = JObj (dns_fields d)"

definition decode_dns_options :: "json \<Rightarrow> dns_options option" where
  "decode_dns_options = decode_struct (\<lambda>kvs.
     do {
       s \<leftarrow> field ''strategy'' decode_dns_strategy kvs;
       ss \<leftarrow> field ''servers'' (decode_vec as_str) kvs;
       Some \<lparr>dns_opt_strategy = s, dns_servers = ss\<rparr>
     })"

text \<open>The fields of the options, with the JSON of the profile.\<close>

definition options_fields :: "json \<Rightarrow> connect_options \<Rightarrow> fields" where
  "options_fields profile_json opts =
     [(''profile'', profile_json),
      (''routeMode'', JStr (route_mode_wire (opt_route_mode opts))),
      (''routeBypassCidrs'', encode_vec JStr (opt_route_bypass_cidrs opts)),
      (''dns'', encode_dns_options (opt_dns opts)),
      (''killSwitch'', JBool (opt_kill_switch opts))]"

definition encode_connect_options :: "(uuid \<Rightarrow> string) \<Rightarrow> connect_options \<Rightarrow> json" where
  "encode_connect_options show_uuid opts =
     JObj (options_fields (encode_profile show_uuid (opt_profile opts)) opts)"

definition decode_connect_options :: "(string \<Rightarrow> uuid option) \<Rightarrow> json \<Rightarrow> connect_options option" where
  "decode_connect_options parse_uuid = decode_struct (\<lambda>kvs.
     do {
       p \<leftarrow> field ''profile'' (decode_profile parse_uuid) kvs;
       m \<leftarrow> field_or ''routeMode'' default decode_route_mode kvs;
       cs \<leftarrow> field_or ''routeBypassCidrs'' [] (decode_vec as_str) kvs;
       d \<leftarrow> field_or ''dns'' default_dns_options decode_dns_options kvs;
       k \<leftarrow> field_or ''killSwitch'' False decode_bool kvs;
       Some \<lparr>opt_profile = p, opt_route_mode = m, opt_route_bypass_cidrs = cs, opt_dns = d,
             opt_kill_switch = k\<rparr>
     })"

lemma decode_dns_options_inverse [wire]: "decode_dns_options (encode_dns_options d) = Some d"
  by (simp add: decode_dns_options_def encode_dns_options_def dns_fields_def field_def wire)

lemma decode_encode_options:
  assumes "\<And>u. parse_uuid (show_uuid u) = Some u"
  shows "decode_connect_options parse_uuid (encode_connect_options show_uuid opts) = Some opts"
  by (simp add: decode_connect_options_def encode_connect_options_def options_fields_def field_def field_or_def
      decode_encode_profile [OF assms] wire)

section \<open>Answers\<close>

definition encode_stats :: "traffic_stats \<Rightarrow> json" where
  "encode_stats s =
     JObj [(''uploadedBytes'', encode_word (uploaded_bytes s)),
           (''downloadedBytes'', encode_word (downloaded_bytes s))]"

definition decode_stats :: "json \<Rightarrow> traffic_stats option" where
  "decode_stats = decode_struct (\<lambda>kvs.
     do {
       u \<leftarrow> field ''uploadedBytes'' decode_word kvs;
       d \<leftarrow> field ''downloadedBytes'' decode_word kvs;
       Some \<lparr>uploaded_bytes = u, downloaded_bytes = d\<rparr>
     })"

definition encode_status :: "(uuid \<Rightarrow> string) \<Rightarrow> connection_status \<Rightarrow> json" where
  "encode_status show_uuid s =
     JObj [(''phase'', JStr (phase_wire (phase s))),
           (''activeProfileId'', json_opt (\<lambda>u. JStr (show_uuid u)) (active_profile_id s)),
           (''message'', json_opt JStr (message s)), (''stats'', encode_stats (stats s))]"

definition decode_status :: "(string \<Rightarrow> uuid option) \<Rightarrow> json \<Rightarrow> connection_status option" where
  "decode_status parse_uuid = decode_struct (\<lambda>kvs.
     do {
       p \<leftarrow> field ''phase'' decode_phase kvs;
       u \<leftarrow> opt_field ''activeProfileId'' (decode_uuid parse_uuid) kvs;
       m \<leftarrow> opt_field ''message'' as_str kvs;
       s \<leftarrow> field ''stats'' decode_stats kvs;
       Some \<lparr>phase = p, active_profile_id = u, message = m, stats = s\<rparr>
     })"

definition encode_imported :: "(uuid \<Rightarrow> string) \<Rightarrow> imported_server \<Rightarrow> json" where
  "encode_imported show_uuid i =
     JObj [(''profile'', encode_profile show_uuid (imported_profile i)),
           (''warnings'', encode_vec JStr (imported_warnings i))]"

definition decode_imported :: "(string \<Rightarrow> uuid option) \<Rightarrow> json \<Rightarrow> imported_server option" where
  "decode_imported parse_uuid = decode_struct (\<lambda>kvs.
     do {
       p \<leftarrow> field ''profile'' (decode_profile parse_uuid) kvs;
       ws \<leftarrow> field ''warnings'' (decode_vec as_str) kvs;
       Some \<lparr>imported_profile = p, imported_warnings = ws\<rparr>
     })"

definition encode_validation :: "validation_result \<Rightarrow> json" where
  "encode_validation v =
     JObj [(''valid'', JBool (valid v)), (''errors'', encode_vec JStr (errors v)),
           (''warnings'', encode_vec JStr (warnings v))]"

definition decode_validation :: "json \<Rightarrow> validation_result option" where
  "decode_validation = decode_struct (\<lambda>kvs.
     do {
       b \<leftarrow> field ''valid'' decode_bool kvs;
       es \<leftarrow> field ''errors'' (decode_vec as_str) kvs;
       ws \<leftarrow> field ''warnings'' (decode_vec as_str) kvs;
       Some \<lparr>valid = b, errors = es, warnings = ws\<rparr>
     })"

definition encode_protocol_info :: "protocol_info \<Rightarrow> json" where
  "encode_protocol_info i =
     JObj [(''protocol'', JStr (protocol_wire (info_protocol i))),
           (''displayName'', JStr (info_display_name i)),
           (''supportedOn'', encode_vec JStr (info_supported_on i)),
           (''uriSchemes'', encode_vec JStr (info_uri_schemes i))]"

definition decode_protocol_info :: "json \<Rightarrow> protocol_info option" where
  "decode_protocol_info = decode_struct (\<lambda>kvs.
     do {
       p \<leftarrow> field ''protocol'' decode_protocol kvs;
       n \<leftarrow> field ''displayName'' as_str kvs;
       os \<leftarrow> field ''supportedOn'' (decode_vec as_str) kvs;
       ss \<leftarrow> field ''uriSchemes'' (decode_vec as_str) kvs;
       Some \<lparr>info_protocol = p, info_display_name = n, info_supported_on = os, info_uri_schemes = ss\<rparr>
     })"

text \<open>Errors are only encoded: a code, and the message of the variants that have one.\<close>

definition coded :: "string \<Rightarrow> string \<Rightarrow> json" where
  "coded code m = JObj [(''code'', JStr code), (''message'', JStr m)]"

fun encode_error :: "vpn_error \<Rightarrow> json" where
  "encode_error (Unsupported m) = coded ''Unsupported'' m"
| "encode_error (InvalidProfile m) = coded ''InvalidProfile'' m"
| "encode_error (Import m) = coded ''Import'' m"
| "encode_error AlreadyRunning = JObj [(''code'', JStr ''AlreadyRunning'')]"
| "encode_error NotRunning = JObj [(''code'', JStr ''NotRunning'')]"
| "encode_error (Engine m) = coded ''Engine'' m"
| "encode_error (Platform m) = coded ''Platform'' m"
| "encode_error (Io m) = coded ''Io'' m"

lemma decode_stats_inverse [wire]: "decode_stats (encode_stats s) = Some s"
  by (simp add: decode_stats_def encode_stats_def field_def wire)

text \<open>Two errors that look the same to the client are the same.\<close>

lemma encode_error_inj: "encode_error e = encode_error e' \<Longrightarrow> e = e'"
  by (cases e; cases e') (simp_all add: coded_def)

section \<open>What comes back\<close>

text \<open>What the plugin answers can be read back: the status, an imported server, a validation
  result and an entry of the protocol table are determined by their JSON.\<close>

theorem answers_roundtrip:
  assumes "\<And>u. parse_uuid (show_uuid u) = Some u"
  shows "decode_status parse_uuid (encode_status show_uuid s) = Some s \<and>
     decode_imported parse_uuid (encode_imported show_uuid i) = Some i \<and>
     decode_validation (encode_validation v) = Some v \<and>
     decode_protocol_info (encode_protocol_info info) = Some info"
proof (intro conjI)
  show "decode_status parse_uuid (encode_status show_uuid s) = Some s"
    using assms by (simp add: decode_status_def encode_status_def field_def field_or_def decode_uuid_def wire)
  show "decode_imported parse_uuid (encode_imported show_uuid i) = Some i"
    using decode_encode_profile [OF assms]
    by (simp add: decode_imported_def encode_imported_def field_def wire)
  show "decode_validation (encode_validation v) = Some v"
    by (simp add: decode_validation_def encode_validation_def field_def wire)
  show "decode_protocol_info (encode_protocol_info info) = Some info"
    by (simp add: decode_protocol_info_def encode_protocol_info_def field_def wire)
qed

end
