(* ===== verification/Wb_Stream.thy ===== *)
theory Wb_Stream
  imports Socks_Client Wire_Format
begin

text \<open>
  \<open>src/olcrtc/wbstream.rs\<close> and the start of \<open>src/olcrtc/client.rs\<close>: the four HTTP calls that
  fetch a room token, the peer's send queue and its close, the accept loop, and the start of the
  client. The HTTP service, the LiveKit room and the sockets are arguments.
\<close>

section \<open>The HTTP service\<close>

datatype http_method = Get | Post

record http_request =
  req_method :: http_method
  req_url :: string
  req_bearer :: "string option"
  req_body :: "json option"
  req_query :: "(string \<times> string) list"

text \<open>
  \<open>resp_body\<close> is the body as JSON, or the text of the error of its parser; \<open>resp_mismatch\<close> the text
  of the error when the JSON is not of the expected shape.
\<close>

record http_response =
  resp_status :: nat
  resp_status_text :: string
  resp_text :: "string option"
  resp_body :: "string + json"
  resp_mismatch :: string

type_synonym http = "http_request \<Rightarrow> string + http_response"

text \<open>A call gives its result and the requests it made.\<close>

type_synonym 'a http_call = "'a vpn_result \<times> http_request list"

definition call_then :: "'a http_call \<Rightarrow> ('a \<Rightarrow> 'b http_call) \<Rightarrow> 'b http_call" where
  "call_then c f =
     (case c of
        (Inl e, reqs) \<Rightarrow> (Inl e, reqs)
      | (Inr x, reqs) \<Rightarrow> (let (r, more) = f x in (r, reqs @ more)))"

definition api_base :: string where
  "api_base = ''https://stream.wb.ru''"

definition expect_status :: "http_response \<Rightarrow> nat list \<Rightarrow> string \<Rightarrow> http_response vpn_result" where
  "expect_status response expected operation =
     (if List.member expected (resp_status response) then Inr response
      else Inl (Engine (operation @ '' failed with '' @ resp_status_text response @ '': '' @
                        unwrap_or (resp_text response) [])))"

text \<open>Send, check the status, decode a field; \<open>operation\<close> begins every message.\<close>

definition http_send ::
    "http \<Rightarrow> http_request \<Rightarrow> nat list \<Rightarrow> string \<Rightarrow> http_response http_call" where
  "http_send http req expected operation =
     (and_then (map_err (\<lambda>e. Engine (operation @ '' failed: '' @ e)) (http req))
        (\<lambda>response. expect_status response expected operation), [req])"

definition decoded :: "(json \<Rightarrow> 'a option) \<Rightarrow> http_response \<Rightarrow> string + 'a" where
  "decoded dec response =
     and_then (resp_body response) (\<lambda>j. ok_or (dec j) (resp_mismatch response))"

definition decode_response :: "string \<Rightarrow> (json \<Rightarrow> 'a option) \<Rightarrow> http_response \<Rightarrow> 'a http_call" where
  "decode_response operation dec response =
     (map_err (\<lambda>e. Engine (operation @ '' decode failed: '' @ e)) (decoded dec response), [])"

subsection \<open>Bodies\<close>

record device =
  device_name :: string
  device_type :: string

record guest_register_request =
  guest_display_name :: string
  guest_device :: device

record create_room_request =
  room_type :: string
  room_privacy :: string

definition encode_device :: "device \<Rightarrow> json" where
  "encode_device d =
     JObj [(''deviceName'', JStr (device_name d)), (''deviceType'', JStr (device_type d))]"

definition encode_guest_register_request :: "guest_register_request \<Rightarrow> json" where
  "encode_guest_register_request r =
     JObj [(''displayName'', JStr (guest_display_name r)), (''device'', encode_device (guest_device r))]"

definition encode_create_room_request :: "create_room_request \<Rightarrow> json" where
  "encode_create_room_request r =
     JObj [(''roomType'', JStr (room_type r)), (''roomPrivacy'', JStr (room_privacy r))]"

text \<open>The responses have one field each, which is all that is used of them.\<close>

definition decode_guest_register_response :: "json \<Rightarrow> string option" where
  "decode_guest_register_response = decode_struct (field ''accessToken'' as_str)"

definition decode_create_room_response :: "json \<Rightarrow> string option" where
  "decode_create_room_response = decode_struct (field ''roomId'' as_str)"

definition decode_token_response :: "json \<Rightarrow> string option" where
  "decode_token_response = decode_struct (field ''roomToken'' as_str)"

subsection \<open>The calls\<close>

definition register_request :: "string \<Rightarrow> http_request" where
  "register_request display_name =
     \<lparr>req_method = Post, req_url = api_base @ ''/auth/api/v1/auth/user/guest-register'',
      req_bearer = None,
      req_body = Some (encode_guest_register_request
        \<lparr>guest_display_name = display_name,
         guest_device = \<lparr>device_name = ''Windows'', device_type = ''PARTICIPANT_DEVICE_TYPE_WEB_DESKTOP''\<rparr>\<rparr>),
      req_query = []\<rparr>"

definition register_guest :: "http \<Rightarrow> string \<Rightarrow> string http_call" where
  "register_guest http display_name =
     call_then (http_send http (register_request display_name) [200] ''WB Stream guest register'')
       (decode_response ''WB Stream guest register'' decode_guest_register_response)"

definition create_request :: "string \<Rightarrow> http_request" where
  "create_request access_token =
     \<lparr>req_method = Post, req_url = api_base @ ''/api-room/api/v2/room'',
      req_bearer = Some access_token,
      req_body = Some (encode_create_room_request
        \<lparr>room_type = ''ROOM_TYPE_ALL_ON_SCREEN'', room_privacy = ''ROOM_PRIVACY_FREE''\<rparr>),
      req_query = []\<rparr>"

definition create_room :: "http \<Rightarrow> string \<Rightarrow> string http_call" where
  "create_room http access_token =
     call_then (http_send http (create_request access_token) [200, 201] ''WB Stream create room'')
       (decode_response ''WB Stream create room'' decode_create_room_response)"

definition join_request :: "string \<Rightarrow> string \<Rightarrow> http_request" where
  "join_request access_token room_id =
     \<lparr>req_method = Post, req_url = api_base @ ''/api-room/api/v1/room/'' @ room_id @ ''/join'',
      req_bearer = Some access_token, req_body = Some (JObj []), req_query = []\<rparr>"

definition join_room :: "http \<Rightarrow> string \<Rightarrow> string \<Rightarrow> unit http_call" where
  "join_room http access_token room_id =
     call_then (http_send http (join_request access_token room_id) [200] ''WB Stream join room'')
       (\<lambda>_. (Inr (), []))"

definition token_request :: "string \<Rightarrow> string \<Rightarrow> string \<Rightarrow> http_request" where
  "token_request access_token room_id display_name =
     \<lparr>req_method = Get, req_url = api_base @ ''/api-room-manager/api/v1/room/'' @ room_id @ ''/token'',
      req_bearer = Some access_token, req_body = None,
      req_query = [(''deviceType'', ''PARTICIPANT_DEVICE_TYPE_WEB_DESKTOP''),
                   (''displayName'', display_name)]\<rparr>"

definition get_token :: "http \<Rightarrow> string \<Rightarrow> string \<Rightarrow> string \<Rightarrow> string http_call" where
  "get_token http access_token room_id display_name =
     call_then
       (http_send http (token_request access_token room_id display_name) [200] ''WB Stream room token'')
       (decode_response ''WB Stream room token'' decode_token_response)"

definition room_token :: "http \<Rightarrow> olc_rtc_config \<Rightarrow> string http_call" where
  "room_token http config =
     call_then (register_guest http (cfg_display_name config)) (\<lambda>access_token.
     call_then
       (if cfg_room_id config = ''any'' then create_room http access_token
        else (Inr (cfg_room_id config), [])) (\<lambda>room_id.
     call_then (join_room http access_token room_id) (\<lambda>_.
       get_token http access_token room_id (cfg_display_name config))))"

section \<open>The peer\<close>

definition send_queue_size :: nat where
  "send_queue_size = 5000"

text \<open>\<open>queue_open\<close>: the publishing task still takes messages; \<open>room_closes\<close> counts room closes.\<close>

record peer =
  peer_closed :: bool
  queue_open :: bool
  queue :: "byte list list"
  room_closes :: nat

text \<open>\<^const>\<open>None\<close>: the queue is full and the send waits.\<close>

definition peer_send :: "byte list \<Rightarrow> peer \<Rightarrow> (unit vpn_result \<times> peer) option" where
  "peer_send data p =
     (if peer_closed p then Some (Inl (Engine ''WB Stream peer is closed''), p)
      else if \<not> queue_open p then Some (Inl (Engine ''WB Stream send queue is closed''), p)
      else if length (queue p) < send_queue_size then Some (Inr (), p\<lparr>queue := queue p @ [data]\<rparr>)
      else None)"

definition peer_close :: "peer \<Rightarrow> peer" where
  "peer_close p =
     (if peer_closed p then p else p\<lparr>peer_closed := True, room_closes := Suc (room_closes p)\<rparr>)"

section \<open>The accept loop and the start of the client\<close>

datatype accept_event = Accepted nat | AcceptFailed | ShutdownChanged bool bool

text \<open>
  The connections handed to \<open>handle_socks5\<close>, and whether the loop has ended; \<open>ShutdownChanged\<close>
  carries whether the sender is gone and the value of the flag.
\<close>

fun accept_loop :: "accept_event list \<Rightarrow> nat list \<times> bool" where
  "accept_loop [] = ([], False)"
| "accept_loop (Accepted c # events) = (let (cs, over) = accept_loop events in (c # cs, over))"
| "accept_loop (AcceptFailed # events) = accept_loop events"
| "accept_loop (ShutdownChanged gone flag # events) =
     (if gone \<or> flag then ([], True) else accept_loop events)"

record platform_env =
  parse_socket_addr :: "string \<Rightarrow> string + unit"
  bind_listener :: "string + unit"
  connect_peer :: "olc_rtc_config \<Rightarrow> unit vpn_result"
  client_id_bytes :: "byte list"
  send_reset :: "frame \<Rightarrow> unit vpn_result"

datatype client_effect = ListenerBound | PeerConnected | FrameSent frame | TasksSpawned

definition random_client_id :: "byte list \<Rightarrow> u32" where
  "random_client_id bytes = u32_from_be bytes"

definition record_reset :: "platform_env \<Rightarrow> client_effect list send_fn" where
  "record_reset env frame es =
     (case send_reset env frame of
        Inl e \<Rightarrow> (Inl e, es)
      | Inr u \<Rightarrow> (Inr u, es @ [FrameSent frame]))"

text \<open>\<^const>\<open>None\<close> is a panic; the effects are what the start leaves behind, whatever its result.\<close>

definition start_platform ::
    "target_os \<Rightarrow> platform_env \<Rightarrow> olc_rtc_config \<Rightarrow>
     (multiplexer vpn_result \<times> client_effect list) option" where
  "start_platform os env config =
     (if os \<noteq> Windows \<and> os \<noteq> MacOS \<and> os \<noteq> Linux
      then Some (Inl (Unsupported ''OLC RTC Rust client is currently enabled for Windows/macOS/Linux desktop only''), [])
      else if cfg_provider config \<noteq> ''wb_stream''
      then Some (Inl (Unsupported (''unsupported OLC RTC provider '' @ cfg_provider config)), [])
      else
        case parse_socket_addr env
               (cfg_local_host config @ '':'' @ show_nat (unat (cfg_local_port config))) of
          Inl e \<Rightarrow> Some (Inl (InvalidProfile (''invalid OLC RTC local address: '' @ e)), [])
        | Inr _ \<Rightarrow>
        case bind_listener env of
          Inl e \<Rightarrow> Some (Inl (Engine (''OLC RTC SOCKS5 bind failed: '' @ e)), [])
        | Inr _ \<Rightarrow>
        case cipher_from_hex (cfg_key_hex config) of
          None \<Rightarrow> None
        | Some (Inl e) \<Rightarrow> Some (Inl e, [ListenerBound])
        | Some (Inr _) \<Rightarrow>
        case connect_peer env config of
          Inl e \<Rightarrow> Some (Inl e, [ListenerBound])
        | Inr _ \<Rightarrow>
            let mux = mux_new (random_client_id (client_id_bytes env)) in
            case send_client_reset (record_reset env) mux [ListenerBound, PeerConnected] of
              (Inl e, es) \<Rightarrow> Some (Inl e, es)
            | (Inr _, es) \<Rightarrow> Some (Inr mux, es @ [TasksSpawned]))"

section \<open>Properties\<close>

lemma call_then_success:
  assumes "call_then c f = (Inr y, reqs)"
  obtains x first more where "c = (Inr x, first)" "f x = (Inr y, more)" "reqs = first @ more"
  using assms by (auto simp: call_then_def split: prod.splits sum.splits)

text \<open>A request that was answered with a status the caller accepts.\<close>

definition answered_with :: "http \<Rightarrow> nat list \<Rightarrow> http_request \<Rightarrow> bool" where
  "answered_with http expected req \<longleftrightarrow>
     (case http req of Inl _ \<Rightarrow> False | Inr response \<Rightarrow> resp_status response \<in> set expected)"

lemma http_send_success:
  "http_send http req expected operation = (Inr response, reqs) \<Longrightarrow>
     reqs = [req] \<and> http req = Inr response \<and> answered_with http expected req"
  by (auto simp: http_send_def expect_status_def answered_with_def vpn_result split: if_splits sum.splits)

lemma field_call_success:
  assumes "call_then (http_send http req expected operation) (decode_response operation dec) = (Inr x, reqs)"
  shows "reqs = [req] \<and> answered_with http expected req \<and>
         (\<exists>response. http req = Inr response \<and> decoded dec response = Inr x)"
  using assms by (auto elim!: call_then_success dest!: http_send_success simp: decode_response_def map_err_Inr_iff)

lemma join_room_success:
  "join_room http access_token room_id = (Inr u, reqs) \<Longrightarrow>
     reqs = [join_request access_token room_id] \<and> answered_with http [200] (join_request access_token room_id)"
  by (auto simp: join_room_def elim!: call_then_success dest!: http_send_success)

text \<open>A room token is only ever the end of the whole exchange: the guest was registered under the
  display name, a room was created exactly when the configured room is \<open>any\<close>, and the room was
  joined before its token was asked for, each request with the access token the registration
  returned, in this order, and each answered with an accepted status.\<close>

theorem room_token_exchange:
  assumes "room_token http config = (Inr token, reqs)"
  shows "\<exists>access room.
     (\<exists>response. http (register_request (cfg_display_name config)) = Inr response \<and>
        decoded decode_guest_register_response response = Inr access) \<and>
     (if cfg_room_id config = ''any''
      then (\<exists>response. http (create_request access) = Inr response \<and> decoded decode_create_room_response response = Inr room)
      else room = cfg_room_id config) \<and>
     reqs = [register_request (cfg_display_name config)] @
       (if cfg_room_id config = ''any'' then [create_request access] else []) @
       [join_request access room, token_request access room (cfg_display_name config)] \<and>
     list_all (answered_with http [200, 201]) reqs \<and>
     (\<exists>response. http (token_request access room (cfg_display_name config)) = Inr response \<and>
        decoded decode_token_response response = Inr token)"
proof -
  obtain access r1 m1 where reg: "register_guest http (cfg_display_name config) = (Inr access, r1)"
    and rest: "call_then
       (if cfg_room_id config = ''any'' then create_room http access else (Inr (cfg_room_id config), []))
       (\<lambda>room_id. call_then (join_room http access room_id)
          (\<lambda>_. get_token http access room_id (cfg_display_name config))) = (Inr token, m1)"
    and reqs: "reqs = r1 @ m1"
    using assms unfolding room_token_def by (rule call_then_success) blast
  note reg' = field_call_success [OF reg [unfolded register_guest_def]]
  obtain room r2 m2 where create: "(if cfg_room_id config = ''any'' then create_room http access
       else (Inr (cfg_room_id config), [])) = (Inr room, r2)"
    and rest2: "call_then (join_room http access room)
          (\<lambda>_. get_token http access room (cfg_display_name config)) = (Inr token, m2)"
    and m1: "m1 = r2 @ m2"
    using rest by (rule call_then_success) blast
  obtain u r3 m3 where join: "join_room http access room = (Inr u, r3)"
    and tok: "get_token http access room (cfg_display_name config) = (Inr token, m3)" and m2: "m2 = r3 @ m3"
    using rest2 by (rule call_then_success) blast
  note join' = join_room_success [OF join] and tok' = field_call_success [OF tok [unfolded get_token_def]]
  have weaken: "answered_with http [200] r \<Longrightarrow> answered_with http [200, 201] r" for r
    by (auto simp: answered_with_def split: sum.splits)
  show ?thesis
  proof (cases "cfg_room_id config = ''any''")
    case True
    with create have "call_then (http_send http (create_request access) [200, 201] ''WB Stream create room'')
       (decode_response ''WB Stream create room'' decode_create_room_response) = (Inr room, r2)"
      by (simp add: create_room_def)
    note create' = field_call_success [OF this]
    show ?thesis
      by (rule exI [of _ access], rule exI [of _ room])
        (use True reg' create' join' tok' reqs m1 m2 weaken in auto)
  next
    case False
    with create have c: "room = cfg_room_id config" "r2 = []" by simp_all
    show ?thesis
      by (rule exI [of _ access], rule exI [of _ room])
        (use False reg' c join' tok' reqs m1 m2 weaken in auto)
  qed
qed

text \<open>C32: Starting the client from settings read from a profile. It never panics, refuses every platform but
  the desktops, and either gives the multiplexer of the fresh client identifier or an error.
  Its tasks run exactly when it succeeds, after the listener was bound, the peer joined and the
  reset frame of this identifier was sent, in this order; an identifier of zero is an error.\<close>

theorem start_platform_spec:
  assumes "from_profile p = Inr config"
  shows "\<exists>r es. start_platform os env config = Some (r, es) \<and>
     (case r of
        Inr mux \<Rightarrow> (os = Windows \<or> os = MacOS \<or> os = Linux) \<and>
          mux = mux_new (random_client_id (client_id_bytes env)) \<and> mux_client_id mux \<noteq> 0 \<and>
          es = [ListenerBound, PeerConnected, FrameSent (reset_frame (mux_client_id mux)), TasksSpawned]
      | Inl err \<Rightarrow> prefix es [ListenerBound, PeerConnected])"
proof -
  have ok: "cfg_provider config = ''wb_stream''" "valid_key_hex (cfg_key_hex config)"
    using conjunct1 [OF from_profile_sound [OF assms]] by (simp_all add: config_ok_def default_provider_def)
  obtain key where key: "cipher_from_hex (cfg_key_hex config) = Some (Inr key)"
    using decoded_key [OF ok(2)] by (auto simp: cipher_from_hex_def)
  show ?thesis
    by (simp add: start_platform_def ok(1) key send_client_reset_def record_reset_def mux_new_def Let_def
        split: sum.split)
qed

text \<open>A service that answers every call with status 200 and the field's name as its value.\<close>

definition echo_service :: http where
  "echo_service req =
     Inr \<lparr>resp_status = 200, resp_status_text = ''200 OK'', resp_text = None,
          resp_body = Inr (JObj [(''accessToken'', JStr ''accessToken''), (''roomId'', JStr ''roomId''),
            (''roomToken'', JStr ''roomToken'')]), resp_mismatch = ''missing field''\<rparr>"

definition any_room_config :: olc_rtc_config where
  "any_room_config = \<lparr>cfg_provider = ''wb_stream'', cfg_room_id = ''any'', cfg_key_hex = [],
     cfg_local_host = ''127.0.0.1'', cfg_local_port = 20808, cfg_display_name = ''guest''\<rparr>"

lemma echo_room_token: "\<exists>reqs. room_token echo_service any_room_config = (Inr ''roomToken'', reqs)"
  by (simp add: room_token_def register_guest_def create_room_def join_room_def get_token_def
      call_then_def http_send_def decode_response_def expect_status_def echo_service_def any_room_config_def
      map_err_def and_then_def decoded_def decode_guest_register_response_def decode_create_room_response_def
      decode_token_response_def field_def)

lemma room_token_exchange_witness:
  "\<exists>access room.
     (\<exists>response. echo_service (register_request (cfg_display_name any_room_config)) = Inr response \<and>
        decoded decode_guest_register_response response = Inr access) \<and>
     (\<exists>response. echo_service (create_request access) = Inr response \<and>
        decoded decode_create_room_response response = Inr room) \<and>
     room_token echo_service any_room_config =
       (Inr ''roomToken'', [register_request ''guest'', create_request access,
          join_request access room, token_request access room ''guest''])"
proof -
  obtain reqs where r: "room_token echo_service any_room_config = (Inr ''roomToken'', reqs)"
    using echo_room_token by blast
  have any: "cfg_room_id any_room_config = ''any''" "cfg_display_name any_room_config = ''guest''"
    by (simp_all add: any_room_config_def)
  show ?thesis
    using room_token_exchange [OF r] unfolding r any by auto
qed

definition sample_platform_env :: platform_env where
  "sample_platform_env =
     \<lparr>parse_socket_addr = (\<lambda>s. Inr ()), bind_listener = Inr (), connect_peer = (\<lambda>c. Inr ()),
      client_id_bytes = [0, 0, 0, 9], send_reset = (\<lambda>f. Inr ())\<rparr>"

theorem start_platform_spec_witness:
  "\<exists>config r es. from_profile sample_olcrtc = Inr config \<and>
     start_platform Linux sample_platform_env config = Some (r, es) \<and>
     (case r of
        Inr mux \<Rightarrow> es = [ListenerBound, PeerConnected, FrameSent (reset_frame (mux_client_id mux)), TasksSpawned]
      | Inl err \<Rightarrow> prefix es [ListenerBound, PeerConnected])"
  using start_platform_spec [OF sample_settings, of Linux sample_platform_env] sample_settings
  by (fastforce split: sum.splits)

end
