(* ===== verification/Olc_Link.thy ===== *)
theory Olc_Link
  imports Wb_Stream
begin

text \<open>
  The encrypted link of an OLC RTC connection: the send callback and the receiving task of
  \<open>src/olcrtc/client.rs\<close>, and the two tasks of \<open>WbStreamPeer::connect\<close> in
  \<open>src/olcrtc/wbstream.rs\<close> that stand between them and the room. The multiplexer, the cipher and
  the peer come together here: what one side sends is what the other side reads.
\<close>

section \<open>The tasks of the peer\<close>

definition livekit_ws_url :: string where
  "livekit_ws_url = ''wss://wbstream01-el.wb.ru:7880''"

definition data_topic :: string where
  "data_topic = ''olcrtc''"

text \<open>The task that forwards what the room receives; the list is what it puts into the channel.\<close>

datatype room_event = DataReceived "byte list" "string option" | RoomDisconnected | OtherEvent

fun forward_events :: "room_event list \<Rightarrow> byte list list" where
  "forward_events [] = []"
| "forward_events (DataReceived payload topic # events) =
     (if topic = Some data_topic then payload # forward_events events else forward_events events)"
| "forward_events (RoomDisconnected # events) = []"
| "forward_events (OtherEvent # events) = forward_events events"

text \<open>A new peer, after the token and the join of the room.\<close>

definition new_peer :: peer where
  "new_peer = \<lparr>peer_closed = False, queue_open = True, queue = [], room_closes = 0\<rparr>"

definition peer_connect ::
    "http \<Rightarrow> (string \<Rightarrow> string \<Rightarrow> string + unit) \<Rightarrow> olc_rtc_config \<Rightarrow> peer http_call" where
  "peer_connect http join config =
     call_then (room_token http config) (\<lambda>token.
       (and_then
          (map_err (\<lambda>e. Engine (''WB Stream LiveKit connect failed: '' @ e)) (join livekit_ws_url token))
          (\<lambda>_. Inr new_peer), []))"

text \<open>
  \<open>pace\<close> tells how many messages the publishing task takes before each send; the random nonces
  are a sequence; \<open>publish_ok\<close> tells which messages the room takes.
\<close>

record link_env =
  link_key :: "byte list"
  seal :: aead_fn
  unseal :: aead_fn
  nonce_of :: "nat \<Rightarrow> byte list"
  publish_ok :: "byte list \<Rightarrow> bool"
  pace :: "nat \<Rightarrow> nat"

record link =
  nonces_used :: nat
  link_peer :: peer
  published :: "byte list list"

text \<open>
  One message of the publishing task. After an error the task ends: the channel is closed and
  what is queued is lost.
\<close>

definition publish_one :: "link_env \<Rightarrow> link \<Rightarrow> link" where
  "publish_one env l =
     (let p = link_peer l in
      if \<not> queue_open p then l
      else
        case queue p of
          [] \<Rightarrow> l
        | payload # rest \<Rightarrow>
            if publish_ok env payload
            then l\<lparr>link_peer := p\<lparr>queue := rest\<rparr>, published := published l @ [payload]\<rparr>
            else l\<lparr>link_peer := p\<lparr>queue := [], queue_open := False\<rparr>\<rparr>)"

text \<open>A send into a full channel waits while the publishing task goes on.\<close>

function await_send :: "link_env \<Rightarrow> byte list \<Rightarrow> link \<Rightarrow> unit vpn_result \<times> link" where
  "await_send env data l =
     (case peer_send data (link_peer l) of
        Some (r, p) \<Rightarrow> (r, l\<lparr>link_peer := p\<rparr>)
      | None \<Rightarrow> await_send env data (publish_one env l))"
  by pat_completeness auto
termination
  by (relation "measure (\<lambda>(env, data, l). length (queue (link_peer l)))")
    (auto simp: peer_send_def publish_one_def send_queue_size_def Let_def split: if_splits list.splits)

declare await_send.simps [simp del]

text \<open>The send callback of the multiplexer: encrypt, then send through the peer.\<close>

definition send_sealed :: "link_env \<Rightarrow> link send_fn" where
  "send_sealed env frame l =
     (let l1 = (publish_one env ^^ pace env (nonces_used l)) l
      in case encrypt (seal env) (link_key env) (nonce_of env (nonces_used l1)) frame of
           Inl e \<Rightarrow> (Inl e, l1\<lparr>nonces_used := Suc (nonces_used l1)\<rparr>)
         | Inr encrypted \<Rightarrow> await_send env encrypted (l1\<lparr>nonces_used := Suc (nonces_used l1)\<rparr>))"

text \<open>The receiving task; \<^const>\<open>None\<close> is a panic.\<close>

fun incoming_loop :: "link_env \<Rightarrow> byte list list \<Rightarrow> multiplexer \<Rightarrow> multiplexer option" where
  "incoming_loop env [] m = Some m"
| "incoming_loop env (data # rest) m =
     (case decrypt (unseal env) (link_key env) data of
        Inl _ \<Rightarrow> incoming_loop env rest m
      | Inr frame \<Rightarrow>
          (case handle_frame frame m of
             None \<Rightarrow> None
           | Some m' \<Rightarrow> incoming_loop env rest m'))"

section \<open>Sending through a channel that carries frames\<close>

text \<open>
  The contract of a send callback that accepts every frame and carries it: \<open>carries log p\<close> says
  that the state \<open>p\<close> stands for the frames \<open>log\<close>. Sending on the multiplexer then does what it
  does over the recording channel.
\<close>

locale carrier =
  fixes send :: "'p send_fn"
    and carries :: "frame list \<Rightarrow> 'p \<Rightarrow> bool"
  assumes send_carries: "carries log p \<Longrightarrow> \<exists>p'. send f p = (Inr (), p') \<and> carries (log @ [f]) p'"
begin

lemma send_chunks_carries:
  assumes "carries log p" and "send_chunks record_send sid cs m log = (r, m', log')"
  shows "\<exists>p'. send_chunks send sid cs m p = (r, m', p') \<and> carries log' p'"
  using assms
proof (induction cs arbitrary: m log p)
  case Nil
  then show ?case by simp
next
  case (Cons c cs)
  show ?case
  proof (cases "stream_at m sid")
    case None
    with Cons.prems show ?thesis by auto
  next
    case (Some st)
    show ?thesis
    proof (cases "closed st")
      case True
      with Some Cons.prems show ?thesis by auto
    next
      case False
      let ?f = "data_frame (mux_client_id m) sid (next_send_seq st) c"
      let ?m = "put_stream sid (st\<lparr>next_send_seq := next_send_seq st + 1\<rparr>) m"
      obtain p1 where p1: "send ?f p = (Inr (), p1)" "carries (log @ [?f]) p1"
        using send_carries Cons.prems(1) by blast
      have "send_chunks record_send sid cs ?m (log @ [?f]) = (r, m', log')"
        using Cons.prems(2) Some False by (simp add: record_send_def [of ?f log] Let_def)
      from Cons.IH [OF p1(2) this] p1(1) Some False show ?thesis by (simp add: Let_def)
    qed
  qed
qed

lemma send_data_carries:
  "carries log p \<Longrightarrow> send_data record_send sid data m log = (r, m', log') \<Longrightarrow>
     \<exists>p'. send_data send sid data m p = (r, m', p') \<and> carries log' p'"
  unfolding send_data_def by (rule send_chunks_carries)

end

text \<open>
  The link works: nonces have their length, sealing succeeds and is undone by unsealing, and the
  room takes every message.
\<close>

definition link_works :: "link_env \<Rightarrow> bool" where
  "link_works env \<longleftrightarrow>
     (\<forall>i. length (nonce_of env i) = nonce_len) \<and>
     (\<forall>n m. \<exists>c. seal env (link_key env) n m = Inr c \<and> unseal env (link_key env) n c = Inr m) \<and>
     (\<forall>payload. publish_ok env payload)"

definition opens_to :: "link_env \<Rightarrow> byte list \<Rightarrow> frame \<Rightarrow> bool" where
  "opens_to env data frame \<longleftrightarrow> decrypt (unseal env) (link_key env) data = Inr frame"

text \<open>The messages that left the multiplexer: published, or still in the queue.\<close>

definition packets :: "link \<Rightarrow> byte list list" where
  "packets l = published l @ queue (link_peer l)"

definition link_carries :: "link_env \<Rightarrow> frame list \<Rightarrow> link \<Rightarrow> bool" where
  "link_carries env log l \<longleftrightarrow>
     link_works env \<and> \<not> peer_closed (link_peer l) \<and> queue_open (link_peer l) \<and>
     list_all2 (opens_to env) (packets l) log"

lemma publish_one_carries: "link_carries env log l \<Longrightarrow> link_carries env log (publish_one env l)"
  by (auto simp: link_carries_def publish_one_def packets_def link_works_def Let_def split: list.split)

lemma publish_carries: "link_carries env log l \<Longrightarrow> link_carries env log ((publish_one env ^^ n) l)"
  by (induction n) (simp_all add: publish_one_carries)

lemma count_carries: "link_carries env log (l\<lparr>nonces_used := n\<rparr>) = link_carries env log l"
  by (simp add: link_carries_def packets_def)

lemma packets_snoc:
  "list_all2 P (ps @ qs) log \<Longrightarrow> P d f \<Longrightarrow> list_all2 P (ps @ qs @ [d]) (log @ [f])"
  using list_all2_appendI [of P "ps @ qs" log "[d]" "[f]"] by simp

lemma await_send_carries:
  assumes "link_carries env log l" and "opens_to env data frame"
  shows "\<exists>l'. await_send env data l = (Inr (), l') \<and> link_carries env (log @ [frame]) l'"
  using assms
proof (induction env data l rule: await_send.induct)
  case (1 env data l)
  show ?case
  proof (cases "peer_send data (link_peer l)")
    case None
    with 1 publish_one_carries show ?thesis
      by (simp add: await_send.simps [of env data l])
  next
    case (Some rp)
    with "1.prems" have rp: "rp = (Inr (), link_peer l\<lparr>queue := queue (link_peer l) @ [data]\<rparr>)"
      by (auto simp: peer_send_def link_carries_def split: if_splits)
    have "list_all2 (opens_to env) (published l @ queue (link_peer l) @ [data]) (log @ [frame])"
      by (rule packets_snoc) (use "1.prems" in \<open>simp_all add: link_carries_def packets_def\<close>)
    with "1.prems" Some rp show ?thesis
      by (simp add: await_send.simps [of env data l] link_carries_def packets_def)
  qed
qed

lemma send_sealed_carries:
  assumes "link_carries env log l"
  shows "\<exists>l'. send_sealed env frame l = (Inr (), l') \<and> link_carries env (log @ [frame]) l'"
proof -
  let ?l1 = "(publish_one env ^^ pace env (nonces_used l)) l"
  let ?n = "nonce_of env (nonces_used ?l1)"
  have works: "link_works env" using assms by (simp add: link_carries_def)
  then obtain c where c: "seal env (link_key env) ?n frame = Inr c" "unseal env (link_key env) ?n c = Inr frame"
    and n: "length ?n = nonce_len"
    unfolding link_works_def by blast
  have enc: "encrypt (seal env) (link_key env) ?n frame = Inr (?n @ c)"
    using c(1) by (simp add: encrypt_def)
  have "opens_to env (?n @ c) frame" using c(2) n by (simp add: opens_to_def decrypt_def)
  moreover have "link_carries env log (?l1\<lparr>nonces_used := Suc (nonces_used ?l1)\<rparr>)"
    using assms by (simp only: count_carries publish_carries)
  ultimately show ?thesis
    using await_send_carries by (simp add: send_sealed_def Let_def enc)
qed

interpretation sealed: carrier "send_sealed env" "link_carries env" for env
  by unfold_locales (rule send_sealed_carries)

section \<open>Receiving\<close>

text \<open>The receiving task handles the frames of the packets that open, and only those.\<close>

definition opened_frames :: "link_env \<Rightarrow> byte list list \<Rightarrow> frame list" where
  "opened_frames env datas =
     List.map_filter (\<lambda>d. case decrypt (unseal env) (link_key env) d of Inl _ \<Rightarrow> None | Inr f \<Rightarrow> Some f) datas"

lemma incoming_loop_frames: "incoming_loop env datas m = handle_frames (opened_frames env datas) m"
proof (induction datas arbitrary: m)
  case Nil
  then show ?case by (simp add: opened_frames_def List.map_filter_simps)
next
  case (Cons d datas)
  then show ?case
    by (simp add: opened_frames_def List.map_filter_simps split: sum.split option.split)
qed

lemma opened_frames_filter:
  "opened_frames env datas = opened_frames env (filter (\<lambda>d. \<exists>f. opens_to env d f) datas)"
  by (induction datas)
    (auto simp: opened_frames_def List.map_filter_simps opens_to_def split: sum.split)

lemma opened_frames_opens:
  "list_all2 (opens_to env) datas fs \<Longrightarrow> opened_frames env datas = fs"
  by (induction rule: list_all2_induct)
    (simp_all add: opened_frames_def List.map_filter_simps opens_to_def)

lemma opened_frames_nth:
  assumes "list_all2 (opens_to env) ps fs" and "set js \<subseteq> {..<length ps}"
  shows "opened_frames env (map ((!) ps) js) = map ((!) fs) js"
  by (rule opened_frames_opens)
    (use assms in \<open>auto simp: list_all2_conv_all_nth subset_iff\<close>)

section \<open>End to end\<close>

text \<open>C1: What is sent through the encrypted link is what the other side reads. Bytes sent on an open
  stream leave as one sealed packet per segment, in order, whatever the pace of the publishing
  task. Whatever the room then delivers to a peer with the same key (the packets in any arrival
  order the window allows, with duplicates, among messages of other topics and any packets that
  do not open under the key), the peer reads exactly those bytes and both sides agree on the next
  sequence number.\<close>

theorem encrypted_delivery:
  assumes "link_works env" and "link_peer l = new_peer" and "published l = []"
    and "stream_at a sid = Some sa" and "\<not> closed sa"
    and "stream_at b sid = Some sb" and "st_client_id sb = mux_client_id a"
    and "next_recv_seq sb = next_send_seq sa" and "out_of_order sb = []" and "recv_buf sb = []"
    and "unat (next_send_seq sa) + length (chunks chunk_size data) < 2 ^ 32"
    and "arrival_ok (length (chunks chunk_size data)) js"
  shows "\<exists>a' l' sa'. send_data (send_sealed env) sid data a l = (Inr (), a', l') \<and>
     stream_at a' sid = Some sa' \<and> length (packets l') = length (chunks chunk_size data) \<and>
     (\<forall>events.
        filter (\<lambda>d. \<exists>f. opens_to env d f) (forward_events events) = map ((!) (packets l')) js \<longrightarrow>
        (\<exists>b' sb'. incoming_loop env (forward_events events) b = Some b' \<and>
           fst (read_stream sid b') = data \<and> stream_at b' sid = Some sb' \<and>
           next_recv_seq sb' = next_send_seq sa'))"
proof -
  obtain a' sent b' sa' sb' where send: "send_data record_send sid data a [] = (Inr (), a', sent)"
    and recv: "handle_frames (map ((!) sent) js) b = Some b'" "fst (read_stream sid b') = data"
    "stream_at a' sid = Some sa'" "stream_at b' sid = Some sb'" "next_recv_seq sb' = next_send_seq sa'"
    using sent_received [OF assms(4-12)] by blast
  have "link_carries env [] l"
    using assms(1-3) by (simp add: link_carries_def packets_def new_peer_def)
  from sealed.send_data_carries [OF this send] obtain l'
    where l': "send_data (send_sealed env) sid data a l = (Inr (), a', l')" "link_carries env sent l'"
    by blast
  have all2: "list_all2 (opens_to env) (packets l') sent" using l'(2) by (simp add: link_carries_def)
  obtain m log where "send_data record_send sid data a [] = (Inr (), m, log)"
      "length log = length (chunks chunk_size data)"
    using send_chunks_log [OF assms(4,5), of "chunks chunk_size data" "[]"] by (auto simp: send_data_def)
  with send all2 have len: "length (packets l') = length (chunks chunk_size data)"
    by (simp add: list_all2_lengthD)
  have "incoming_loop env (forward_events events) b = Some b'"
    if "filter (\<lambda>d. \<exists>f. opens_to env d f) (forward_events events) = map ((!) (packets l')) js" for events
  proof -
    have "opened_frames env (forward_events events) = opened_frames env (map ((!) (packets l')) js)"
      using opened_frames_filter [of env "forward_events events"] that by simp
    also have "\<dots> = map ((!) sent) js"
      by (rule opened_frames_nth [OF all2]) (use assms(12) len in \<open>simp add: arrival_ok_def\<close>)
    finally show ?thesis using recv(1) by (simp add: incoming_loop_frames)
  qed
  with l'(1) recv len show ?thesis by blast
qed

section \<open>When publishing fails\<close>

lemma send_sealed_shut:
  assumes "\<not> peer_closed (link_peer l)" and "\<not> queue_open (link_peer l)"
    and "encrypt (seal env) (link_key env) (nonce_of env (nonces_used l)) frame = Inr c"
  shows "send_sealed env frame l =
     (Inl (Engine ''WB Stream send queue is closed''), l\<lparr>nonces_used := Suc (nonces_used l)\<rparr>)"
proof -
  have idle: "publish_one env l = l" using assms(2) by (simp add: publish_one_def)
  have "(publish_one env ^^ n) l = l" for n by (induction n) (simp_all add: idle)
  then show ?thesis
    using assms by (simp add: send_sealed_def await_send.simps peer_send_def)
qed

text \<open>What may happen to a link afterwards: rounds of the publishing task and sends of any frames, with any result.\<close>

inductive link_later :: "link_env \<Rightarrow> link \<Rightarrow> link \<Rightarrow> bool" for env l where
  later_now: "link_later env l l"
| later_publish: "link_later env l l1 \<Longrightarrow> link_later env l (publish_one env l1)"
| later_send: "link_later env l l1 \<Longrightarrow> send_sealed env frame l1 = (r, l2) \<Longrightarrow> link_later env l l2"

definition link_shut :: "link \<Rightarrow> bool" where
  "link_shut l \<longleftrightarrow> \<not> peer_closed (link_peer l) \<and> \<not> queue_open (link_peer l) \<and> queue (link_peer l) = []"

lemma shut_send:
  assumes "link_shut l" and "\<And>n m. \<exists>c. seal env (link_key env) n m = Inr c"
  shows "send_sealed env frame l =
     (Inl (Engine ''WB Stream send queue is closed''), l\<lparr>nonces_used := Suc (nonces_used l)\<rparr>)"
proof -
  obtain c where "seal env (link_key env) (nonce_of env (nonces_used l)) frame = Inr c"
    using assms(2) by blast
  then have "encrypt (seal env) (link_key env) (nonce_of env (nonces_used l)) frame =
      Inr (nonce_of env (nonces_used l) @ c)"
    by (simp add: encrypt_def)
  with assms(1) send_sealed_shut show ?thesis by (simp add: link_shut_def)
qed

lemma shut_later:
  assumes "link_later env l l'" and "link_shut l" and "\<And>n m. \<exists>c. seal env (link_key env) n m = Inr c"
  shows "link_shut l' \<and> published l' = published l"
  using assms(1)
proof (induction rule: link_later.induct)
  case later_now
  with assms(2) show ?case by simp
next
  case (later_publish l1)
  then show ?case by (simp add: link_shut_def publish_one_def)
next
  case (later_send l1 frame r l2)
  then have "l2 = l1\<lparr>nonces_used := Suc (nonces_used l1)\<rparr>"
    using shut_send [OF _ assms(3), of l1 frame] by simp
  with later_send.IH show ?case by (simp add: link_shut_def)
qed

text \<open>C37: One message the room refuses ends the sending side for good. The publishing task stops and
  everything queued behind the message is lost although its sends succeeded. From then on, after any number of
  further sends of any frames, on any streams, and rounds of the task, the link has published nothing more,
  the peer does not count as closed, and every send on an open stream fails, while it still uses up a
  sequence number.\<close>

theorem publish_failure_stops_sending:
  assumes "\<not> peer_closed (link_peer l)" and "queue_open (link_peer l)"
    and "queue (link_peer l) = payload # rest" and "\<not> publish_ok env payload"
    and "\<And>n m. \<exists>c. seal env (link_key env) n m = Inr c"
    and "link_later env (publish_one env l) l'"
    and "stream_at a sid = Some sa" and "\<not> closed sa" and "data \<noteq> []"
  shows "packets l' = published l \<and> \<not> peer_closed (link_peer l') \<and>
     (\<exists>l''. send_data (send_sealed env) sid data a l' =
        (Inl (Engine ''WB Stream send queue is closed''),
         put_stream sid (sa\<lparr>next_send_seq := next_send_seq sa + 1\<rparr>) a, l'') \<and>
        packets l'' = published l)"
proof -
  have "link_shut (publish_one env l)" "published (publish_one env l) = published l"
    using assms(1-4) by (simp_all add: publish_one_def link_shut_def Let_def)
  with shut_later [OF assms(6) _ assms(5)] have l': "link_shut l'" "published l' = published l" by simp_all
  obtain c cs where chunks: "chunks chunk_size data = c # cs"
    using assms(9) unfolding chunks.simps [of chunk_size data] by (simp add: chunk_size_def)
  from shut_send [OF l'(1) assms(5)] l' assms(7,8) show ?thesis
    by (simp add: send_data_def chunks Let_def packets_def link_shut_def)
qed

section \<open>Witnesses\<close>

text \<open>A stand-in for the AEAD: the key's first byte as a tag.\<close>

definition sample_link_env :: link_env where
  "sample_link_env =
     \<lparr>link_key = [7], seal = (\<lambda>k n m. Inr (7 # m)),
      unseal = (\<lambda>k n c. case c of [] \<Rightarrow> Inl ''short'' | t # m \<Rightarrow> if t = 7 then Inr m else Inl ''tag''),
      nonce_of = (\<lambda>i. replicate 24 (of_nat i)), publish_ok = (\<lambda>payload. True), pace = (\<lambda>i. 1)\<rparr>"

definition sample_link :: link where
  "sample_link = \<lparr>nonces_used = 0, link_peer = new_peer, published = []\<rparr>"

lemma sample_link_works: "link_works sample_link_env"
  by (simp add: link_works_def sample_link_env_def nonce_len_def)

text \<open>The packet arrives behind one that is too short to open, and once more under another topic.\<close>

theorem encrypted_delivery_witness:
  "\<exists>a' l' b'. send_data (send_sealed sample_link_env) 5 [104, 105]
       (put_stream 5 (new_stream 0 0) (mux_new 1)) sample_link = (Inr (), a', l') \<and>
     length (packets l') = 1 \<and>
     (opens_to sample_link_env (packets l' ! 0) (data_frame 1 5 0 [104, 105]) \<and>
      incoming_loop sample_link_env
        (forward_events [DataReceived [1, 2] (Some ''olcrtc''), DataReceived (packets l' ! 0) (Some ''olcrtc''),
           DataReceived (packets l' ! 0) None, OtherEvent, DataReceived (packets l' ! 0) (Some ''olcrtc'')])
        (put_stream 5 (new_stream 1 0) (mux_new 0)) = Some b' \<and>
      fst (read_stream 5 b') = [104, 105])"
proof -
  let ?a = "put_stream 5 (new_stream 0 0) (mux_new 1)" and ?b = "put_stream 5 (new_stream 1 0) (mux_new 0)"
  have one: "chunks chunk_size [104, 105 :: byte] = [[104, 105]]"
    by (rule chunks_short) (simp_all add: chunk_size_def)
  have link: "link_peer sample_link = new_peer" "published sample_link = []"
    by (simp_all add: sample_link_def)
  have id: "mux_client_id (mux_new 1) = 1" by (simp add: mux_new_def)
  obtain a' l' where send: "send_data (send_sealed sample_link_env) 5 [104, 105] ?a sample_link = (Inr (), a', l')"
    and len: "length (packets l') = 1"
    and recv': "\<forall>events. filter (\<lambda>d. \<exists>f. opens_to sample_link_env d f) (forward_events events) =
        map ((!) (packets l')) [0, 0] \<longrightarrow>
        (\<exists>b'. incoming_loop sample_link_env (forward_events events) ?b = Some b' \<and> fst (read_stream 5 b') = [104, 105])"
    using encrypted_delivery [OF sample_link_works link, of ?a 5 "new_stream 0 0" ?b "new_stream 1 0"
        "[104, 105]" "[0, 0]"] arrival_1 unfolding one by (simp add: id) blast
  have recv: "\<exists>b'. incoming_loop sample_link_env (forward_events events) ?b = Some b' \<and>
      fst (read_stream 5 b') = [104, 105]"
    if "filter (\<lambda>d. \<exists>f. opens_to sample_link_env d f) (forward_events events) = map ((!) (packets l')) [0, 0]" for events
    using recv' that by blast
  have carries: "link_carries sample_link_env [] sample_link"
    by (simp add: link_carries_def sample_link_works packets_def sample_link_def new_peer_def)
  have "send_data record_send 5 [104, 105] ?a [] =
      (Inr (), put_stream 5 ((new_stream 0 0)\<lparr>next_send_seq := 1\<rparr>) ?a, [data_frame 1 5 0 [104, 105]])"
    by (simp add: send_data_def one record_send_def id Let_def)
  from sealed.send_data_carries [OF carries this] send
  have opens: "opens_to sample_link_env (packets l' ! 0) (data_frame 1 5 0 [104, 105])"
    using len by (auto simp: link_carries_def list_all2_conv_all_nth)
  have junk: "\<not> opens_to sample_link_env [1, 2] f" for f
    by (simp add: opens_to_def decrypt_def nonce_len_def)
  let ?p = "packets l' ! 0"
  let ?events = "[DataReceived [1, 2] (Some ''olcrtc''), DataReceived ?p (Some ''olcrtc''),
      DataReceived ?p None, OtherEvent, DataReceived ?p (Some ''olcrtc'')]"
  have "filter (\<lambda>d. \<exists>f. opens_to sample_link_env d f) (forward_events ?events) = [?p, ?p]"
    using junk opens by (auto simp: data_topic_def simp del: incoming_loop.simps)
  then have "filter (\<lambda>d. \<exists>f. opens_to sample_link_env d f) (forward_events ?events) =
      map ((!) (packets l')) [0, 0]" by simp
  from recv [OF this] send len opens show ?thesis by blast
qed

text \<open>The first of two queued messages is refused; a send has failed since, and so does the next.\<close>

theorem publish_failure_stops_sending_witness:
  "let env = sample_link_env\<lparr>publish_ok := (\<lambda>d. d \<noteq> [1])\<rparr>;
       l = sample_link\<lparr>link_peer := new_peer\<lparr>queue := [[1], [2]]\<rparr>\<rparr>;
       later = snd (send_sealed env [9] (publish_one env l)) in
   packets later = [] \<and>
   fst (send_data (send_sealed env) 5 [104] (put_stream 5 (new_stream 0 0) (mux_new 1)) later) =
     Inl (Engine ''WB Stream send queue is closed'')"
proof -
  let ?env = "sample_link_env\<lparr>publish_ok := (\<lambda>d. d \<noteq> [1])\<rparr>"
  let ?l = "sample_link\<lparr>link_peer := new_peer\<lparr>queue := [[1], [2]]\<rparr>\<rparr>"
  have l: "\<not> peer_closed (link_peer ?l)" "queue_open (link_peer ?l)" "queue (link_peer ?l) = [1] # [[2]]"
    "\<not> publish_ok ?env [1]" "published ?l = []" "\<exists>c. seal ?env (link_key ?env) n m = Inr c" for n m
    by (simp_all add: new_peer_def sample_link_env_def sample_link_def)
  have later: "link_later ?env (publish_one ?env ?l) (snd (send_sealed ?env [9] (publish_one ?env ?l)))"
    by (rule later_send [OF later_now prod.collapse [symmetric]])
  have a: "stream_at (put_stream 5 (new_stream 0 0) (mux_new 1)) 5 = Some (new_stream 0 0)"
    "\<not> closed (new_stream 0 0)" "[104 :: byte] \<noteq> []" by simp_all
  from publish_failure_stops_sending [OF l(1-4,6) later a] l(5) show ?thesis by (auto simp: Let_def)
qed

end
