(* ===== verification/Macos_Vpn.thy ===== *)
theory Macos_Vpn
  imports Vpn_Models "HOL-Library.Multiset"
begin

text \<open>
  \<open>src/macos_vpn.rs\<close>: the VPN profile in the macOS settings. The NetworkExtension framework is an
  argument, the record \<open>network_extension\<close> over its own state (the stored preferences and the
  connections); a completion handler that is not called within the 30 seconds of
  \<open>recv_timeout\<close> is the outcome of a time-out. What is relied on of the framework is the
  hypothesis \<open>saves_persist\<close>.
\<close>

section \<open>The framework\<close>

datatype ne_status = NeInvalid | NeDisconnected | NeConnecting | NeConnected | NeReasserting | NeDisconnecting

record tunnel_protocol =
  provider_bundle :: string
  server_address :: string
  provider_configuration :: "(string \<times> string) list option"

text \<open>A manager object; \<open>mgr_ref\<close> is \<^const>\<open>None\<close> for one that was never saved.\<close>

record manager =
  mgr_ref :: "nat option"
  mgr_description :: "string option"
  mgr_protocol :: "tunnel_protocol option"
  mgr_enabled :: bool

text \<open>
  An error carries the description \<open>ns_error_description\<close> reads, \<^const>\<open>None\<close> when the object cannot be retained;
  a list of managers is \<^const>\<open>None\<close> for a null pointer.
\<close>

datatype load_outcome = LoadTimedOut | LoadError "string option" | Loaded "manager list option"
datatype save_outcome = SaveTimedOut | SaveError "string option" | Saved

record 'p network_extension =
  ne_load :: "'p \<Rightarrow> load_outcome"
  ne_save :: "manager \<Rightarrow> 'p \<Rightarrow> save_outcome \<times> 'p"
  ne_is_session :: "manager \<Rightarrow> 'p \<Rightarrow> bool"
  ne_start :: "manager \<Rightarrow> (string \<times> string) list \<Rightarrow> 'p \<Rightarrow> (string + unit) \<times> 'p"
  ne_stop :: "manager \<Rightarrow> 'p \<Rightarrow> 'p"
  ne_status_of :: "manager \<Rightarrow> 'p \<Rightarrow> ne_status"

type_synonym ('a, 'p) ne_op = "'p \<Rightarrow> 'a vpn_result \<times> 'p"

definition ne_then :: "('a, 'p) ne_op \<Rightarrow> ('a \<Rightarrow> ('b, 'p) ne_op) \<Rightarrow> ('b, 'p) ne_op" where
  "ne_then m f = (\<lambda>p. case m p of (Inl e, p') \<Rightarrow> (Inl e, p') | (Inr x, p') \<Rightarrow> f x p')"

section \<open>The operations\<close>

definition tunnel_description :: string where
  "tunnel_description = ''KOSTRA VPN''"

definition provider_bundle_identifier :: string where
  "provider_bundle_identifier = ''com.kostravpn.macos.PacketTunnel''"

definition ns_error_description :: "string option \<Rightarrow> string" where
  "ns_error_description e = unwrap_or e ''unknown NSError''"

definition find_manager :: "manager list option \<Rightarrow> string \<Rightarrow> manager option" where
  "find_manager managers description =
     Option.bind managers (find (\<lambda>m. mgr_description m = Some description))"

definition new_manager :: manager where
  "new_manager = \<lparr>mgr_ref = None, mgr_description = None, mgr_protocol = None, mgr_enabled = False\<rparr>"

definition tunnel_protocol_for :: "string \<Rightarrow> tunnel_protocol" where
  "tunnel_protocol_for active_id =
     \<lparr>provider_bundle = provider_bundle_identifier, server_address = tunnel_description,
      provider_configuration =
        (if active_id = [] then None else Some [(''activeProfileId'', active_id)])\<rparr>"

definition set_up_manager :: "string \<Rightarrow> manager \<Rightarrow> manager" where
  "set_up_manager active_id m =
     m\<lparr>mgr_protocol := Some (tunnel_protocol_for active_id),
       mgr_description := Some tunnel_description, mgr_enabled := True\<rparr>"

text \<open>The configuration argument of \<open>save_vpn_profile\<close> is not used there.\<close>

definition save_error :: "string \<Rightarrow> vpn_error" where
  "save_error e = Platform (e @ ''. Check the app signature, NetworkExtension entitlement, provisioning profile, and embedded PacketTunnel extension.'')"

definition save_timeout :: vpn_error where
  "save_timeout = Platform ''timed out while adding KOSTRA VPN to macOS VPN settings''"

definition save_vpn_profile ::
    "'p network_extension \<Rightarrow> string option \<Rightarrow> string option \<Rightarrow> (unit, 'p) ne_op" where
  "save_vpn_profile ne config_json active_id p =
     (case ne_load ne p of
        LoadTimedOut \<Rightarrow> (Inl save_timeout, p)
      | LoadError e \<Rightarrow>
          (Inl (save_error (''failed to load macOS VPN preferences: '' @ ns_error_description e)), p)
      | Loaded managers \<Rightarrow>
          let manager = unwrap_or (find_manager managers tunnel_description) new_manager
          in case ne_save ne (set_up_manager (unwrap_or active_id []) manager) p of
               (SaveTimedOut, p') \<Rightarrow> (Inl save_timeout, p')
             | (SaveError e, p') \<Rightarrow>
                 (Inl (save_error (''failed to save macOS VPN preferences: '' @ ns_error_description e)), p')
             | (Saved, p') \<Rightarrow> (Inr (), p'))"

definition load_manager :: "'p network_extension \<Rightarrow> (manager, 'p) ne_op" where
  "load_manager ne p =
     (case ne_load ne p of
        LoadTimedOut \<Rightarrow>
          Inl (Platform ''timed out while loading KOSTRA VPN from macOS VPN settings'')
      | LoadError e \<Rightarrow>
          Inl (Platform (''failed to reload macOS VPN preferences: '' @ ns_error_description e))
      | Loaded managers \<Rightarrow>
          ok_or (find_manager managers tunnel_description)
            (Platform ''KOSTRA VPN profile was not found in macOS VPN settings''), p)"

definition install_vpn_profile :: "'p network_extension \<Rightarrow> (unit, 'p) ne_op" where
  "install_vpn_profile ne = save_vpn_profile ne None None"

definition start_session :: "'p network_extension \<Rightarrow> string \<Rightarrow> manager \<Rightarrow> (unit, 'p) ne_op" where
  "start_session ne config_json manager p =
     (if \<not> ne_is_session ne manager p
      then (Inl (Platform ''macOS VPN connection is not a NETunnelProviderSession''), p)
      else
        case ne_start ne manager [(''configContent'', config_json)] p of
          (Inl e, p') \<Rightarrow> (Inl (Platform (''failed to start macOS system VPN tunnel: '' @ e)), p')
        | (Inr _, p') \<Rightarrow> (Inr (), p'))"

definition start_vpn_profile ::
    "'p network_extension \<Rightarrow> string \<Rightarrow> string option \<Rightarrow> (unit, 'p) ne_op" where
  "start_vpn_profile ne config_json active_id =
     ne_then (save_vpn_profile ne (Some config_json) active_id) (\<lambda>_.
     ne_then (load_manager ne) (start_session ne config_json))"

definition stop_vpn_profile :: "'p network_extension \<Rightarrow> (unit, 'p) ne_op" where
  "stop_vpn_profile ne =
     ne_then (load_manager ne) (\<lambda>manager p. (Inr (), ne_stop ne manager p))"

definition vpn_profile_status :: "'p network_extension \<Rightarrow> (ne_status, 'p) ne_op" where
  "vpn_profile_status ne =
     ne_then (load_manager ne) (\<lambda>manager p. (Inr (ne_status_of ne manager p), p))"

definition is_vpn_profile_connected :: "'p network_extension \<Rightarrow> (bool, 'p) ne_op" where
  "is_vpn_profile_connected ne =
     ne_then (vpn_profile_status ne) (\<lambda>s p. (Inr (s = NeConnected \<or> s = NeReasserting), p))"

section \<open>One profile\<close>

text \<open>The managers of this plugin.\<close>

abbreviation is_ours :: "manager \<Rightarrow> bool" where
  "is_ours m \<equiv> mgr_description m = Some tunnel_description"

text \<open>A manager and what the system may make of it when another one is enabled.\<close>

definition switched_off :: "manager \<Rightarrow> manager \<Rightarrow> bool" where
  "switched_off x y \<longleftrightarrow> y = x \<or> y = x\<lparr>mgr_enabled := False\<rparr>"

text \<open>
  What the code relies on. Saving a stored manager replaces it, saving a new one adds it under a
  fresh reference; at most one VPN is enabled at a time, so saving an enabled manager may switch the
  others off, and changes nothing else of them. The order in which managers are listed is not fixed. A
  save that fails does so or leaves the stored managers as they are (one that timed out may have gone
  through), and starting and stopping a tunnel leave them as they are. Stored managers have distinct
  references.
\<close>

definition stored :: "'p network_extension \<Rightarrow> 'p \<Rightarrow> manager list \<Rightarrow> bool" where
  "stored ne p ms \<longleftrightarrow>
     (ne_load ne p = Loaded (Some ms) \<and> distinct (map mgr_ref ms) \<and> None \<notin> mgr_ref ` set ms)"

definition stored_after :: "manager \<Rightarrow> manager list \<Rightarrow> manager list \<Rightarrow> bool" where
  "stored_after m ms ms' \<longleftrightarrow>
     (\<exists>xs. list_all2 (if mgr_enabled m then switched_off else (=)) ms xs \<and>
       (if mgr_ref m = None
        then \<exists>r. mset ms' = mset (xs @ [m\<lparr>mgr_ref := Some r\<rparr>])
        else mset ms' = mset (map (\<lambda>x. if mgr_ref x = mgr_ref m then m else x) xs)))"

definition saves_persist :: "'p network_extension \<Rightarrow> bool" where
  "saves_persist ne \<longleftrightarrow>
     (\<forall>p ms m p'. stored ne p ms \<and> ne_save ne m p = (Saved, p') \<longrightarrow>
        (\<exists>ms'. stored ne p' ms' \<and> stored_after m ms ms')) \<and>
     (\<forall>p ms m out p'. stored ne p ms \<and> ne_save ne m p = (out, p') \<and> out \<noteq> Saved \<longrightarrow>
        stored ne p' ms \<or> (\<exists>ms'. stored ne p' ms' \<and> stored_after m ms ms')) \<and>
     (\<forall>p ms m opts r p'. stored ne p ms \<and> ne_start ne m opts p = (r, p') \<longrightarrow> stored ne p' ms) \<and>
     (\<forall>p ms m. stored ne p ms \<longrightarrow> stored ne (ne_stop ne m p) ms)"

lemma find_split:
  assumes "find P xs = Some x"
  obtains pre post where "xs = pre @ x # post" "P x" "\<forall>y \<in> set pre. \<not> P y"
  using assms
proof (induction xs arbitrary: thesis)
  case Nil
  then show ?case by simp
next
  case (Cons a xs)
  show ?case
  proof (cases "P a")
    case True
    with Cons.prems show ?thesis by (auto intro: Cons.prems(1) [of "[]" xs])
  next
    case False
    with Cons.prems(2) have "find P xs = Some x" by simp
    from Cons.IH [OF _ this] obtain pre post where "xs = pre @ x # post" "P x" "\<forall>y \<in> set pre. \<not> P y"
      by blast
    with False Cons.prems(1) [of "a # pre" post] show ?thesis by auto
  qed
qed

lemma persistD:
  assumes "saves_persist ne" and "stored ne p ms"
  shows "ne_save ne m p = (Saved, p') \<Longrightarrow> \<exists>ms'. stored ne p' ms' \<and> stored_after m ms ms'"
    and "ne_save ne m p = (out, p') \<Longrightarrow> out \<noteq> Saved \<Longrightarrow>
      stored ne p' ms \<or> (\<exists>ms'. stored ne p' ms' \<and> stored_after m ms ms')"
    and "ne_start ne m opts p = (r, p') \<Longrightarrow> stored ne p' ms"
    and "stored ne (ne_stop ne m p) ms"
  using assms unfolding saves_persist_def by blast+

text \<open>The effect of a save on the managers, by the others and by ours.\<close>

abbreviation our_manager :: "manager list \<Rightarrow> manager" where
  "our_manager ms \<equiv> unwrap_or (find is_ours ms) new_manager"

abbreviation other_managers :: "manager list \<Rightarrow> manager multiset" where
  "other_managers ms \<equiv> mset (filter (\<lambda>x. \<not> is_ours x) ms)"

text \<open>The other managers as they were, but for some that were switched off.\<close>

abbreviation left_alone :: "manager multiset \<Rightarrow> manager multiset \<Rightarrow> bool" where
  "left_alone \<equiv> rel_mset switched_off"

lemma switched_off_fields:
  "switched_off x y \<Longrightarrow> mgr_description y = mgr_description x \<and> mgr_ref y = mgr_ref x"
  by (auto simp: switched_off_def)

lemma left_alone_refl: "left_alone M M"
  by (rule multiset.rel_refl) (simp add: switched_off_def)

lemma left_alone_trans:
  assumes "left_alone A B" and "left_alone B C" shows "left_alone A C"
proof -
  have "switched_off OO switched_off \<le> switched_off" by (auto simp: switched_off_def)
  from multiset.rel_mono [OF this] assms show ?thesis by (auto simp: multiset.rel_compp)
qed

lemma switched_off_filter:
  assumes "list_all2 switched_off xs ys"
  shows "list_all2 switched_off (filter (\<lambda>x. \<not> is_ours x) xs) (filter (\<lambda>x. \<not> is_ours x) ys) \<and>
    (\<forall>x \<in> set xs. \<not> is_ours x) = (\<forall>y \<in> set ys. \<not> is_ours y) \<and> map mgr_ref ys = map mgr_ref xs"
  using assms by (induction rule: list_all2_induct) (auto dest: switched_off_fields)

lemma mset_filter_eq: "mset xs = mset ys \<Longrightarrow> mset (filter P xs) = mset (filter P ys)"
  by simp

lemma left_alone_list: "list_all2 switched_off xs ys \<Longrightarrow> left_alone (mset xs) (mset ys)"
  by (auto simp: rel_mset_def)

lemma stored_after_managers:
  assumes "stored ne p ms" and "length (filter is_ours ms) \<le> 1"
    and "stored_after (set_up_manager id_text (our_manager ms)) ms ms'"
  shows "\<exists>m. filter is_ours ms' = [m] \<and> left_alone (other_managers ms) (other_managers ms') \<and>
     mgr_enabled m \<and> mgr_protocol m = Some (tunnel_protocol_for id_text)"
proof -
  have dist: "distinct (map mgr_ref ms)" and refs: "None \<notin> mgr_ref ` set ms"
    using assms(1) by (simp_all add: stored_def)
  have set_up: "is_ours (set_up_manager id_text x)" "mgr_enabled (set_up_manager id_text x)"
      "mgr_protocol (set_up_manager id_text x) = Some (tunnel_protocol_for id_text)"
      "mgr_ref (set_up_manager id_text x) = mgr_ref x" for x
    by (simp_all add: set_up_manager_def)
  obtain xs where xs: "list_all2 switched_off ms xs"
    and ms': "if mgr_ref (our_manager ms) = None
        then \<exists>r. mset ms' = mset (xs @ [(set_up_manager id_text (our_manager ms))\<lparr>mgr_ref := Some r\<rparr>])
        else mset ms' = mset (map (\<lambda>x. if mgr_ref x = mgr_ref (our_manager ms)
          then set_up_manager id_text (our_manager ms) else x) xs)"
    using assms(3) unfolding stored_after_def set_up(4) by (simp only: set_up(2) if_True) blast
  have "\<exists>zs m. mset ms' = mset zs \<and> filter is_ours zs = [m] \<and>
      list_all2 switched_off (filter (\<lambda>x. \<not> is_ours x) ms) (filter (\<lambda>x. \<not> is_ours x) zs) \<and>
      mgr_enabled m \<and> mgr_protocol m = Some (tunnel_protocol_for id_text)"
  proof (cases "find is_ours ms")
    case None
    then have none: "\<forall>x \<in> set ms. \<not> is_ours x" by (simp add: find_None_iff)
    from None ms' obtain r where
      "mset ms' = mset (xs @ [(set_up_manager id_text new_manager)\<lparr>mgr_ref := Some r\<rparr>])"
      by (auto simp: new_manager_def)
    moreover have "filter is_ours xs = []"
      using switched_off_filter [OF xs] none by (simp add: filter_empty_conv)
    ultimately show ?thesis
      using switched_off_filter [OF xs] set_up
      by (intro exI [of _ "xs @ [(set_up_manager id_text new_manager)\<lparr>mgr_ref := Some r\<rparr>]"]) simp
  next
    case (Some x)
    then obtain pre post where ms: "ms = pre @ x # post" and x: "is_ours x"
      and pre: "\<forall>y \<in> set pre. \<not> is_ours y"
      by (rule find_split)
    have post: "\<forall>y \<in> set post. \<not> is_ours y"
      using assms(2) x by (auto simp: ms filter_empty_conv)
    obtain pre' x' post' where xs': "xs = pre' @ x' # post'" and off: "list_all2 switched_off pre pre'"
      "switched_off x x'" "list_all2 switched_off post post'"
      using xs unfolding ms by (auto simp: list_all2_append1 list_all2_Cons1)
    note offs = switched_off_filter [OF off(1)] switched_off_filter [OF off(3)]
    have x': "mgr_ref x' = mgr_ref x" using switched_off_fields [OF off(2)] by simp
    have "mgr_ref x \<notin> mgr_ref ` (set pre \<union> set post)"
      using dist by (auto simp: ms)
    then have "mgr_ref x \<notin> set (map mgr_ref pre') \<union> set (map mgr_ref post')"
      unfolding offs [THEN conjunct2, THEN conjunct2] by auto
    then have other: "mgr_ref y \<noteq> mgr_ref x" if "y \<in> set pre' \<union> set post'" for y
      using that by (metis UnE UnI1 UnI2 image_eqI list.set_map)
    have "mgr_ref x \<noteq> None" using refs by (force simp: ms)
    moreover have our: "our_manager ms = x" using Some by simp
    ultimately have "mset ms' = mset (map (\<lambda>y. if mgr_ref y = mgr_ref x then set_up_manager id_text x else y) xs)"
      using ms' unfolding our by simp
    also have "map (\<lambda>y. if mgr_ref y = mgr_ref x then set_up_manager id_text x else y) xs =
        pre' @ set_up_manager id_text x # post'"
      using other x' by (auto simp: xs' intro!: map_idI)
    finally have "mset ms' = mset (pre' @ set_up_manager id_text x # post')" .
    moreover have "filter is_ours pre' = []" "filter is_ours post' = []"
      using offs pre post by (simp_all add: filter_empty_conv)
    moreover have "list_all2 switched_off (filter (\<lambda>x. \<not> is_ours x) ms)
        (filter (\<lambda>x. \<not> is_ours x) (pre' @ set_up_manager id_text x # post'))"
      using offs x set_up(1) by (simp add: ms list_all2_appendI)
    ultimately show ?thesis
      using set_up by (intro exI [of _ "pre' @ set_up_manager id_text x # post'"] exI [of _ "set_up_manager id_text x"]) simp
  qed
  then obtain zs m where zs: "mset ms' = mset zs" "filter is_ours zs = [m]"
    "list_all2 switched_off (filter (\<lambda>x. \<not> is_ours x) ms) (filter (\<lambda>x. \<not> is_ours x) zs)"
    "mgr_enabled m" "mgr_protocol m = Some (tunnel_protocol_for id_text)" by blast
  have "filter is_ours ms' = [m]"
    using mset_filter_eq [OF zs(1), of is_ours] zs(2) by (simp del: mset_filter)
  moreover have "left_alone (other_managers ms) (other_managers ms')"
    using left_alone_list [OF zs(3)] mset_filter_eq [OF zs(1), of "\<lambda>x. \<not> is_ours x"] by simp
  ultimately show ?thesis using zs(4,5) by blast
qed

lemma save_calls:
  assumes "ne_load ne p = Loaded (Some ms)" and "save_vpn_profile ne config active_id p = (r, p')"
  shows "\<exists>out. ne_save ne (set_up_manager (unwrap_or active_id []) (our_manager ms)) p = (out, p') \<and>
     (r = Inr () \<longleftrightarrow> out = Saved)"
  using assms
  by (auto simp: save_vpn_profile_def find_manager_def Let_def split: prod.splits save_outcome.splits)

lemma saved_managers:
  assumes "saves_persist ne" and "stored ne p ms" and "length (filter is_ours ms) \<le> 1"
    and "save_vpn_profile ne config active_id p = (Inr (), p')"
  shows "\<exists>ms' m. stored ne p' ms' \<and> filter is_ours ms' = [m] \<and>
     left_alone (other_managers ms) (other_managers ms') \<and>
     mgr_enabled m \<and> mgr_protocol m = Some (tunnel_protocol_for (unwrap_or active_id []))"
proof -
  have "ne_load ne p = Loaded (Some ms)" using assms(2) by (simp add: stored_def)
  from save_calls [OF this assms(4)] persistD(1) [OF assms(1,2)] obtain ms'
    where "stored ne p' ms'" "stored_after (set_up_manager (unwrap_or active_id []) (our_manager ms)) ms ms'"
    by blast
  with stored_after_managers [OF assms(2,3)] show ?thesis by blast
qed

text \<open>Managers before and after: ours at most one, the others left alone.\<close>

definition kept :: "'p network_extension \<Rightarrow> manager multiset \<Rightarrow> 'p \<Rightarrow> bool" where
  "kept ne others p \<longleftrightarrow>
     (\<exists>ms. stored ne p ms \<and> length (filter is_ours ms) \<le> 1 \<and> left_alone others (other_managers ms))"

lemma keptE:
  assumes "kept ne others p"
  obtains ms where "stored ne p ms" "length (filter is_ours ms) \<le> 1" "left_alone others (other_managers ms)"
  using assms unfolding kept_def by blast

lemma save_keeps:
  assumes "saves_persist ne" and "kept ne others p" and "save_vpn_profile ne config active_id p = (r, p')"
  shows "kept ne others p'"
  using assms(2)
proof (rule keptE)
  fix ms assume ms: "stored ne p ms" "length (filter is_ours ms) \<le> 1" "left_alone others (other_managers ms)"
  show ?thesis
  proof (cases r)
    case (Inr u)
    with assms(3) have "save_vpn_profile ne config active_id p = (Inr (), p')" by simp
    from saved_managers [OF assms(1) ms(1,2) this] obtain ms' m
      where "stored ne p' ms'" "filter is_ours ms' = [m]"
        "left_alone (other_managers ms) (other_managers ms')" by blast
    with left_alone_trans [OF ms(3)] show ?thesis unfolding kept_def by (intro exI [of _ ms']) simp
  next
    case (Inl e)
    have "ne_load ne p = Loaded (Some ms)" using ms(1) by (simp add: stored_def)
    from save_calls [OF this assms(3)] Inl obtain out
      where "ne_save ne (set_up_manager (unwrap_or active_id []) (our_manager ms)) p = (out, p')" "out \<noteq> Saved"
      by auto
    from persistD(2) [OF assms(1) ms(1) this] show ?thesis
    proof
      assume "stored ne p' ms"
      with ms show ?thesis unfolding kept_def by blast
    next
      assume "\<exists>ms'. stored ne p' ms' \<and> stored_after (set_up_manager (unwrap_or active_id []) (our_manager ms)) ms ms'"
      then obtain ms' where ms': "stored ne p' ms'"
        "stored_after (set_up_manager (unwrap_or active_id []) (our_manager ms)) ms ms'" by blast
      from stored_after_managers [OF ms(1,2) ms'(2)] left_alone_trans [OF ms(3)] ms'(1) show ?thesis
        unfolding kept_def by (intro exI [of _ ms']) auto
    qed
  qed
qed

lemma start_session_keeps:
  assumes "saves_persist ne" and "kept ne others p" and "start_session ne config m p = (r, p')"
  shows "kept ne others p'"
proof (cases "ne_is_session ne m p")
  case True
  obtain r1 p1 where "ne_start ne m [(''configContent'', config)] p = (r1, p1)" by fastforce
  moreover from this assms(3) True have "p1 = p'"
    by (auto simp: start_session_def split: sum.splits)
  ultimately show ?thesis using assms(2) persistD(3) [OF assms(1)] unfolding kept_def by blast
next
  case False
  with assms(2,3) show ?thesis by (simp add: start_session_def)
qed

lemma load_manager_state: "snd (load_manager ne p) = p"
  by (simp add: load_manager_def)

lemma ne_then_cases:
  assumes "ne_then m f p = (r, p')"
  obtains (failed) e where "m p = (Inl e, p')" "r = Inl e"
  | (passed) x p1 where "m p = (Inr x, p1)" "f x p1 = (r, p')"
  using assms by (auto simp: ne_then_def split: prod.splits sum.splits)

lemma load_then:
  assumes "ne_then (load_manager ne) f p = (r, p')"
  obtains (failed) e where "r = Inl e" "p' = p"
  | (loaded) m where "f m p = (r, p')"
  using assms load_manager_state [of ne p] by (auto elim!: ne_then_cases)

lemma start_keeps:
  assumes "saves_persist ne" and "kept ne others p" and "start_vpn_profile ne config active_id p = (r, p')"
  shows "kept ne others p'"
  using assms(3) unfolding start_vpn_profile_def
proof (cases rule: ne_then_cases)
  case (failed e)
  from save_keeps [OF assms(1,2) this(1)] show ?thesis .
next
  case (passed x p1)
  note p1 = save_keeps [OF assms(1,2) this(1)]
  from passed(2) show ?thesis
    by (cases rule: load_then) (use p1 start_session_keeps [OF assms(1) p1] in simp_all)
qed

lemma stop_keeps:
  assumes "saves_persist ne" and "kept ne others p" and "stop_vpn_profile ne p = (r, p')"
  shows "kept ne others p'"
  using assms(3) unfolding stop_vpn_profile_def
proof (cases rule: load_then)
  case (failed e)
  with assms(2) show ?thesis by simp
next
  case (loaded m)
  then have "p' = ne_stop ne m p" by simp
  with assms(2) persistD(4) [OF assms(1)] show ?thesis unfolding kept_def by blast
qed

text \<open>Any sequence of calls, whatever fails in them.\<close>

inductive profile_calls :: "'p network_extension \<Rightarrow> 'p \<Rightarrow> 'p \<Rightarrow> bool" for ne p where
  none: "profile_calls ne p p"
| install: "profile_calls ne p q \<Longrightarrow> install_vpn_profile ne q = (r, q') \<Longrightarrow> profile_calls ne p q'"
| start: "profile_calls ne p q \<Longrightarrow> start_vpn_profile ne config active_id q = (r, q') \<Longrightarrow> profile_calls ne p q'"
| stop: "profile_calls ne p q \<Longrightarrow> stop_vpn_profile ne q = (r, q') \<Longrightarrow> profile_calls ne p q'"
| status: "profile_calls ne p q \<Longrightarrow> is_vpn_profile_connected ne q = (r', q') \<Longrightarrow> profile_calls ne p q'"

lemma status_state:
  assumes "is_vpn_profile_connected ne p = (r, p')" shows "p' = p"
  using assms load_manager_state [of ne p]
  by (auto simp: is_vpn_profile_connected_def vpn_profile_status_def ne_then_def split: prod.splits sum.splits)

lemma profile_calls_keep:
  assumes "profile_calls ne p q" and "saves_persist ne" and "kept ne others p"
  shows "kept ne others q"
  using assms
  by (induction rule: profile_calls.induct)
    (auto simp: install_vpn_profile_def dest: status_state intro: save_keeps start_keeps stop_keeps)

lemma find_first: "filter P xs = m # ys \<Longrightarrow> find P xs = Some m"
  by (induction xs) (auto split: if_splits)

lemma started_profile:
  assumes "saves_persist ne" and "stored ne p ms" and "length (filter is_ours ms) \<le> 1"
    and "profile_calls ne p q" and "start_vpn_profile ne config (Some active_id) q = (Inr (), q')"
    and "active_id \<noteq> []"
  shows "\<exists>ms' m q1. stored ne q' ms' \<and> filter is_ours ms' = [m] \<and> mgr_enabled m \<and>
     mgr_protocol m = Some \<lparr>provider_bundle = provider_bundle_identifier,
       server_address = tunnel_description,
       provider_configuration = Some [(''activeProfileId'', active_id)]\<rparr> \<and>
     left_alone (other_managers ms) (other_managers ms') \<and>
     ne_start ne m [(''configContent'', config)] q1 = (Inr (), q')"
proof -
  have "kept ne (other_managers ms) p" using assms(2,3) left_alone_refl unfolding kept_def by blast
  from profile_calls_keep [OF assms(4,1) this] obtain ms1 where ms1: "stored ne q ms1"
    "length (filter is_ours ms1) \<le> 1" "left_alone (other_managers ms) (other_managers ms1)" by (rule keptE)
  obtain q1 where q1: "save_vpn_profile ne (Some config) (Some active_id) q = (Inr (), q1)"
    and rest: "ne_then (load_manager ne) (start_session ne config) q1 = (Inr (), q')"
    using assms(5) unfolding start_vpn_profile_def by (cases rule: ne_then_cases) auto
  from saved_managers [OF assms(1) ms1(1,2) q1] left_alone_trans [OF ms1(3)] obtain ms' m
    where ms': "stored ne q1 ms'" "filter is_ours ms' = [m]" "mgr_enabled m"
      "mgr_protocol m = Some (tunnel_protocol_for active_id)"
      "left_alone (other_managers ms) (other_managers ms')" by auto
  have "load_manager ne q1 = (Inr m, q1)"
    using ms'(1) find_first [OF ms'(2)] by (simp add: load_manager_def stored_def find_manager_def ok_or_def)
  with rest have "start_session ne config m q1 = (Inr (), q')" by (simp add: ne_then_def)
  then have start: "ne_start ne m [(''configContent'', config)] q1 = (Inr (), q')"
    by (auto simp: start_session_def split: if_splits prod.splits sum.splits)
  then have "stored ne q' ms'" by (rule persistD(3) [OF assms(1) ms'(1)])
  with ms' start assms(6) show ?thesis by (auto simp: tunnel_protocol_for_def)
qed

text \<open>C16: One profile in the macOS settings. If the settings hold at most one profile of this name, then
  after any sequence of installs, starts, stops and status queries of the plugin, whatever fails in
  them, a successful start leaves exactly one: enabled, with the bundle of the packet tunnel and the
  identifier of the profile to connect. No other VPN is added, removed or reconfigured; the system may
  only have switched some of them off. This relies on what the framework documents about saving
  (\<open>saves_persist\<close>).\<close>

theorem macos_single_profile:
  assumes "saves_persist ne" and "stored ne p ms" and "length (filter is_ours ms) \<le> 1"
    and "profile_calls ne p q" and "start_vpn_profile ne config (Some active_id) q = (Inr (), q')"
    and "active_id \<noteq> []"
  shows "\<exists>ms' m. stored ne q' ms' \<and> filter is_ours ms' = [m] \<and> mgr_enabled m \<and>
     mgr_protocol m = Some \<lparr>provider_bundle = provider_bundle_identifier,
       server_address = tunnel_description,
       provider_configuration = Some [(''activeProfileId'', active_id)]\<rparr> \<and>
     left_alone (other_managers ms) (other_managers ms')"
  using started_profile [OF assms] by blast

section \<open>Witness\<close>

text \<open>Settings held as the list of their managers, of which one is enabled at a time; and another VPN.\<close>

definition fresh_ref :: "manager list \<Rightarrow> nat" where
  "fresh_ref ms = sum_list (map (\<lambda>m. Suc (unwrap_or (mgr_ref m) 0)) ms)"

definition sample_save :: "manager \<Rightarrow> manager list \<Rightarrow> save_outcome \<times> manager list" where
  "sample_save m ms =
     (Saved,
      let xs = (if mgr_enabled m then map (\<lambda>x. x\<lparr>mgr_enabled := False\<rparr>) ms else ms) in
      if mgr_ref m = None then xs @ [m\<lparr>mgr_ref := Some (fresh_ref ms)\<rparr>]
      else map (\<lambda>x. if mgr_ref x = mgr_ref m then m else x) xs)"

definition sample_ne :: "manager list network_extension" where
  "sample_ne =
     \<lparr>ne_load = (\<lambda>ms. Loaded (Some ms)), ne_save = sample_save, ne_is_session = (\<lambda>m ms. True),
      ne_start = (\<lambda>m opts ms. (Inr (), ms)), ne_stop = (\<lambda>m ms. ms), ne_status_of = (\<lambda>m ms. NeConnected)\<rparr>"

definition other_vpn :: manager where
  "other_vpn = \<lparr>mgr_ref = Some 3, mgr_description = Some ''Work'', mgr_protocol = None, mgr_enabled = True\<rparr>"

lemma fresh_ref_new: "Some (fresh_ref ms) \<notin> mgr_ref ` set ms"
proof
  assume "Some (fresh_ref ms) \<in> mgr_ref ` set ms"
  then obtain m where m: "m \<in> set ms" "mgr_ref m = Some (fresh_ref ms)" by force
  from m(1) have "Suc (unwrap_or (mgr_ref m) 0) \<in> set (map (\<lambda>m. Suc (unwrap_or (mgr_ref m) 0)) ms)"
    by simp
  then have "Suc (unwrap_or (mgr_ref m) 0) \<le> fresh_ref ms"
    unfolding fresh_ref_def by (rule member_le_sum_list) simp
  with m(2) show False by simp
qed

lemma sample_save_refs:
  assumes "mgr_ref m \<noteq> None"
  shows "map mgr_ref (map (\<lambda>x. if mgr_ref x = mgr_ref m then m else x) ms) = map mgr_ref ms"
  by (induction ms) simp_all

lemma switch_all_off:
  "list_all2 (if b then switched_off else (=)) ms (if b then map (\<lambda>x. x\<lparr>mgr_enabled := False\<rparr>) ms else ms)"
  "map mgr_ref (if b then map (\<lambda>x. x\<lparr>mgr_enabled := False\<rparr>) ms else ms) = map mgr_ref ms"
  by (auto simp: list_all2_conv_all_nth switched_off_def)

lemma sample_ne_calls [simp]:
  "ne_load sample_ne ms = Loaded (Some ms)" "ne_save sample_ne = sample_save"
  "ne_is_session sample_ne m ms" "ne_start sample_ne m opts ms = (Inr (), ms)" "ne_stop sample_ne m ms = ms"
  by (simp_all add: sample_ne_def)

lemma sample_persist: "saves_persist sample_ne"
proof -
  have st: "stored sample_ne p ms \<longleftrightarrow> p = ms \<and> distinct (map mgr_ref ms) \<and> None \<notin> mgr_ref ` set ms" for p ms
    by (auto simp: stored_def)
  have "\<exists>ms'. stored sample_ne p' ms' \<and> stored_after m ms ms'"
    if "stored sample_ne p ms" and "ne_save sample_ne m p = (Saved, p')" for p ms m p'
  proof -
    let ?xs = "if mgr_enabled m then map (\<lambda>x. x\<lparr>mgr_enabled := False\<rparr>) ms else ms"
    note xs = switch_all_off [of "mgr_enabled m" ms]
    have p: "p = ms" "distinct (map mgr_ref ?xs)" "None \<notin> set (map mgr_ref ?xs)"
      using that(1) unfolding xs(2) by (simp_all add: st)
    show ?thesis
    proof (cases "mgr_ref m")
      case None
      have "Some (fresh_ref ms) \<notin> set (map mgr_ref ?xs)"
        unfolding xs(2) using fresh_ref_new [of ms] by simp
      moreover have p': "p' = ?xs @ [m\<lparr>mgr_ref := Some (fresh_ref ms)\<rparr>]"
        using that(2) None p(1) by (simp add: sample_save_def Let_def)
      ultimately have "stored sample_ne p' p'"
        using p(2,3) unfolding st p' by simp
      moreover have "stored_after m ms p'"
        using xs(1) None unfolding stored_after_def p' by (intro exI [of _ ?xs]) auto
      ultimately show ?thesis by blast
    next
      case (Some k)
      then have "mgr_ref m \<noteq> None" by simp
      note refs = sample_save_refs [OF this, of ?xs]
      have p': "p' = map (\<lambda>x. if mgr_ref x = mgr_ref m then m else x) ?xs"
        using that(2) Some p(1) by (simp add: sample_save_def Let_def)
      then have "stored sample_ne p' p'"
        using p(2,3) unfolding st image_set refs [folded p'] by simp
      moreover have "stored_after m ms p'"
        using xs(1) Some unfolding stored_after_def p' by (intro exI [of _ ?xs]) auto
      ultimately show ?thesis by blast
    qed
  qed
  moreover have "stored sample_ne p ms \<and> ne_save sample_ne m p = (out, p') \<and> out \<noteq> Saved \<longrightarrow>
      stored sample_ne p' ms \<or> (\<exists>ms'. stored sample_ne p' ms' \<and> stored_after m ms ms')"
    and "stored sample_ne p ms \<and> ne_start sample_ne m opts p = (r, p') \<longrightarrow> stored sample_ne p' ms"
    and "stored sample_ne p ms \<longrightarrow> stored sample_ne (ne_stop sample_ne m p) ms"
    for m opts p r p' ms out by (auto simp: sample_save_def)
  ultimately show ?thesis unfolding saves_persist_def by blast
qed

theorem macos_single_profile_witness:
  "\<exists>q' ms' m. start_vpn_profile sample_ne ''{}'' (Some ''id'') (snd (install_vpn_profile sample_ne [other_vpn])) = (Inr (), q') \<and>
     stored sample_ne q' ms' \<and> filter is_ours ms' = [m] \<and> mgr_enabled m \<and>
     left_alone {#other_vpn#} (other_managers ms')"
proof -
  let ?q = "snd (install_vpn_profile sample_ne [other_vpn])"
  have ours: "\<not> is_ours other_vpn" by (simp add: other_vpn_def tunnel_description_def)
  then have st: "stored sample_ne [other_vpn] [other_vpn]" "length (filter is_ours [other_vpn]) \<le> 1"
    by (simp_all add: stored_def other_vpn_def)
  have "profile_calls sample_ne [other_vpn] ?q"
    using install [OF profile_calls.none, of sample_ne "[other_vpn]" "fst (install_vpn_profile sample_ne [other_vpn])" ?q]
    by simp
  moreover have "\<exists>q'. start_vpn_profile sample_ne ''{}'' (Some ''id'') ?q = (Inr (), q')"
    by (simp add: install_vpn_profile_def start_vpn_profile_def save_vpn_profile_def ne_then_def
        load_manager_def start_session_def sample_save_def find_manager_def Let_def
        other_vpn_def tunnel_description_def new_manager_def set_up_manager_def ok_or_def)
  then obtain q' where q': "start_vpn_profile sample_ne ''{}'' (Some ''id'') ?q = (Inr (), q')" by blast
  ultimately show ?thesis
    using macos_single_profile [OF sample_persist st, of ?q "''{}''" "''id''" q'] ours by auto
qed

end
