(* ===== verification/Plugin.thy ===== *)
theory Plugin
  imports Command_Races Macos_Vpn
begin

text \<open>
  \<open>src/lib.rs\<close>: the set-up of the plugin and what it does when the application ends; and the
  macOS engine wired to the profile of \<open>src/macos_vpn.rs\<close>, where the answers the engine asks of
  the system are the results of those operations.
\<close>

section \<open>Set-up and exit\<close>

text \<open>\<open>register\<close> is the registration of the native plugin on a phone.\<close>

definition plugin_setup :: "target_os \<Rightarrow> string + unit \<Rightarrow> string + vpn_state" where
  "plugin_setup os register =
     (if is_mobile os
      then (case register of Inl e \<Rightarrow> Inl e | Inr _ \<Rightarrow> Inr (vpn_state_new default_engine True))
      else Inr (vpn_state_new default_engine False))"

datatype run_event = ExitRequested | Exit | OtherRunEvent

text \<open>The path whose stale cores are cleaned up, if any; the result of the clean-up is dropped.\<close>

definition on_event :: "run_event \<Rightarrow> string + components \<Rightarrow> components option" where
  "on_event event local_data_dir =
     (if event = ExitRequested \<or> event = Exit
      then (case runtime_config_path local_data_dir of Inl _ \<Rightarrow> None | Inr path \<Rightarrow> Some path)
      else None)"

lemma plugin_setup_reachable:
  assumes "plugin_setup os register = Inr s"
  shows "\<exists>plugin. commands_reachable os plugin s \<and> plugin = is_mobile os"
  using assms commands_init by (auto simp: plugin_setup_def split: if_splits sum.splits)

section \<open>The engine on macOS\<close>

text \<open>
  The answers of a start, given the settings \<open>p\<close> when the profile is installed: the profile is
  installed, then started with what the engine passes to it, then its status is polled. The polls see
  the settings of \<open>polls\<close>.
\<close>

definition macos_answers ::
    "'p network_extension \<Rightarrow> (nat \<Rightarrow> 'p) \<Rightarrow> 'p \<Rightarrow> start_answers \<Rightarrow> start_answers" where
  "macos_answers ne polls p a =
     (let (installed, p1) = install_vpn_profile ne p
      in a\<lparr>ans_install_profile := installed,
           ans_start_profile := (\<lambda>config_text active_id. fst (start_vpn_profile ne config_text active_id p1)),
           ans_tunnel_status := (\<lambda>i. map_sum error_display (\<lambda>b. b) (fst (is_vpn_profile_connected ne (polls i))))\<rparr>)"

lemma started_installed:
  assumes "start_desktop MacOS opts a e = (Inr ws, e')"
  shows "ans_install_profile a = Inr ()"
proof (cases "ans_install_profile a")
  case (Inl err)
  with assms show ?thesis
    by (auto simp: start_desktop_def check_installation_def answer_def elim!: run_then_cases)
qed simp

text \<open>The identifier the engine passes, and what a successful start of the engine went through.\<close>

abbreviation start_id :: "connect_options \<Rightarrow> start_answers \<Rightarrow> string" where
  "start_id opts a \<equiv> ans_show_uuid a (profile_id (opt_profile opts))"

lemma prepared_text:
  assumes "prepare_config os opts a e = (Inr (ws, cfg, path), e')"
  shows "\<exists>config. generate_sing_box_config os opts = Some (Inr config) \<and> ans_serialize a config = Inr cfg"
  using assms generate_not_None [of os opts]
  by (cases "generate_sing_box_config os opts")
    (auto simp: prepare_config_def answer_def perform_def run_then_def map_err_def split: sum.splits)

lemma macos_launch:
  assumes "start_desktop MacOS opts a e = (Inr ws, e')"
  obtains ws' cfg path e1 e2 rt where "prepare_config MacOS opts a e1 = (Inr (ws', cfg, path), e2)"
    "\<exists>e3. start_macos opts cfg ws' rt a e3 = (Inr ws, e')"
proof -
  from assms obtain e1 where e1: "run_then (prepare_config MacOS opts a) (\<lambda>(warns, config_text, config_path).
     run_then (check_installation MacOS a) (\<lambda>_.
     run_then (answer (ans_cleanup a)) (\<lambda>_.
     run_then (start_olcrtc opts a) (\<lambda>rt. start_macos opts config_text warns rt a)))) e1 = (Inr ws, e')"
    unfolding start_desktop_def by (cases rule: run_then_cases) auto
  then obtain ws' cfg path e2 where e2: "prepare_config MacOS opts a e1 = (Inr (ws', cfg, path), e2)"
    and rest: "run_then (check_installation MacOS a) (\<lambda>_. run_then (answer (ans_cleanup a)) (\<lambda>_.
     run_then (start_olcrtc opts a) (\<lambda>rt. start_macos opts cfg ws' rt a))) e2 = (Inr ws, e')"
    by (cases rule: run_then_cases) auto
  from rest obtain e3 where "run_then (answer (ans_cleanup a)) (\<lambda>_.
     run_then (start_olcrtc opts a) (\<lambda>rt. start_macos opts cfg ws' rt a)) e3 = (Inr ws, e')"
    by (cases rule: run_then_cases) auto
  then obtain e4 where "run_then (start_olcrtc opts a) (\<lambda>rt. start_macos opts cfg ws' rt a) e4 = (Inr ws, e')"
    by (cases rule: run_then_cases) auto
  then obtain rt e5 where "start_macos opts cfg ws' rt a e5 = (Inr ws, e')"
    by (cases rule: run_then_cases) auto
  with e2 that show ?thesis by blast
qed

lemma started_tunnel:
  assumes "start_desktop MacOS opts a e = (Inr ws, e')"
  shows "macos_system_connected e' \<and>
     (\<exists>config cfg. generate_sing_box_config MacOS opts = Some (Inr config) \<and> ans_serialize a config = Inr cfg \<and>
        ans_start_profile a cfg (Some (start_id opts a)) = Inr ()) \<and>
     poll_tunnel tunnel_rounds (ans_tunnel_clock a) (ans_tunnel_status a) 0 None = Inr ()"
  using assms
proof (rule macos_launch)
  fix ws' cfg path e1 e2 rt
  assume prep: "prepare_config MacOS opts a e1 = (Inr (ws', cfg, path), e2)"
    and "\<exists>e3. start_macos opts cfg ws' rt a e3 = (Inr ws, e')"
  then obtain e3 where "start_macos opts cfg ws' rt a e3 = (Inr ws, e')" by blast
  then have "ans_start_profile a cfg (Some (start_id opts a)) = Inr () \<and> macos_system_connected e' \<and>
     poll_tunnel tunnel_rounds (ans_tunnel_clock a) (ans_tunnel_status a) 0 None = Inr ()"
    by (auto simp: start_macos_def wait_for_macos_system_tunnel_def Let_def map_err_def start_stats_polling_def
        keep_runtime_def split: sum.splits)
  with prepared_text [OF prep] show ?thesis by blast
qed

lemma poll_tunnel_first:
  "0 < fuel \<Longrightarrow> elapsed i < tunnel_timeout \<Longrightarrow> poll i = Inr True \<Longrightarrow>
     poll_tunnel fuel elapsed poll i last_error = Inr ()"
  by (cases fuel) simp_all

lemma poll_tunnel_up:
  "poll_tunnel fuel elapsed poll i last_error = Inr () \<Longrightarrow>
     \<exists>j. i \<le> j \<and> j < i + fuel \<and> elapsed j < tunnel_timeout \<and> poll j = Inr True"
proof (induction fuel elapsed poll i last_error rule: poll_tunnel.induct)
  case (2 fuel elapsed poll i last_error)
  then consider "poll i = Inr True" "elapsed i < tunnel_timeout"
    | le where "poll_tunnel fuel elapsed poll (Suc i) le = Inr ()"
      "\<exists>j. Suc i \<le> j \<and> j < Suc i + fuel \<and> elapsed j < tunnel_timeout \<and> poll j = Inr True"
    by (auto split: if_splits sum.splits bool.splits)
  then show ?case
  proof cases
    case 1
    then show ?thesis by (intro exI [of _ i]) simp
  next
    case 2
    then obtain j where "Suc i \<le> j" "j < Suc i + fuel" "elapsed j < tunnel_timeout" "poll j = Inr True"
      by blast
    then show ?thesis by (intro exI [of _ j]) simp
  qed
qed simp

text \<open>C17: A macOS start that succeeds has a profile and a tunnel behind it. If the settings held at most
  one profile of this name and the engine gets its answers from the profile operations, then the
  settings now hold exactly one, enabled, for the profile of the options, no other VPN was added, removed
  or reconfigured (some may have been switched off), the tunnel of that one profile was
  started with the configuration generated for the options, and some poll before the time-out of
  20 seconds, one of the first 41, saw the tunnel connected.\<close>

theorem macos_start_connects:
  assumes "saves_persist ne" and "stored ne p ms" and "length (filter is_ours ms) \<le> 1"
    and "start_id opts a \<noteq> []" and "install_vpn_profile ne p = (installed, p1)"
    and "start_desktop MacOS opts (macos_answers ne polls p a) e = (Inr ws, e')"
  shows "macos_system_connected e' \<and>
     (\<exists>config cfg q1 p2 ms' m.
        generate_sing_box_config MacOS opts = Some (Inr config) \<and> ans_serialize a config = Inr cfg \<and>
        start_vpn_profile ne cfg (Some (start_id opts a)) p1 = (Inr (), p2) \<and>
        stored ne p2 ms' \<and> filter is_ours ms' = [m] \<and> mgr_enabled m \<and>
        mgr_protocol m = Some \<lparr>provider_bundle = provider_bundle_identifier,
          server_address = tunnel_description,
          provider_configuration = Some [(''activeProfileId'', start_id opts a)]\<rparr> \<and>
        left_alone (other_managers ms) (other_managers ms') \<and>
        ne_start ne m [(''configContent'', cfg)] q1 = (Inr (), p2)) \<and>
     (\<exists>i. i < 41 \<and> ans_tunnel_clock a i < 20000 \<and> fst (is_vpn_profile_connected ne (polls i)) = Inr True)"
proof -
  let ?a = "macos_answers ne polls p a"
  have a: "ans_start_profile ?a = (\<lambda>cfg k. fst (start_vpn_profile ne cfg k p1))"
    "ans_tunnel_clock ?a = ans_tunnel_clock a" "ans_show_uuid ?a = ans_show_uuid a"
    "ans_serialize ?a = ans_serialize a"
    "ans_tunnel_status ?a = (\<lambda>i. map_sum error_display (\<lambda>b. b) (fst (is_vpn_profile_connected ne (polls i))))"
    using assms(5) by (simp_all add: macos_answers_def)
  note up = started_tunnel [OF assms(6), unfolded a]
  then obtain config cfg where cfg: "generate_sing_box_config MacOS opts = Some (Inr config)"
    "ans_serialize a config = Inr cfg" "fst (start_vpn_profile ne cfg (Some (start_id opts a)) p1) = Inr ()"
    by blast
  then obtain p2 where p2: "start_vpn_profile ne cfg (Some (start_id opts a)) p1 = (Inr (), p2)"
    by (metis prod.collapse)
  note profile = started_profile [OF assms(1-3) install [OF none assms(5)] p2 assms(4)]
  from poll_tunnel_up [OF up [THEN conjunct2, THEN conjunct2]] obtain i where "i < 41" "ans_tunnel_clock a i < 20000"
    "map_sum error_display (\<lambda>b. b) (fst (is_vpn_profile_connected ne (polls i))) = Inr True"
    by (auto simp: tunnel_rounds_def tunnel_timeout_def)
  moreover from this(3) have "fst (is_vpn_profile_connected ne (polls i)) = Inr True"
    by (cases "fst (is_vpn_profile_connected ne (polls i))") simp_all
  ultimately show ?thesis using profile up cfg(1,2) p2 by blast
qed

section \<open>Witness\<close>

lemma sample_profile_calls:
  "\<exists>p1. install_vpn_profile sample_ne [other_vpn] = (Inr (), p1) \<and>
     (\<forall>cfg k. fst (start_vpn_profile sample_ne cfg k p1) = Inr ()) \<and>
     fst (is_vpn_profile_connected sample_ne p1) = Inr True"
  by (simp add: install_vpn_profile_def start_vpn_profile_def save_vpn_profile_def ne_then_def
      load_manager_def start_session_def sample_save_def find_manager_def Let_def other_vpn_def
      tunnel_description_def new_manager_def set_up_manager_def ok_or_def is_vpn_profile_connected_def
      vpn_profile_status_def sample_ne_def)

lemma sample_macos_stages:
  assumes "ans_install_profile a = Inr ()" and "ans_elevated a = ans_elevated good_answers"
    and "ans_serialize a = ans_serialize good_answers" and "ans_write_config a = ans_write_config good_answers"
    and "ans_cleanup a = ans_cleanup good_answers" and "ans_olcrtc_start a = ans_olcrtc_start good_answers"
  shows "\<exists>cfg ws rt e1. start_desktop MacOS sample_options a default_engine = start_macos sample_options cfg ws rt a e1"
  using assms
  by (simp add: start_desktop_def run_then_def start_guard_def default_engine_def prepare_config_def answer_def perform_def
      check_platform_requirements_def is_elevated_def sample_generates check_installation_def
      start_olcrtc_def sample_profile sample_settings) blast

theorem macos_start_connects_witness:
  "\<exists>p1 ws e' p2 ms' m q1.
     install_vpn_profile sample_ne [other_vpn] = (Inr (), p1) \<and>
     start_desktop MacOS sample_options (macos_answers sample_ne (\<lambda>i. p1) [other_vpn] good_answers)
       default_engine = (Inr ws, e') \<and>
     macos_system_connected e' \<and> stored sample_ne p2 ms' \<and> filter is_ours ms' = [m] \<and>
     ne_start sample_ne m [(''configContent'', ''{}'')] q1 = (Inr (), p2)"
proof -
  obtain p1 where p: "install_vpn_profile sample_ne [other_vpn] = (Inr (), p1)"
    "\<And>cfg k. fst (start_vpn_profile sample_ne cfg k p1) = Inr ()"
    "fst (is_vpn_profile_connected sample_ne p1) = Inr True"
    using sample_profile_calls by blast
  let ?a = "macos_answers sample_ne (\<lambda>i. p1) [other_vpn] good_answers"
  obtain cfg ws rt e1 where start: "start_desktop MacOS sample_options ?a default_engine =
      start_macos sample_options cfg ws rt ?a e1"
    using sample_macos_stages [of ?a] p(1) by (auto simp: macos_answers_def)
  have "poll_tunnel tunnel_rounds (ans_tunnel_clock ?a) (ans_tunnel_status ?a) 0 None = Inr ()"
    using p by (intro poll_tunnel_first)
      (simp_all add: macos_answers_def good_answers_def tunnel_rounds_def tunnel_timeout_def)
  then have "wait_for_macos_system_tunnel (ans_tunnel_clock ?a) (ans_tunnel_status ?a) = Inr ()"
    by (simp add: wait_for_macos_system_tunnel_def)
  moreover have "ans_start_profile ?a cfg k = Inr ()" for k
    using p(1,2) by (simp add: macos_answers_def)
  ultimately obtain e' where run: "start_desktop MacOS sample_options ?a default_engine = (Inr ws, e')"
    unfolding start by (simp add: start_macos_def Let_def)
  have st: "stored sample_ne [other_vpn] [other_vpn]" "length (filter is_ours [other_vpn]) \<le> 1"
    by (simp_all add: stored_def other_vpn_def tunnel_description_def)
  have "start_id sample_options good_answers \<noteq> []" by (simp add: good_answers_def)
  from macos_start_connects [OF sample_persist st this p(1) run]
  show ?thesis using p(1) run by (auto simp: good_answers_def)
qed

end
