(* ===== verification/Wire_Requests.thy ===== *)
theory Wire_Requests
  imports Wire_Format
begin

text \<open>
  What a client may send: the options of a connect command with any optional field left out, at every
  level, and with fields the plugin does not know. \<open>optional_keys\<close> lists the fields marked
  \<open>#[serde(default)]\<close> in \<open>src/models.rs\<close>, struct by struct.
\<close>

section \<open>Edited requests\<close>

text \<open>The objects of a request.\<close>

datatype part =
    AtOptions | AtProfile | AtAuth | AtTransport | AtTls | AtReality | AtWireGuard | AtDns

fun known_keys :: "part \<Rightarrow> string list" where
  "known_keys AtOptions = [''profile'', ''routeMode'', ''routeBypassCidrs'', ''dns'', ''killSwitch'']"
| "known_keys AtProfile = [''id'', ''name'', ''protocol'', ''server'', ''port'', ''auth'', ''transport'', ''tls'',
     ''reality'', ''wireguard'', ''extra'']"
| "known_keys AtAuth = [''uuid'', ''password'', ''method'', ''username'']"
| "known_keys AtTransport = [''kind'', ''path'', ''host'', ''serviceName'', ''headers'']"
| "known_keys AtTls = [''enabled'', ''serverName'', ''alpn'', ''insecure'', ''fingerprint'']"
| "known_keys AtReality = [''publicKey'', ''shortId'', ''spiderX'']"
| "known_keys AtWireGuard = [''privateKey'', ''peerPublicKey'', ''preSharedKey'', ''localAddress'', ''reserved'']"
| "known_keys AtDns = [''strategy'', ''servers'']"

fun optional_keys :: "part \<Rightarrow> string list" where
  "optional_keys AtOptions = [''routeMode'', ''routeBypassCidrs'', ''dns'', ''killSwitch'']"
| "optional_keys AtProfile = [''transport'', ''tls'', ''reality'', ''wireguard'', ''extra'']"
| "optional_keys AtAuth = [''uuid'', ''password'', ''method'', ''username'']"
| "optional_keys AtTransport = [''path'', ''host'', ''serviceName'', ''headers'']"
| "optional_keys AtTls = [''serverName'', ''alpn'', ''insecure'', ''fingerprint'']"
| "optional_keys AtReality = [''shortId'', ''spiderX'']"
| "optional_keys AtWireGuard = [''peerPublicKey'', ''preSharedKey'', ''localAddress'', ''reserved'']"
| "optional_keys AtDns = []"

text \<open>For each object the fields left out and those added.\<close>

type_synonym edits = "part \<Rightarrow> string set \<times> fields"

definition edited :: "edits \<Rightarrow> part \<Rightarrow> fields \<Rightarrow> fields" where
  "edited c n kvs = filter (\<lambda>(k, v). k \<notin> fst (c n)) kvs @ snd (c n)"

abbreviation edit :: "edits \<Rightarrow> part \<Rightarrow> fields \<Rightarrow> json" where
  "edit c n kvs \<equiv> JObj (edited c n kvs)"

definition allowed :: "edits \<Rightarrow> bool" where
  "allowed c \<longleftrightarrow>
     (\<forall>n. fst (c n) \<subseteq> set (optional_keys n) \<and> (\<forall>(k, v) \<in> set (snd (c n)). k \<notin> set (known_keys n)))"

text \<open>The request a client makes of its options.\<close>

definition client_profile :: "edits \<Rightarrow> (uuid \<Rightarrow> string) \<Rightarrow> vpn_profile \<Rightarrow> json" where
  "client_profile c show_uuid p =
     edit c AtProfile
       [(''id'', JStr (show_uuid (profile_id p))), (''name'', JStr (profile_name p)),
        (''protocol'', JStr (protocol_wire (profile_protocol p))), (''server'', JStr (profile_server p)),
        (''port'', encode_word (profile_port p)), (''auth'', edit c AtAuth (auth_fields (profile_auth p))),
        (''transport'', edit c AtTransport (transport_fields (profile_transport p))),
        (''tls'', json_opt (\<lambda>x. edit c AtTls (tls_fields x)) (profile_tls p)),
        (''reality'', json_opt (\<lambda>x. edit c AtReality (reality_fields x)) (profile_reality p)),
        (''wireguard'', json_opt (\<lambda>x. edit c AtWireGuard (wireguard_fields x)) (profile_wireguard p)),
        (''extra'', encode_map (\<lambda>j. j) (profile_extra p))]"

definition client_options :: "edits \<Rightarrow> (uuid \<Rightarrow> string) \<Rightarrow> connect_options \<Rightarrow> json" where
  "client_options c show_uuid opts =
     edit c AtOptions
       [(''profile'', client_profile c show_uuid (opt_profile opts)),
        (''routeMode'', JStr (route_mode_wire (opt_route_mode opts))),
        (''routeBypassCidrs'', encode_vec JStr (opt_route_bypass_cidrs opts)),
        (''dns'', edit c AtDns (dns_fields (opt_dns opts))),
        (''killSwitch'', JBool (opt_kill_switch opts))]"

section \<open>What the plugin understands\<close>

text \<open>The value of a field, or its default where it was left out.\<close>

definition kept_or :: "edits \<Rightarrow> part \<Rightarrow> string \<Rightarrow> 'a \<Rightarrow> 'a \<Rightarrow> 'a" where
  "kept_or c n k d x = (if k \<in> fst (c n) then d else x)"

definition understood_auth :: "edits \<Rightarrow> auth_options \<Rightarrow> auth_options" where
  "understood_auth c a =
     \<lparr>auth_uuid = kept_or c AtAuth ''uuid'' None (auth_uuid a),
      auth_password = kept_or c AtAuth ''password'' None (auth_password a),
      auth_method = kept_or c AtAuth ''method'' None (auth_method a),
      auth_username = kept_or c AtAuth ''username'' None (auth_username a)\<rparr>"

definition understood_transport :: "edits \<Rightarrow> transport \<Rightarrow> transport" where
  "understood_transport c t =
     \<lparr>transport_kind = transport_kind t,
      transport_path = kept_or c AtTransport ''path'' None (transport_path t),
      transport_host = kept_or c AtTransport ''host'' None (transport_host t),
      transport_service_name = kept_or c AtTransport ''serviceName'' None (transport_service_name t),
      transport_headers = kept_or c AtTransport ''headers'' [] (transport_headers t)\<rparr>"

definition understood_tls :: "edits \<Rightarrow> tls_options \<Rightarrow> tls_options" where
  "understood_tls c t =
     \<lparr>tls_enabled = tls_enabled t,
      tls_server_name = kept_or c AtTls ''serverName'' None (tls_server_name t),
      tls_alpn = kept_or c AtTls ''alpn'' [] (tls_alpn t),
      tls_insecure = kept_or c AtTls ''insecure'' False (tls_insecure t),
      tls_fingerprint = kept_or c AtTls ''fingerprint'' None (tls_fingerprint t)\<rparr>"

definition understood_reality :: "edits \<Rightarrow> reality_options \<Rightarrow> reality_options" where
  "understood_reality c r =
     \<lparr>reality_public_key = reality_public_key r,
      reality_short_id = kept_or c AtReality ''shortId'' None (reality_short_id r),
      reality_spider_x = kept_or c AtReality ''spiderX'' None (reality_spider_x r)\<rparr>"

definition understood_wireguard :: "edits \<Rightarrow> wireguard_options \<Rightarrow> wireguard_options" where
  "understood_wireguard c w =
     \<lparr>wg_private_key = wg_private_key w,
      wg_peer_public_key = kept_or c AtWireGuard ''peerPublicKey'' None (wg_peer_public_key w),
      wg_pre_shared_key = kept_or c AtWireGuard ''preSharedKey'' None (wg_pre_shared_key w),
      wg_local_address = kept_or c AtWireGuard ''localAddress'' [] (wg_local_address w),
      wg_reserved = kept_or c AtWireGuard ''reserved'' None (wg_reserved w)\<rparr>"

definition understood_profile :: "edits \<Rightarrow> vpn_profile \<Rightarrow> vpn_profile" where
  "understood_profile c p =
     p\<lparr>profile_auth := understood_auth c (profile_auth p),
       profile_transport :=
         kept_or c AtProfile ''transport'' default_transport (understood_transport c (profile_transport p)),
       profile_tls := kept_or c AtProfile ''tls'' None (map_option (understood_tls c) (profile_tls p)),
       profile_reality :=
         kept_or c AtProfile ''reality'' None (map_option (understood_reality c) (profile_reality p)),
       profile_wireguard :=
         kept_or c AtProfile ''wireguard'' None (map_option (understood_wireguard c) (profile_wireguard p)),
       profile_extra := kept_or c AtProfile ''extra'' [] (profile_extra p)\<rparr>"

definition understood_options :: "edits \<Rightarrow> connect_options \<Rightarrow> connect_options" where
  "understood_options c opts =
     \<lparr>opt_profile = understood_profile c (opt_profile opts),
      opt_route_mode = kept_or c AtOptions ''routeMode'' Global (opt_route_mode opts),
      opt_route_bypass_cidrs = kept_or c AtOptions ''routeBypassCidrs'' [] (opt_route_bypass_cidrs opts),
      opt_dns = kept_or c AtOptions ''dns'' default_dns_options (opt_dns opts),
      opt_kill_switch = kept_or c AtOptions ''killSwitch'' False (opt_kill_switch opts)\<rparr>"

section \<open>Decoding an edited object\<close>

lemma edited_lookup:
  assumes "allowed c" and "k \<in> set (known_keys n)"
  shows "map_of (edited c n kvs) k = (if k \<in> fst (c n) then None else map_of kvs k)"
proof -
  have "k \<notin> fst ` set (snd (c n))" using assms unfolding allowed_def by fastforce
  then have "map_of (snd (c n)) k = None" by (simp add: map_of_eq_None_iff)
  moreover have "map_of (filter (\<lambda>(k, v). k \<notin> fst (c n)) kvs) k = (if k \<in> fst (c n) then None else map_of kvs k)"
    by (induction kvs) auto
  ultimately show ?thesis by (simp add: edited_def map_add_def split: option.split)
qed

text \<open>A field that must be there, and one with a default.\<close>

lemma edited_field [wire]:
  assumes "allowed c" and "k \<in> set (known_keys n)" and "k \<notin> set (optional_keys n)"
  shows "field k dec (edited c n kvs) = Option.bind (map_of kvs k) dec"
proof -
  have "k \<notin> fst (c n)" using assms(1,3) unfolding allowed_def by blast
  with edited_lookup [OF assms(1,2)] show ?thesis by (simp add: field_def)
qed

lemma edited_field_or [wire]:
  assumes "allowed c" and "k \<in> set (known_keys n)" and "Option.bind (map_of kvs k) dec = Some x"
  shows "field_or k d dec (edited c n kvs) = Some (kept_or c n k d x)"
  using assms(3) edited_lookup [OF assms(1,2)]
  by (cases "map_of kvs k") (simp_all add: field_or_def kept_or_def)

lemma decode_edited_opt:
  assumes "\<And>x. dec (enc x) = Some (f x)" and "\<And>x. \<not> is_null (enc x)"
  shows "decode_opt dec (json_opt enc v) = Some (map_option f v)"
  using assms by (cases v) (simp_all add: decode_opt_def)

lemma decode_edited_parts:
  assumes c: "allowed c"
  shows "decode_auth (edit c AtAuth (auth_fields a)) = Some (understood_auth c a)"
    "decode_transport (edit c AtTransport (transport_fields t)) = Some (understood_transport c t)"
    "decode_tls (edit c AtTls (tls_fields s)) = Some (understood_tls c s)"
    "decode_reality (edit c AtReality (reality_fields r)) = Some (understood_reality c r)"
    "decode_wireguard (edit c AtWireGuard (wireguard_fields w)) = Some (understood_wireguard c w)"
    "decode_dns_options (edit c AtDns (dns_fields d)) = Some d"
proof -
  note steps = edited_field [OF c] edited_field_or [OF c]
  show "decode_auth (edit c AtAuth (auth_fields a)) = Some (understood_auth c a)"
    by (simp add: decode_auth_def understood_auth_def auth_fields_def steps wire)
  show "decode_transport (edit c AtTransport (transport_fields t)) = Some (understood_transport c t)"
    by (simp add: decode_transport_def understood_transport_def transport_fields_def steps wire)
  show "decode_tls (edit c AtTls (tls_fields s)) = Some (understood_tls c s)"
    by (simp add: decode_tls_def understood_tls_def tls_fields_def steps wire)
  show "decode_reality (edit c AtReality (reality_fields r)) = Some (understood_reality c r)"
    by (simp add: decode_reality_def understood_reality_def reality_fields_def steps wire)
  show "decode_wireguard (edit c AtWireGuard (wireguard_fields w)) = Some (understood_wireguard c w)"
    by (simp add: decode_wireguard_def understood_wireguard_def wireguard_fields_def steps wire)
  show "decode_dns_options (edit c AtDns (dns_fields d)) = Some d"
    by (simp add: decode_dns_options_def dns_fields_def steps wire)
qed

lemma decode_client_profile:
  assumes "\<And>u. parse_uuid (show_uuid u) = Some u" and c: "allowed c"
  shows "decode_profile parse_uuid (client_profile c show_uuid p) = Some (understood_profile c p)"
  by (simp add: decode_profile_def client_profile_def understood_profile_def decode_uuid_def assms(1)
      edited_field [OF c] edited_field_or [OF c] decode_edited_opt decode_edited_parts [OF c] wire)

text \<open>C13: The bridge loses nothing, and a client may leave out what it may leave out. Whatever optional
  fields a client omits, of the options, of the profile and of the objects in it (authentication,
  transport with its headers, TLS, Reality, WireGuard), and whatever fields it adds that the plugin
  does not know, the options are decoded as they were encoded, with the defaults in the place of the
  omitted fields.\<close>

theorem connect_options_roundtrip:
  assumes "\<And>u. parse_uuid (show_uuid u) = Some u" and "allowed c"
  shows "decode_connect_options parse_uuid (client_options c show_uuid opts) = Some (understood_options c opts)"
  by (simp add: decode_connect_options_def client_options_def understood_options_def default_route_mode_def
      decode_client_profile [OF assms] edited_field [OF assms(2)] edited_field_or [OF assms(2)]
      decode_edited_parts [OF assms(2)] wire)

section \<open>A client\<close>

text \<open>Identifiers in hexadecimal, and a request that names nothing but a profile and a kill switch,
  with TLS without its optional fields and with a field the plugin does not know.\<close>

definition hex_uuid :: "uuid \<Rightarrow> string" where
  "hex_uuid u = show_radix 16 (unat u)"

definition read_uuid :: "string \<Rightarrow> uuid option" where
  "read_uuid s = map_option of_nat (parse_digits 16 0 s)"

lemma read_hex_uuid: "read_uuid (hex_uuid u) = Some u"
  by (simp add: read_uuid_def hex_uuid_def parse_show_digits)

definition wire_profile :: vpn_profile where
  "wire_profile =
     \<lparr>profile_id = 7, profile_name = ''home'', profile_protocol = Trojan, profile_server = ''h.example'',
      profile_port = 443,
      profile_auth = \<lparr>auth_uuid = None, auth_password = Some ''pw'', auth_method = None, auth_username = None\<rparr>,
      profile_transport = default_transport, profile_tls = Some \<lparr>tls_enabled = True, tls_server_name = None, tls_alpn = [], tls_insecure = False, tls_fingerprint = None\<rparr>, profile_reality = None,
      profile_wireguard = None, profile_extra = []\<rparr>"

definition wire_options :: connect_options where
  "wire_options =
     \<lparr>opt_profile = wire_profile, opt_route_mode = Global, opt_route_bypass_cidrs = [],
      opt_dns = default_dns_options, opt_kill_switch = True\<rparr>"

definition wire_request :: json where
  "wire_request =
     JObj [(''profile'', JObj [(''id'', JStr ''7''), (''name'', JStr ''home''), (''protocol'', JStr ''trojan''),
             (''server'', JStr ''h.example''), (''port'', jnat 443),
             (''auth'', JObj [(''password'', JStr ''pw'')]), (''tls'', JObj [(''enabled'', JBool True)])]),
           (''killSwitch'', JBool True), (''note'', JStr ''hi'')]"

definition wire_edits :: edits where
  "wire_edits n =
     (case n of
        AtOptions \<Rightarrow> ({''routeMode'', ''routeBypassCidrs'', ''dns''}, [(''note'', JStr ''hi'')])
      | AtProfile \<Rightarrow> ({''transport'', ''reality'', ''wireguard'', ''extra''}, [])
      | AtAuth \<Rightarrow> ({''uuid'', ''method'', ''username''}, [])
      | _ \<Rightarrow> (set (optional_keys n), []))"

theorem connect_options_roundtrip_witness:
  "decode_connect_options read_uuid wire_request = Some wire_options"
proof -
  have "show_radix 16 7 = ''7''" by code_simp
  then have request: "wire_request = client_options wire_edits hex_uuid wire_options"
    by (simp add: wire_request_def client_options_def client_profile_def edited_def wire_edits_def
        auth_fields_def tls_fields_def wire_options_def wire_profile_def hex_uuid_def encode_word_def)
  have "allowed wire_edits"
    unfolding allowed_def
  proof
    show "fst (wire_edits n) \<subseteq> set (optional_keys n) \<and> (\<forall>(k, v) \<in> set (snd (wire_edits n)). k \<notin> set (known_keys n))" for n
      by (cases n) (simp_all add: wire_edits_def)
  qed
  from connect_options_roundtrip [OF read_hex_uuid this, of wire_options] show ?thesis
    unfolding request
    by (simp add: understood_options_def understood_profile_def understood_auth_def understood_tls_def kept_or_def
        wire_edits_def wire_options_def wire_profile_def)
qed

end
