(* ===== verification/Wire_Types.thy ===== *)
theory Wire_Types
  imports Wire_Requests Sing_Config
begin

text \<open>
  Well-formed JSON: no object has two fields of one name. What the bridge decodes, what the
  generator makes of it and what the bridge answers stays well-formed, so the objects of the
  model are the maps of the code.
\<close>

section \<open>Well-formed values\<close>

fun json_wf :: "json \<Rightarrow> bool" where
  "json_wf (JArr js) \<longleftrightarrow> (\<forall>j \<in> set js. json_wf j)"
| "json_wf (JObj kvs) \<longleftrightarrow> distinct (map fst kvs) \<and> (\<forall>kv \<in> set kvs. json_wf (snd kv))"
| "json_wf _ \<longleftrightarrow> True"

named_theorems json_wf_intro \<open>encoded values are well-formed\<close>

definition map_wf :: "(string, 'a) btree_map \<Rightarrow> bool" where
  "map_wf m \<longleftrightarrow> distinct (map fst m)"

definition profile_wf :: "vpn_profile \<Rightarrow> bool" where
  "profile_wf p \<longleftrightarrow>
     map_wf (transport_headers (profile_transport p)) \<and> json_wf (JObj (profile_extra p))"

lemma json_wf_field: "json_wf (JObj kvs) \<Longrightarrow> map_of kvs k = Some j \<Longrightarrow> json_wf j"
  by (fastforce dest: map_of_SomeD)

lemma json_wf_set:
  assumes "json_set k v j = Some j'" and "json_wf j" and "json_wf v"
  shows "json_wf j'"
  using assms
proof (cases "(k, v, j)" rule: json_set.cases)
  case (1 k' v' kvs)
  have "\<forall>kv \<in> set (AList.update k v kvs). json_wf (snd kv)"
    using assms(2,3) 1 by (induction kvs arbitrary: j) auto
  with assms 1 show ?thesis by (auto simp: distinct_update)
qed auto

lemma json_wf_opt [json_wf_intro]: "(\<And>x. v = Some x \<Longrightarrow> json_wf (enc x)) \<Longrightarrow> json_wf (json_opt enc v)"
  by (cases v) simp_all

lemma json_wf_strs [json_wf_intro]: "json_wf (jstrs ss)"
  by simp

lemma json_wf_index [json_wf_intro]: "json_wf j \<Longrightarrow> json_wf (json_index j k)"
  by (cases "(j, k)" rule: json_index.cases) (auto dest: map_of_SomeD split: option.split simp: unwrap_or_def)

lemma json_wf_strip [json_wf_intro]: "json_wf j \<Longrightarrow> json_wf (strip_nulls j)"
  by (cases j) (auto simp: distinct_map_filter)

section \<open>Decoding keeps it\<close>

lemma decode_map_keys: "decode_map dec (JObj kvs) = Some m \<Longrightarrow> map fst m = map fst kvs"
  by (induction kvs arbitrary: m) (auto split: option.splits)

lemma decode_map_wf: "decode_map dec j = Some m \<Longrightarrow> json_wf j \<Longrightarrow> map_wf m"
  by (cases j) (auto simp: map_wf_def simp del: decode_map.simps(1) dest: decode_map_keys)

lemma decode_map_values: "decode_map Some (JObj kvs) = Some m \<Longrightarrow> m = kvs"
  by (induction kvs arbitrary: m) (auto split: option.splits)

lemma field_or_wf:
  assumes "field_or k d dec kvs = Some x" and "json_wf (JObj kvs)"
    and "P d" and "\<And>j. dec j = Some x \<Longrightarrow> json_wf j \<Longrightarrow> P x"
  shows "P x"
  using assms json_wf_field [OF assms(2)] by (auto simp: field_or_def split: option.splits)

lemma decode_transport_wf:
  assumes "decode_transport j = Some t" and "json_wf j"
  shows "map_wf (transport_headers t)"
proof (cases j)
  case (JObj kvs)
  with assms(1) obtain hs where "field_or ''headers'' [] (decode_map as_str) kvs = Some hs"
      and "transport_headers t = hs"
    by (auto simp: decode_transport_def bind_eq_Some_conv)
  with assms(2) JObj show ?thesis
    by (auto intro: field_or_wf [where P = map_wf] decode_map_wf simp: map_wf_def [of "[]"])
qed (use assms in \<open>auto simp: decode_transport_def decode_struct_def\<close>)

lemma decode_profile_wf:
  assumes "decode_profile parse_uuid j = Some p" and "json_wf j"
  shows "profile_wf p"
proof (cases j)
  case (JObj kvs)
  with assms(1) have t: "field_or ''transport'' default_transport decode_transport kvs = Some (profile_transport p)"
    and e: "field_or ''extra'' [] (decode_map Some) kvs = Some (profile_extra p)"
    by (auto simp: decode_profile_def bind_eq_Some_conv)
  have wf: "json_wf (JObj kvs)" using assms(2) JObj by simp
  have "map_wf (transport_headers (profile_transport p))"
    by (rule field_or_wf [OF t wf, where P = "\<lambda>t. map_wf (transport_headers t)"])
      (simp_all add: default_transport_def map_wf_def [of "[]"] decode_transport_wf)
  moreover have "json_wf (JObj (profile_extra p))"
  proof (rule field_or_wf [OF e wf, where P = "\<lambda>e. json_wf (JObj e)"])
    fix x
    assume "decode_map Some x = Some (profile_extra p)" "json_wf x"
    then show "json_wf (JObj (profile_extra p))"
      using decode_map_values by (cases x) auto
  qed simp
  ultimately show ?thesis by (simp add: profile_wf_def)
qed (use assms in \<open>auto simp: decode_profile_def decode_struct_def\<close>)

lemma decode_options_wf:
  assumes "decode_connect_options parse_uuid j = Some opts" and "json_wf j"
  shows "profile_wf (opt_profile opts)"
proof (cases j)
  case (JObj kvs)
  with assms(1) obtain x where "map_of kvs ''profile'' = Some x" "decode_profile parse_uuid x = Some (opt_profile opts)"
    by (auto simp: decode_connect_options_def bind_eq_Some_conv field_def)
  with assms(2) JObj show ?thesis using decode_profile_wf json_wf_field by metis
qed (use assms in \<open>auto simp: decode_connect_options_def decode_struct_def\<close>)

section \<open>The generator keeps it\<close>

lemma outbound_head_keys [simp]:
  "map fst (outbound_head kind p) = [''type'', ''tag'', ''server'', ''server_port'']"
  "kv \<in> set (outbound_head kind p) \<Longrightarrow> json_wf (snd kv)"
  by (auto simp: outbound_head_def json_u16_def)

lemma json_wf_head:
  assumes "distinct (map fst (outbound_head kind p) @ map fst kvs)" and "\<And>kv. kv \<in> set kvs \<Longrightarrow> json_wf (snd kv)"
  shows "json_wf (JObj (outbound_head kind p @ kvs))"
proof -
  have "json_wf (snd kv)" if "kv \<in> set (outbound_head kind p @ kvs)" for kv
    using that assms(2) outbound_head_keys(2) by fastforce
  with assms(1) show ?thesis by simp
qed

lemma hysteria2_obfs_wf: "hysteria2_obfs p = Some j \<Longrightarrow> json_wf j"
  by (auto simp: hysteria2_obfs_def bind_eq_Some_conv)

lemma wireguard_outbound_wf: "wireguard_outbound p = Inr j \<Longrightarrow> json_wf j"
  by (auto simp: wireguard_outbound_def and_then_Inr_iff Let_def json_wf_intro split: if_splits
      intro!: json_wf_head)

lemma outbound_base_wf:
  assumes "outbound_base p = Inr j"
  shows "json_wf j"
proof (cases "profile_protocol p")
  case WireGuard
  with assms wireguard_outbound_wf show ?thesis by (simp add: outbound_base_def Let_def)
next
  case Hysteria
  with assms show ?thesis
    by (auto simp: outbound_base_def Let_def and_then_Inr_iff simp del: strip_nulls.simps
        intro!: json_wf_strip json_wf_head json_wf_opt)
next
  case Hysteria2
  with assms show ?thesis
    by (auto simp: outbound_base_def Let_def and_then_Inr_iff hysteria2_obfs_wf simp del: strip_nulls.simps
        intro!: json_wf_strip json_wf_head json_wf_opt)
qed (use assms in \<open>auto simp: outbound_base_def Let_def and_then_Inr_iff json_u16_def
       intro!: json_wf_head json_wf_opt\<close>)

lemma utls_wf [json_wf_intro]: "json_wf (utls_json p f)"
  by (cases f) (simp_all add: utls_json_def)

lemma add_tls_wf:
  assumes "add_tls p j = Some j'" and "json_wf j"
  shows "json_wf j'"
proof -
  obtain j1 where j1: "add_tls_options p j = Some j1" "add_reality p j1 = Some j'"
    using assms(1) by (auto simp: add_tls_def bind_eq_Some_conv)
  have "json_wf j1"
    using j1(1) assms(2)
    by (auto simp: add_tls_options_def json_wf_intro split: option.splits if_splits
        elim!: json_wf_set intro!: json_wf_opt)
  with j1(2) show ?thesis
    by (auto simp: add_reality_def json_wf_intro split: option.splits elim!: json_wf_set intro!: json_wf_opt)
qed

lemma add_transport_wf:
  assumes "add_transport p j = Some j'" and "json_wf j" and "profile_wf p"
  shows "json_wf j'"
proof -
  let ?t = "profile_transport p"
  have "distinct (map fst (map (\<lambda>(k, v). (k, JStr v)) (transport_headers ?t)))"
    using assms(3) by (simp add: profile_wf_def map_wf_def comp_def case_prod_unfold)
  then have headers: "json_wf (JObj (map (\<lambda>(k, v). (k, JStr v)) (transport_headers ?t)))"
    by auto
  show ?thesis
  proof (cases "transport_kind ?t")
    case WebSocket
    with assms(1) obtain v where set: "json_set ''transport'' v j = Some j'"
      and v: "v = JObj [(''type'', JStr ''ws''), (''path'', json_opt JStr (transport_path ?t)),
        (''headers'', JObj (map (\<lambda>(k, v). (k, JStr v)) (transport_headers ?t)))]"
      by (simp add: add_transport_def Let_def)
    have "json_wf v" unfolding v using headers by (simp add: json_wf_intro)
    with set assms(2) show ?thesis by (rule json_wf_set)
  qed (use assms in \<open>auto simp: add_transport_def Let_def json_wf_intro elim!: json_wf_set intro!: json_wf_opt\<close>)
qed

lemma outbound_for_profile_wf:
  assumes "outbound_for_profile p = Some (Inr j)" and "profile_wf p"
  shows "json_wf j"
  using assms outbound_base_wf add_tls_wf add_transport_wf
  by (auto simp: outbound_for_profile_def bind_eq_Some_conv split: sum.splits)

lemma dns_server_wf: "json_wf (dns_server_for_upstream i s)"
  by (simp add: dns_server_for_upstream_def split: option.split)

lemma dns_servers_wf: "j \<in> set (dns_servers_for_upstreams us) \<Longrightarrow> json_wf j"
  using dns_server_wf by (auto simp: dns_servers_for_upstreams_def Let_def)

lemma route_rules_wf: "j \<in> set (route_rules_for_profile os p cidrs us) \<Longrightarrow> json_wf j"
  by (auto simp: route_rules_for_profile_def dns_upstream_rules_def dns_hijack_rule_def
      dns_port_hijack_rule_def catch_all_rule_def olcrtc_bypass_rules_def split: if_splits)

lemma sing_box_json_wf: "json_wf outbound \<Longrightarrow> json_wf (sing_box_json os opts outbound)"
  using dns_servers_wf route_rules_wf
  by (simp add: sing_box_json_def Let_def config_inbounds_def tun_inbound_def mixed_inbound_def json_u16_def)

text \<open>The generator keeps to maps. From a well-formed JSON request, whatever it leaves out or adds, the
  decoded options give a configuration in which no object has two fields of one name.\<close>

theorem generated_config_typed:
  assumes "json_wf j" and "decode_connect_options parse_uuid j = Some opts"
    and "generate_sing_box_config os opts = Some (Inr cfg)"
  shows "json_wf cfg"
proof -
  obtain outbound where "outbound_for_profile (opt_profile opts) = Some (Inr outbound)"
      and "cfg = sing_box_json os opts outbound"
    using assms(3) by (auto simp: generate_sing_box_config_def Let_def and_then_Inr_iff split: if_splits)
  with decode_options_wf [OF assms(2,1)] outbound_for_profile_wf sing_box_json_wf show ?thesis by blast
qed

text \<open>The request of a client that names only a profile.\<close>

theorem generated_config_typed_witness:
  "\<exists>cfg. generate_sing_box_config Linux wire_options = Some (Inr cfg) \<and> json_wf cfg"
proof -
  have j: "json_wf (encode_connect_options hex_uuid wire_options)"
    by (simp add: encode_connect_options_def options_fields_def encode_profile_def profile_fields_def
        part_fields_defs encode_auth_def encode_transport_def encode_tls_def encode_dns_options_def dns_fields_def encode_map_def encode_vec_def
        encode_word_def wire_options_def wire_profile_def default_transport_def default_dns_options_def)
  have d: "decode_connect_options read_uuid (encode_connect_options hex_uuid wire_options) = Some wire_options"
    using read_hex_uuid by (rule decode_encode_options)
  have "case generate_sing_box_config Linux wire_options of Some (Inr cfg) \<Rightarrow> True | _ \<Rightarrow> False"
    by code_simp
  then obtain cfg where cfg: "generate_sing_box_config Linux wire_options = Some (Inr cfg)"
    by (auto split: option.splits sum.splits)
  with generated_config_typed [OF j d] show ?thesis by blast
qed

end
