(* ===== verification/Wire_Commands.thy ===== *)
theory Wire_Commands
  imports Wire_Requests Plugin Import_Props
begin

text \<open>
  The commands as the user interface calls them: \<open>src/lib.rs\<close> registers six commands, whose
  arguments arrive as fields of a JSON object and whose results leave as JSON. Also the messages
  that go to the native plugin of a phone and that come back from it and from the statistics
  interface of the core (the \<open>serde\<close> structs of \<open>src/engine.rs\<close>).
\<close>

section \<open>Invoking a command\<close>

text \<open>
  What the commands take from outside: the target, the printer and parser of identifiers, and the
  answers of the importer's libraries, of the engine and of the native side.
\<close>

record bridge_env =
  bridge_os :: target_os
  show_uuid :: "uuid \<Rightarrow> string"
  parse_uuid :: "string \<Rightarrow> uuid option"
  bridge_import :: import_env
  bridge_start :: start_answers
  bridge_stop :: stop_answers
  bridge_mobile :: mobile_answers
  bridge_macos_up :: "bool vpn_result"

text \<open>An answer, an error of the command, a missing or malformed argument, or no such command.\<close>

datatype reply = Resolved json | Rejected json | BadArgument string | UnknownCommand

definition reply_of :: "('a \<Rightarrow> json) \<Rightarrow> 'a vpn_result \<Rightarrow> reply" where
  "reply_of enc r = (case r of Inl e \<Rightarrow> Rejected (encode_error e) | Inr x \<Rightarrow> Resolved (enc x))"

definition argument ::
    "string \<Rightarrow> (json \<Rightarrow> 'a option) \<Rightarrow> fields \<Rightarrow> ('a \<Rightarrow> vpn_state \<Rightarrow> reply \<times> vpn_state) \<Rightarrow> vpn_state \<Rightarrow>
     reply \<times> vpn_state" where
  "argument name dec args f s =
     (case field name dec args of None \<Rightarrow> (BadArgument name, s) | Some x \<Rightarrow> f x s)"

definition replying :: "('a \<Rightarrow> json) \<Rightarrow> 'a vpn_result \<times> vpn_state \<Rightarrow> reply \<times> vpn_state" where
  "replying enc rs = (reply_of enc (fst rs), snd rs)"

definition commands :: "string list" where
  "commands = [''connect'', ''disconnect'', ''status'', ''import_server'', ''validate_profile'', ''list_protocols'']"

definition connect_command ::
    "bridge_env \<Rightarrow> connect_options \<Rightarrow> vpn_state \<Rightarrow> connection_status vpn_result \<times> vpn_state" where
  "connect_command env opts s = connect (bridge_os env) (bridge_start env) (bridge_mobile env) opts s"

definition import_server_command :: "bridge_env \<Rightarrow> string \<Rightarrow> imported_server vpn_result" where
  "import_server_command env input = import_server (bridge_import env) input"

definition validate_profile_command :: "vpn_profile \<Rightarrow> validation_result vpn_result" where
  "validate_profile_command p = Inr (validate p)"

definition list_protocols_command :: "protocol_info list vpn_result" where
  "list_protocols_command = Inr list_protocols"

definition invoke :: "bridge_env \<Rightarrow> string \<Rightarrow> fields \<Rightarrow> vpn_state \<Rightarrow> reply \<times> vpn_state" where
  "invoke env command args s =
     (let status_json = encode_status (show_uuid env) in
      if command = ''connect'' then
        argument ''options'' (decode_connect_options (parse_uuid env)) args
          (\<lambda>opts s. replying status_json (connect_command env opts s)) s
      else if command = ''disconnect'' then
        replying status_json (disconnect (bridge_os env) (bridge_stop env) (bridge_mobile env) s)
      else if command = ''status'' then
        replying status_json
          (status_command (bridge_os env) (parse_uuid env) (bridge_mobile env) (bridge_macos_up env) s)
      else if command = ''import_server'' then
        argument ''input'' as_str args
          (\<lambda>input s. replying (encode_imported (show_uuid env)) (import_server_command env input, s)) s
      else if command = ''validate_profile'' then
        argument ''profile'' (decode_profile (parse_uuid env)) args
          (\<lambda>p s. replying encode_validation (validate_profile_command p, s)) s
      else if command = ''list_protocols'' then
        replying (encode_vec encode_protocol_info) (list_protocols_command, s)
      else (UnknownCommand, s))"

text \<open>The registered commands are the ones the build script declares.\<close>

lemma reply_known [simp]:
  "fst (replying enc rs) \<noteq> UnknownCommand"
  "fst (argument name dec args (\<lambda>x s. replying enc (g x s)) s) \<noteq> UnknownCommand"
  by (simp_all add: replying_def reply_of_def argument_def split: option.split sum.split)

lemma invoke_registered: "list_all (\<lambda>command. fst (invoke env command args s) \<noteq> UnknownCommand) commands"
  by (simp add: commands_def invoke_def Let_def)

lemma invoke_known: "fst (invoke env command args s) = UnknownCommand \<longleftrightarrow> command \<notin> set commands"
proof (cases "command \<in> set commands")
  case True
  with invoke_registered show ?thesis by (auto simp: list_all_iff)
next
  case False
  then have "list_all (\<lambda>c. command \<noteq> c) commands" by (auto simp: list_all_iff)
  then have "command \<noteq> ''connect''" "command \<noteq> ''disconnect''" "command \<noteq> ''status''"
    "command \<noteq> ''import_server''" "command \<noteq> ''validate_profile''" "command \<noteq> ''list_protocols''"
    unfolding commands_def by (simp_all only: list.pred_inject simp_thms)
  with False show ?thesis by (simp only: invoke_def Let_def if_False fst_conv not_False_eq_True refl)
qed

section \<open>Native messages\<close>

definition encode_native_connect_args :: "string \<Rightarrow> string option \<Rightarrow> json" where
  "encode_native_connect_args config_json profile =
     JObj [(''configJson'', JStr config_json), (''profileId'', json_opt JStr profile)]"

definition decode_native_start :: "json \<Rightarrow> bool option" where
  "decode_native_start = decode_struct (field ''started'' decode_bool)"

definition decode_native_stop :: "json \<Rightarrow> bool option" where
  "decode_native_stop = decode_struct (field ''stopped'' decode_bool)"

text \<open>A missing \<open>Option\<close> field is absent even without a \<open>default\<close> attribute.\<close>

definition decode_native_status :: "json \<Rightarrow> native_status option" where
  "decode_native_status = decode_struct (\<lambda>kvs.
     do {
       e \<leftarrow> field ''established'' decode_bool kvs;
       l \<leftarrow> opt_field ''lastError'' as_str kvs;
       a \<leftarrow> opt_field ''activeProfileId'' as_str kvs;
       u \<leftarrow> opt_field ''uploadedBytes'' as_u64 kvs;
       d \<leftarrow> opt_field ''downloadedBytes'' as_u64 kvs;
       Some \<lparr>established = e, ns_last_error = l, ns_active_profile_id = a, ns_uploaded_bytes = u,
             ns_downloaded_bytes = d\<rparr>
     })"

definition decode_connections_stats :: "json \<Rightarrow> (u64 \<times> u64) option" where
  "decode_connections_stats = decode_struct (\<lambda>kvs.
     do {
       u \<leftarrow> field ''uploadTotal'' as_u64 kvs;
       d \<leftarrow> field ''downloadTotal'' as_u64 kvs;
       Some (u, d)
     })"

section \<open>From import to connection\<close>

lemma invoke_import:
  "invoke env ''import_server'' [(''input'', JStr input)] s =
     (reply_of (encode_imported (show_uuid env)) (import_server (bridge_import env) input), s)"
  by (simp add: invoke_def argument_def field_def replying_def import_server_command_def)

lemma invoke_validate:
  "decode_profile (parse_uuid env) j = Some p \<Longrightarrow>
     invoke env ''validate_profile'' [(''profile'', j)] s = (Resolved (encode_validation (validate p)), s)"
  by (simp add: invoke_def argument_def field_def replying_def reply_of_def validate_profile_command_def)

lemma invoke_connect:
  "decode_connect_options (parse_uuid env) j = Some opts \<Longrightarrow>
     invoke env ''connect'' [(''options'', j)] s =
       replying (encode_status (show_uuid env))
         (connect (bridge_os env) (bridge_start env) (bridge_mobile env) opts s)"
  by (simp add: invoke_def argument_def field_def connect_command_def)

definition plain_options :: "vpn_profile \<Rightarrow> connect_options" where
  "plain_options p =
     \<lparr>opt_profile = p, opt_route_mode = Global, opt_route_bypass_cidrs = [],
      opt_dns = default_dns_options, opt_kill_switch = False\<rparr>"

lemma decode_plain_options:
  assumes "decode_profile parse j = Some p"
  shows "decode_connect_options parse (JObj [(''profile'', j)]) = Some (plain_options p)"
  using assms
  by (simp add: decode_connect_options_def field_def field_or_def plain_options_def default_route_mode_def)

text \<open>C15: A link becomes a connection without loss. If importing a link answers with a JSON object, then
  the profile in that object, sent back as it is, is validated as the imported profile, and a
  connect whose options name nothing but this profile is the connect command on the imported
  profile with the default options; and its configuration can be generated exactly when the
  validation said so.\<close>

theorem imported_link_connects:
  assumes "\<And>u. parse_uuid env (show_uuid env u) = Some u"
    and "invoke env ''import_server'' [(''input'', JStr input)] s = (Resolved j, s')"
  shows "\<exists>r. import_server (bridge_import env) input = Inr r \<and> s' = s \<and>
     invoke env ''validate_profile'' [(''profile'', json_index j ''profile'')] s =
       (Resolved (encode_validation (validate (imported_profile r))), s) \<and>
     invoke env ''connect'' [(''options'', JObj [(''profile'', json_index j ''profile'')])] s =
       replying (encode_status (show_uuid env))
         (connect (bridge_os env) (bridge_start env) (bridge_mobile env) (plain_options (imported_profile r)) s) \<and>
     (valid (validate (imported_profile r)) \<longleftrightarrow>
        (\<exists>cfg. generate_sing_box_config (bridge_os env) (plain_options (imported_profile r)) = Some (Inr cfg)))"
proof -
  obtain r where r: "import_server (bridge_import env) input = Inr r"
      and j: "j = encode_imported (show_uuid env) r" and s: "s' = s"
    using assms(2) by (auto simp: invoke_import reply_of_def split: sum.splits)
  let ?p = "imported_profile r"
  have p: "decode_profile (parse_uuid env) (json_index j ''profile'') = Some ?p"
    using decode_encode_profile [OF assms(1)] by (simp add: j encode_imported_def)
  have "opt_profile (plain_options ?p) = ?p" by (simp add: plain_options_def)
  with r s invoke_validate [OF p] invoke_connect [OF decode_plain_options [OF p]] imported_ready [OF r]
  show ?thesis by blast
qed

definition sample_bridge :: bridge_env where
  "sample_bridge =
     \<lparr>bridge_os = Linux, show_uuid = hex_uuid, parse_uuid = read_uuid, bridge_import = sample_env,
      bridge_start = good_answers, bridge_stop = good_stop, bridge_mobile = sample_mobile,
      bridge_macos_up = Inr False\<rparr>"

theorem imported_link_connects_witness:
  "\<exists>j. invoke sample_bridge ''import_server'' [(''input'', JStr ''trojan://a=b@h?sni=h'')]
         (vpn_state_new default_engine False) = (Resolved j, vpn_state_new default_engine False) \<and>
     fst (invoke sample_bridge ''validate_profile'' [(''profile'', json_index j ''profile'')]
         (vpn_state_new default_engine False)) =
       Resolved (encode_validation (validate (imported_profile sample_import)))"
proof -
  let ?s = "vpn_state_new default_engine False" and ?input = "''trojan://a=b@h?sni=h''"
  have import_here: "import_server (bridge_import sample_bridge) ?input = Inr sample_import"
    using sample_imports by (simp add: sample_bridge_def)
  then have i: "invoke sample_bridge ''import_server'' [(''input'', JStr ?input)] ?s =
      (Resolved (encode_imported (show_uuid sample_bridge) sample_import), ?s)"
    unfolding invoke_import by (simp add: reply_of_def)
  have "parse_uuid sample_bridge (show_uuid sample_bridge u) = Some u" for u
    using read_hex_uuid by (simp add: sample_bridge_def)
  from imported_link_connects [OF this i] import_here i show ?thesis by auto
qed

section \<open>Every sequence of invocations\<close>

text \<open>An invocation moves the state by a command of \<^const>\<open>command_step\<close>, or not at all.\<close>

lemma invoke_step:
  assumes "invoke env command args s = (r, s')"
  shows "s' = s \<or> command_step (bridge_os env) s s'"
  using assms
  by (auto simp: invoke_def argument_def replying_def connect_command_def Let_def
      split: if_splits option.splits intro: command_step.intros prod.collapse [symmetric])

fun invoke_all :: "(bridge_env \<times> string \<times> fields) list \<Rightarrow> vpn_state \<Rightarrow> vpn_state" where
  "invoke_all [] s = s"
| "invoke_all ((env, command, args) # calls) s = invoke_all calls (snd (invoke env command args s))"

lemma invoke_all_reachable:
  assumes "commands_reachable os plugin s" and "\<forall>(env, _) \<in> set calls. bridge_os env = os"
  shows "commands_reachable os plugin (invoke_all calls s)"
  using assms
proof (induction calls arbitrary: s)
  case (Cons call calls)
  obtain env command args where call: "call = (env, command, args)" by (cases call) auto
  obtain r s' where s': "invoke env command args s = (r, s')" by fastforce
  have "bridge_os env = os" using Cons.prems(2) call by simp
  with invoke_step [OF s'] Cons.prems(1) commands_step have "commands_reachable os plugin s'" by metis
  with Cons.IH [of s'] Cons.prems(2) call s' show ?case by simp
qed simp

end
