(* ===== verification/Sing_Outbound.thy ===== *)
theory Sing_Outbound
  imports Sing_Config_Props
begin

text \<open>
  What the generated proxy outbound says of the profile: its credentials, whether and how the
  connection is secured by TLS or Reality, and its transport, read back from the configuration
  field by field.
\<close>

section \<open>What a profile asks for\<close>






section \<open>What the outbound says\<close>















section \<open>Witness\<close>



end
