(* ===== verification/Windows_Calls.thy ===== *)
theory Windows_Calls
  imports Engine_Tasks "HOL-Library.Multiset"
begin

text \<open>
  The calls of the Windows API: the job object of \<open>src/engine.rs\<close> that takes the core down with the
  plugin, and the token query of \<open>src/platform.rs\<close>. What the system answers is an argument; the
  calls made are recorded in order, so that the handles still open can be read off.
\<close>

section \<open>Handles\<close>

type_synonym handle = u64

datatype win_call =
    JobCreated handle
  | KillOnCloseSet handle
  | ProcessOpened handle u32
  | ProcessAssigned handle handle
  | TokenOpened handle
  | HandleClosed handle

text \<open>The handles a sequence of calls opened and did not close.\<close>

fun opened_by :: "win_call \<Rightarrow> handle multiset" where
  "opened_by (JobCreated h) = {#h#}"
| "opened_by (ProcessOpened h _) = {#h#}"
| "opened_by (TokenOpened h) = {#h#}"
| "opened_by _ = {#}"

fun closed_by :: "win_call \<Rightarrow> handle multiset" where
  "closed_by (HandleClosed h) = {#h#}"
| "closed_by _ = {#}"

definition open_handles :: "win_call list \<Rightarrow> handle multiset" where
  "open_handles calls = fold (\<lambda>c hs. hs + opened_by c - closed_by c) calls {#}"

lemma open_handles_append [simp]:
  "open_handles [] = {#}"
  "open_handles (calls @ [c]) = open_handles calls + opened_by c - closed_by c"
  by (simp_all add: open_handles_def)

text \<open>\<open>HANDLE::is_invalid\<close>: null and minus one.\<close>

definition is_invalid :: "handle \<Rightarrow> bool" where
  "is_invalid h \<longleftrightarrow> h = 0 \<or> h = -1"

section \<open>The job object\<close>

text \<open>A \<open>WindowsJob\<close> is its handle, which its \<open>Drop\<close> closes.\<close>

definition drop_windows_job :: "handle \<Rightarrow> win_call list \<Rightarrow> win_call list" where
  "drop_windows_job job calls = (if is_invalid job then calls else calls @ [HandleClosed job])"

record job_answers =
  job_child_pid :: "u32 option"
  job_create :: "string + handle"
  job_set_limits :: "string + unit"
  job_open_process :: "string + handle"
  job_assign :: "string + unit"

text \<open>An error after the job was made leaves the function and drops the job.\<close>

definition assign_child_to_windows_job ::
    "job_answers \<Rightarrow> win_call list \<Rightarrow> handle vpn_result \<times> win_call list" where
  "assign_child_to_windows_job a calls =
     (case job_child_pid a of
        None \<Rightarrow> (Inl (Engine ''sing-box process id unavailable''), calls)
      | Some pid \<Rightarrow>
          (case job_create a of
             Inl e \<Rightarrow> (Inl (Engine (''CreateJobObjectW failed: '' @ e)), calls)
           | Inr job \<Rightarrow>
               let calls1 = calls @ [JobCreated job] in
               (case job_set_limits a of
                  Inl e \<Rightarrow> (Inl (Engine (''SetInformationJobObject failed: '' @ e)),
                            drop_windows_job job calls1)
                | Inr _ \<Rightarrow>
                    let calls2 = calls1 @ [KillOnCloseSet job] in
                    (case job_open_process a of
                       Inl e \<Rightarrow> (Inl (Engine (''OpenProcess failed: '' @ e)),
                                 drop_windows_job job calls2)
                     | Inr process \<Rightarrow>
                         let calls3 = calls2 @ [ProcessOpened process pid] in
                         (case job_assign a of
                            Inl e \<Rightarrow> (Inl (Engine (''AssignProcessToJobObject failed: '' @ e)),
                                      drop_windows_job job (calls3 @ [HandleClosed process]))
                          | Inr _ \<Rightarrow>
                              (Inr job, calls3 @ [ProcessAssigned job process, HandleClosed process]))))))"

section \<open>The token query\<close>

record token_answers =
  token_open :: "string + handle"
  token_elevation :: "string + u32"

definition query_elevation :: "token_answers \<Rightarrow> win_call list \<Rightarrow> bool \<times> win_call list" where
  "query_elevation a calls =
     (case token_open a of
        Inl _ \<Rightarrow> (False, calls)
      | Inr token \<Rightarrow>
          ((case token_elevation a of Inl _ \<Rightarrow> False | Inr elevated \<Rightarrow> elevated \<noteq> 0),
           calls @ [TokenOpened token, HandleClosed token]))"

section \<open>No handle leaks\<close>

lemma open_handles_more:
  "open_handles (calls @ [c, d]) = open_handles calls + opened_by c - closed_by c + opened_by d - closed_by d"
  by (simp add: open_handles_def)

lemma drop_job_handles:
  "\<not> is_invalid job \<Longrightarrow> open_handles (drop_windows_job job calls) = open_handles calls - {#job#}"
  by (simp add: drop_windows_job_def)

text \<open>C27: Whatever the calls of the Windows API answer, no handle is left behind: after the attempt to put
  the core into a job exactly the handles from before are open, and the job's if it succeeded; and
  the token query closes its token. A job that is returned kills its processes when it is closed,
  and holds the core, and it was set up before the core was put into it.\<close>

theorem windows_handles_balanced:
  assumes "assign_child_to_windows_job a calls = (r, calls')" and "query_elevation b calls' = (x, calls'')"
    and "\<And>job. job_create a = Inr job \<Longrightarrow> \<not> is_invalid job"
  shows "open_handles calls'' = open_handles calls' \<and>
     (case r of
        Inl _ \<Rightarrow> open_handles calls' = open_handles calls
      | Inr job \<Rightarrow>
          open_handles calls' = open_handles calls + {#job#} \<and>
          (\<exists>pid process. job_child_pid a = Some pid \<and>
             calls' = calls @ [JobCreated job, KillOnCloseSet job, ProcessOpened process pid,
                               ProcessAssigned job process, HandleClosed process]))"
proof -
  have "open_handles calls'' = open_handles calls'"
    using assms(2) by (auto simp: query_elevation_def open_handles_more split: sum.splits)
  moreover have "case r of
      Inl _ \<Rightarrow> open_handles calls' = open_handles calls
    | Inr job \<Rightarrow>
        open_handles calls' = open_handles calls + {#job#} \<and>
        (\<exists>pid process. job_child_pid a = Some pid \<and>
           calls' = calls @ [JobCreated job, KillOnCloseSet job, ProcessOpened process pid,
                             ProcessAssigned job process, HandleClosed process])"
    using assms(1,3)
    by (auto simp: assign_child_to_windows_job_def Let_def drop_windows_job_def open_handles_def
        split: option.splits sum.splits)
  ultimately show ?thesis by blast
qed

text \<open>The process cannot be opened: the job is closed again.\<close>

theorem windows_handles_balanced_witness:
  "open_handles (snd (assign_child_to_windows_job
       \<lparr>job_child_pid = Some 42, job_create = Inr 100, job_set_limits = Inr (),
        job_open_process = Inl ''access denied'', job_assign = Inr ()\<rparr> [])) = {#}"
proof -
  let ?a = "\<lparr>job_child_pid = Some 42, job_create = Inr 100, job_set_limits = Inr (),
        job_open_process = Inl ''access denied'', job_assign = Inr ()\<rparr>"
  obtain r calls where r: "assign_child_to_windows_job ?a [] = (r, calls)" by fastforce
  obtain x calls' where x: "query_elevation \<lparr>token_open = Inr 8, token_elevation = Inr 1\<rparr> calls = (x, calls')"
    by fastforce
  have "\<exists>e. r = Inl e" using r by (auto simp: assign_child_to_windows_job_def Let_def)
  moreover have "\<not> is_invalid 100" by (simp add: is_invalid_def)
  ultimately show ?thesis using windows_handles_balanced [OF r x] r by auto
qed

end
