(* ===== verification/Mobile_Races.thy ===== *)
theory Mobile_Races
  imports Plugin Wire_Requests
begin

text \<open>
  Commands on a phone at the same time. \<open>start_mobile\<close> and \<open>stop_mobile\<close> release the lock of the
  connection flag between their test and their end, so their parts interleave: the checks, the
  call of the native plugin, the wait for the tunnel, the mark. Run without interruption the parts
  are the commands of \<open>Commands\<close>. Connects alone exclude each other; at the end, how a status query
  breaks that.
\<close>

section \<open>The parts\<close>

definition mobile_check ::
    "target_os \<Rightarrow> connect_options \<Rightarrow> mobile_answers \<Rightarrow> engine \<Rightarrow> string list vpn_result" where
  "mobile_check os opts a e =
     (if profile_protocol (opt_profile opts) = OlcRtc
      then Inl (Unsupported ''OLC RTC mobile support needs a native/Rust WebRTC adapter; Windows desktop is implemented first'')
      else if mobile_connected e then Inl AlreadyRunning
      else
        and_then (check_platform_requirements os False) (\<lambda>warns.
        and_then (the (generate_sing_box_config os opts)) (\<lambda>config.
        and_then (map_err (\<lambda>x. Engine (''failed to serialize config: '' @ x)) (mob_serialize a config)) (\<lambda>_.
          if mob_plugin a then Inr warns else Inl no_plugin))))"

definition mobile_launch :: "mobile_answers \<Rightarrow> unit engine_op" where
  "mobile_launch a =
     run_then (answer (map_err (\<lambda>x. Platform (''native VPN start failed: '' @ x)) (mob_start a)))
       (\<lambda>_. perform (effect TunnelStarted))"

definition mobile_wait :: "mobile_answers \<Rightarrow> unit engine_op" where
  "mobile_wait a =
     wait_for_mobile_system_tunnel (mob_clock a) (\<lambda>i. map_sum (\<lambda>x. x) established (mob_status a i))"

definition mobile_mark :: "engine \<Rightarrow> engine" where
  "mobile_mark e = log_line ''native mobile VPN tunnel connected'' (e\<lparr>mobile_connected := True\<rparr>)"

definition mobile_stop_check :: "mobile_answers \<Rightarrow> engine \<Rightarrow> unit vpn_result" where
  "mobile_stop_check a e =
     (if \<not> mobile_connected e then Inl NotRunning
      else if \<not> mob_plugin a then Inl no_plugin else Inr ())"

definition mobile_halt :: "mobile_answers \<Rightarrow> unit engine_op" where
  "mobile_halt a =
     run_then (answer (map_err (\<lambda>x. Platform (''native VPN stop failed: '' @ x)) (mob_stop a)))
       (\<lambda>_. perform (effect TunnelStopped))"

definition mobile_unmark :: "engine \<Rightarrow> engine" where
  "mobile_unmark e = log_line ''native mobile VPN stop requested'' (e\<lparr>mobile_connected := False\<rparr>)"

section \<open>Steps\<close>

text \<open>Where a task stands; each name says what it has done.\<close>

datatype mobile_task =
    MIdle
  | MBegun connect_options
  | MChecked "string list"
  | MLaunched "string list"
  | MWaited "string list"
  | MStarted "string list vpn_result"
  | MStopping
  | MStopChecked
  | MHalted
  | MStopped "unit vpn_result"

record mobile_race =
  mob_state :: vpn_state
  mob_task :: "nat \<Rightarrow> mobile_task"

definition at_task :: "nat \<Rightarrow> mobile_task \<Rightarrow> vpn_state \<Rightarrow> mobile_race \<Rightarrow> mobile_race" where
  "at_task t p s r = \<lparr>mob_state = s, mob_task = (mob_task r)(t := p)\<rparr>"

abbreviation with_plugin :: "mobile_race \<Rightarrow> mobile_answers \<Rightarrow> mobile_answers" where
  "with_plugin r a \<equiv> a\<lparr>mob_plugin := st_mobile (mob_state r)\<rparr>"

fun started :: "('a \<Rightarrow> mobile_task) \<Rightarrow> 'a vpn_result \<Rightarrow> mobile_task" where
  "started next (Inr x) = next x"
| "started next (Inl err) = MStarted (Inl err)"

fun stopped :: "mobile_task \<Rightarrow> unit vpn_result \<Rightarrow> mobile_task" where
  "stopped next (Inr x) = next"
| "stopped next (Inl err) = MStopped (Inl err)"

text \<open>Connects are always possible; \<open>C\<close> says which of the other commands are given.\<close>

datatype other_command = Disconnects | Queries

inductive mobile_step :: "target_os \<Rightarrow> other_command set \<Rightarrow> mobile_race \<Rightarrow> mobile_race \<Rightarrow> bool" for os C where
  m_connect: "mob_task r t = MIdle \<Longrightarrow> connect_begin opts (mob_state r) = (q, s) \<Longrightarrow>
    mobile_step os C r (at_task t (case q of Inl _ \<Rightarrow> MIdle | Inr _ \<Rightarrow> MBegun opts) s r)"
| m_check: "mob_task r t = MBegun opts \<Longrightarrow>
    mobile_check os opts (with_plugin r a) (st_engine (mob_state r)) = x \<Longrightarrow>
    mobile_step os C r (at_task t (started MChecked x) (mob_state r) r)"
| m_launch: "mob_task r t = MChecked ws \<Longrightarrow> on_engine (mobile_launch a) (mob_state r) = (x, s) \<Longrightarrow>
    mobile_step os C r (at_task t (started (\<lambda>_. MLaunched ws) x) s r)"
| m_wait: "mob_task r t = MLaunched ws \<Longrightarrow> on_engine (mobile_wait a) (mob_state r) = (x, s) \<Longrightarrow>
    mobile_step os C r (at_task t (started (\<lambda>_. MWaited ws) x) s r)"
| m_mark: "mob_task r t = MWaited ws \<Longrightarrow> on_engine (perform mobile_mark) (mob_state r) = (x, s) \<Longrightarrow>
    mobile_step os C r (at_task t (MStarted (Inr ws)) s r)"
| m_connected: "mob_task r t = MStarted x \<Longrightarrow> connect_finish x (mob_state r) = (y, s) \<Longrightarrow>
    mobile_step os C r (at_task t MIdle s r)"
| m_disconnect: "mob_task r t = MIdle \<Longrightarrow> Disconnects \<in> C \<Longrightarrow>
    mobile_step os C r (at_task t MStopping (disconnect_begin (mob_state r)) r)"
| m_stop_check: "mob_task r t = MStopping \<Longrightarrow>
    mobile_stop_check (with_plugin r a) (st_engine (mob_state r)) = u \<Longrightarrow>
    mobile_step os C r (at_task t (stopped MStopChecked u) (mob_state r) r)"
| m_halt: "mob_task r t = MStopChecked \<Longrightarrow> on_engine (mobile_halt a) (mob_state r) = (u, s) \<Longrightarrow>
    mobile_step os C r (at_task t (stopped MHalted u) s r)"
| m_unmark: "mob_task r t = MHalted \<Longrightarrow> on_engine (perform mobile_unmark) (mob_state r) = (u, s) \<Longrightarrow>
    mobile_step os C r (at_task t (MStopped (Inr ())) s r)"
| m_disconnected: "mob_task r t = MStopped u \<Longrightarrow> disconnect_finish u (mob_state r) = (y, s) \<Longrightarrow>
    mobile_step os C r (at_task t MIdle s r)"
| m_status: "mob_task r t = MIdle \<Longrightarrow> Queries \<in> C \<Longrightarrow>
    status_command os parse_uuid a up (mob_state r) = (z, s) \<Longrightarrow>
    mobile_step os C r (at_task t MIdle s r)"

definition mobile_race_start :: "bool \<Rightarrow> mobile_race" where
  "mobile_race_start plugin =
     \<lparr>mob_state = vpn_state_new default_engine plugin, mob_task = (\<lambda>_. MIdle)\<rparr>"

lemma at_task_simps [simp]:
  "mob_state (at_task t p s r) = s" "mob_task (at_task t p s r) = (mob_task r)(t := p)"
  "at_task t p s (at_task t q s' r) = at_task t p s r"
  by (simp_all add: at_task_def)

section \<open>Run without interruption\<close>

lemma start_mobile_parts:
  "start_mobile os opts a e =
     (case mobile_check os opts a e of
        Inl err \<Rightarrow> (Inl err, e)
      | Inr ws \<Rightarrow>
          run_then (mobile_launch a) (\<lambda>_. run_then (mobile_wait a) (\<lambda>_. run_then (perform mobile_mark) (\<lambda>_.
            answer (Inr ws)))) e)"
  by (simp add: start_mobile_def mobile_check_def mobile_launch_def mobile_wait_def mobile_mark_def
      run_then_def answer_def perform_def and_then_def map_err_def split: sum.split prod.split)

lemma stop_mobile_parts:
  "stop_mobile a e =
     (case mobile_stop_check a e of
        Inl err \<Rightarrow> (Inl err, e)
      | Inr _ \<Rightarrow> run_then (mobile_halt a) (\<lambda>_. perform mobile_unmark) e)"
  by (simp add: stop_mobile_def mobile_stop_check_def mobile_halt_def mobile_unmark_def run_then_def
      answer_def perform_def map_err_def log_line_def effect_def split: sum.split)

abbreviation mobile_steps :: "target_os \<Rightarrow> other_command set \<Rightarrow> mobile_race \<Rightarrow> mobile_race \<Rightarrow> bool" where
  "mobile_steps os C \<equiv> (mobile_step os C)\<^sup>*\<^sup>*"

lemma started_finishes:
  assumes "mob_task r t = MStarted x" and "connect_finish x (mob_state r) = (y, s)"
  shows "mobile_steps os C r (at_task t MIdle s r)"
  using m_connected [OF assms] by (rule r_into_rtranclp)

text \<open>From the checks to the result, alone.\<close>

lemma engine_part_runs:
  assumes "mob_task r t = MBegun opts"
    and "on_engine (start_mobile os opts (with_plugin r a)) (mob_state r) = (x, s)"
  shows "mobile_steps os C r (at_task t (MStarted x) s r)"
proof -
  let ?a = "with_plugin r a"
  let ?e = "st_engine (mob_state r)"
  note check = m_check [OF assms(1) refl, of os C a]
  show ?thesis
  proof (cases "mobile_check os opts ?a ?e")
    case (Inl err)
    then have "x = Inl err" "s = mob_state r"
      using assms(2) by (simp_all add: on_engine_def start_mobile_parts)
    with check Inl show ?thesis by auto
  next
    case (Inr ws)
    let ?r1 = "at_task t (MChecked ws) (mob_state r) r"
    have r1: "mobile_steps os C r ?r1" using check Inr by auto
    obtain l e2 where l: "mobile_launch ?a ?e = (l, e2)" by fastforce
    let ?s2 = "(mob_state r)\<lparr>st_engine := e2\<rparr>"
    have launch: "mobile_step os C ?r1 (at_task t (started (\<lambda>_. MLaunched ws) l) ?s2 ?r1)"
      by (rule m_launch [where a = ?a]) (simp_all add: on_engine_def l)
    show ?thesis
    proof (cases l)
      case (Inl err)
      then have "x = Inl err" "s = ?s2"
        using assms(2) Inr l by (simp_all add: on_engine_def start_mobile_parts run_then_def)
      with r1 launch Inl show ?thesis by simp
    next
      case ok: (Inr u)
      let ?r2 = "at_task t (MLaunched ws) ?s2 r"
      have r2: "mobile_steps os C r ?r2" using r1 launch ok by simp
      obtain w e3 where w: "mobile_wait ?a e2 = (w, e3)" by fastforce
      let ?s3 = "(mob_state r)\<lparr>st_engine := e3\<rparr>"
      have wait: "mobile_step os C ?r2 (at_task t (started (\<lambda>_. MWaited ws) w) ?s3 ?r2)"
        by (rule m_wait [where a = ?a]) (simp_all add: on_engine_def w)
      show ?thesis
      proof (cases w)
        case (Inl err)
        then have "x = Inl err" "s = ?s3"
          using assms(2) Inr l ok w by (simp_all add: on_engine_def start_mobile_parts run_then_def)
        with r2 wait Inl show ?thesis by simp
      next
        case up: (Inr v)
        let ?r3 = "at_task t (MWaited ws) ?s3 r"
        have r3: "mobile_steps os C r ?r3" using r2 wait up by simp
        have "x = Inr ws" "s = (mob_state r)\<lparr>st_engine := mobile_mark e3\<rparr>"
          using assms(2) Inr l ok w up
          by (simp_all add: on_engine_def start_mobile_parts run_then_def perform_def answer_def)
        moreover have "mobile_step os C ?r3
            (at_task t (MStarted (Inr ws)) ((mob_state r)\<lparr>st_engine := mobile_mark e3\<rparr>) ?r3)"
          by (rule m_mark) (simp_all add: on_engine_def perform_def)
        ultimately show ?thesis using r3 by simp
      qed
    qed
  qed
qed

lemma connect_runs:
  assumes "is_mobile os" and "mob_task r t = MIdle" and "connect os b a opts (mob_state r) = (y, s')"
  shows "mobile_steps os C r (at_task t MIdle s' r)"
proof -
  obtain q s1 where q: "connect_begin opts (mob_state r) = (q, s1)" by fastforce
  note enter = m_connect [OF assms(2) q, of os C]
  show ?thesis
  proof (cases q)
    case (Inl err)
    with assms q have "s' = s1" by (simp add: connect_def connect_with_def)
    with enter Inl show ?thesis by auto
  next
    case (Inr u)
    let ?r1 = "at_task t (MBegun opts) s1 r"
    have plugin: "st_mobile s1 = st_mobile (mob_state r)"
      using q by (auto simp: connect_begin_def split: if_splits)
    obtain x s2 where x: "on_engine (start_mobile os opts (with_plugin r a)) s1 = (x, s2)" by fastforce
    then have "mobile_steps os C ?r1 (at_task t (MStarted x) s2 ?r1)"
      by (intro engine_part_runs [where a = a]) (simp_all add: plugin)
    moreover have "connect_finish x s2 = (y, s')"
      using assms(1,3) q Inr x by (simp add: connect_def connect_with_def engine_start_def)
    then have "mobile_steps os C (at_task t (MStarted x) s2 r) (at_task t MIdle s' r)"
      using started_finishes [of "at_task t (MStarted x) s2 r" t x y s'] by simp
    ultimately show ?thesis using enter Inr by (auto elim: rtranclp_trans converse_rtranclp_into_rtranclp)
  qed
qed

lemma stop_part_runs:
  assumes "mob_task r t = MStopping" and "on_engine (stop_mobile (with_plugin r a)) (mob_state r) = (u, s)"
  shows "mobile_steps os C r (at_task t (MStopped u) s r)"
proof -
  let ?a = "with_plugin r a"
  let ?e = "st_engine (mob_state r)"
  note check = m_stop_check [OF assms(1) refl, of os C a]
  show ?thesis
  proof (cases "mobile_stop_check ?a ?e")
    case (Inl err)
    then have "u = Inl err" "s = mob_state r"
      using assms(2) by (simp_all add: on_engine_def stop_mobile_parts)
    with check Inl show ?thesis by auto
  next
    case (Inr v)
    let ?r1 = "at_task t MStopChecked (mob_state r) r"
    have r1: "mobile_steps os C r ?r1" using check Inr by auto
    obtain h e2 where h: "mobile_halt ?a ?e = (h, e2)" by fastforce
    let ?s2 = "(mob_state r)\<lparr>st_engine := e2\<rparr>"
    have halt: "mobile_step os C ?r1 (at_task t (stopped MHalted h) ?s2 ?r1)"
      by (rule m_halt [where a = ?a]) (simp_all add: on_engine_def h)
    show ?thesis
    proof (cases h)
      case (Inl err)
      then have "u = Inl err" "s = ?s2"
        using assms(2) Inr h by (simp_all add: on_engine_def stop_mobile_parts run_then_def)
      with r1 halt Inl show ?thesis by simp
    next
      case ok: (Inr w)
      let ?r2 = "at_task t MHalted ?s2 r"
      have r2: "mobile_steps os C r ?r2" using r1 halt ok by simp
      have "u = Inr ()" "s = (mob_state r)\<lparr>st_engine := mobile_unmark e2\<rparr>"
        using assms(2) Inr h ok
        by (simp_all add: on_engine_def stop_mobile_parts run_then_def perform_def)
      moreover have "mobile_step os C ?r2
          (at_task t (MStopped (Inr ())) ((mob_state r)\<lparr>st_engine := mobile_unmark e2\<rparr>) ?r2)"
        by (rule m_unmark) (simp_all add: on_engine_def perform_def)
      ultimately show ?thesis using r2 by simp
    qed
  qed
qed

lemma disconnect_runs:
  assumes "is_mobile os" and "mob_task r t = MIdle" and C: "Disconnects \<in> C" and "disconnect os b a (mob_state r) = (y, s')"
  shows "mobile_steps os C r (at_task t MIdle s' r)"
proof -
  let ?s1 = "disconnect_begin (mob_state r)"
  let ?r1 = "at_task t MStopping ?s1 r"
  have plugin: "st_mobile ?s1 = st_mobile (mob_state r)" by (simp add: disconnect_begin_def)
  obtain u s2 where u: "on_engine (stop_mobile (with_plugin r a)) ?s1 = (u, s2)" by fastforce
  then have "mobile_steps os C ?r1 (at_task t (MStopped u) s2 ?r1)"
    by (intro stop_part_runs [where a = a]) (simp_all add: plugin)
  moreover have "disconnect_finish u s2 = (y, s')"
    using assms(1,4) u by (simp add: disconnect_def disconnect_with_def engine_stop_def)
  then have "mobile_step os C (at_task t (MStopped u) s2 r) (at_task t MIdle s' r)"
    using m_disconnected [of "at_task t (MStopped u) s2 r" t u y s'] by simp
  ultimately show ?thesis
    using m_disconnect [OF assms(2) C, of os]
    by (auto elim: rtranclp_trans converse_rtranclp_into_rtranclp rtranclp.rtrancl_into_rtrancl)
qed

text \<open>The interleaved model refines the commands: on a phone, every command is an uninterrupted run of
  the steps of one task, whatever the other tasks are at, with the same outside answers and the
  same final state.\<close>

theorem mobile_command_runs:
  assumes "is_mobile os" and "command_step os (mob_state r) s'" and "mob_task r t = MIdle"
  shows "mobile_steps os UNIV r (at_task t MIdle s' r)"
  using assms(2)
proof cases
  case (step_connect a m opts x)
  then show ?thesis by (rule connect_runs [OF assms(1,3)])
next
  case (step_disconnect b m x)
  then show ?thesis by (intro disconnect_runs [OF assms(1,3)]) simp_all
next
  case (step_status parse_uuid m up x)
  then show ?thesis using m_status [OF assms(3), of UNIV] by blast
qed

text \<open>A connect, as task 3.\<close>

theorem mobile_command_runs_witness:
  "mobile_steps Android UNIV (mobile_race_start True)
     (at_task 3 MIdle (snd (connect Android good_answers sample_mobile wire_options (vpn_state_new default_engine True)))
       (mobile_race_start True))"
proof (rule mobile_command_runs)
  show "is_mobile Android" by (simp add: is_mobile_def)
  show "command_step Android (mob_state (mobile_race_start True))
      (snd (connect Android good_answers sample_mobile wire_options (vpn_state_new default_engine True)))"
    by (rule step_connect [of _ good_answers sample_mobile wire_options]) (simp add: mobile_race_start_def prod_eq_iff)
  show "mob_task (mobile_race_start True) 3 = MIdle" by (simp add: mobile_race_start_def)
qed

section \<open>Connects exclude each other\<close>

text \<open>
  As long as only connects are given: while one is under way the phase is Connecting and no other is, and
  the engine has a tunnel exactly from the mark of a connect on.
\<close>

definition marked :: "mobile_task \<Rightarrow> bool" where
  "marked p \<longleftrightarrow> (\<exists>ws. p = MStarted (Inr ws))"

definition under_way :: "mobile_task \<Rightarrow> bool" where
  "under_way p \<longleftrightarrow> p \<noteq> MIdle"

definition connect_inv :: "mobile_race \<Rightarrow> bool" where
  "connect_inv r \<longleftrightarrow>
     (\<forall>t t'. under_way (mob_task r t) \<and> under_way (mob_task r t') \<longrightarrow> t = t') \<and>
     (phase (st_status (mob_state r)) = Connecting \<longleftrightarrow> (\<exists>t. under_way (mob_task r t))) \<and>
     (mobile_connected (st_engine (mob_state r)) \<longleftrightarrow>
        phase (st_status (mob_state r)) = Connected \<or> (\<exists>t. marked (mob_task r t))) \<and>
     (\<forall>t. mob_task r t \<in> {MIdle} \<union> range MBegun \<union> range MChecked \<union> range MLaunched \<union> range MWaited \<union> range MStarted)"

text \<open>A step of the connect under way, up to its mark.\<close>

lemma connect_inv_advance:
  assumes "connect_inv r" and "under_way (mob_task r t)" and "\<not> marked (mob_task r t)"
    and "phase (st_status s) = phase (st_status (mob_state r))" and "under_way p"
    and "mobile_connected (st_engine s) \<longleftrightarrow> marked p \<or> mobile_connected (st_engine (mob_state r))"
    and "p \<in> range MBegun \<union> range MChecked \<union> range MLaunched \<union> range MWaited \<union> range MStarted"
  shows "connect_inv (at_task t p s r)"
proof -
  have only: "t' = t" if "under_way (mob_task r t')" for t'
    using assms(1,2) that unfolding connect_inv_def by blast
  have connecting: "phase (st_status (mob_state r)) = Connecting"
    using assms(1,2) unfolding connect_inv_def by blast
  have unmarked: "\<not> marked (mob_task r t')" for t'
    using only [of t'] assms(3) by (auto simp: marked_def under_way_def)
  then have "\<not> mobile_connected (st_engine (mob_state r))"
    using assms(1) connecting by (simp add: connect_inv_def)
  moreover have "(\<exists>t'. marked (((mob_task r)(t := p)) t')) \<longleftrightarrow> marked p"
    using unmarked by auto
  moreover have "\<exists>t'. under_way (((mob_task r)(t := p)) t')" using assms(5) by (metis fun_upd_same)
  moreover have "\<forall>t'. mob_task r t' \<in> {MIdle} \<union> range MBegun \<union> range MChecked \<union> range MLaunched \<union> range MWaited \<union> range MStarted"
    using assms(1) unfolding connect_inv_def by blast
  ultimately show ?thesis
    using only connecting assms(4-7) unfolding connect_inv_def at_task_simps by auto
qed

lemma started_cases: "started next x = (case x of Inl err \<Rightarrow> MStarted (Inl err) | Inr y \<Rightarrow> next y)"
  by (cases x) simp_all

lemma mobile_parts_connected:
  "mobile_connected (snd (mobile_launch a e)) = mobile_connected e"
  "mobile_connected (snd (mobile_wait a e)) = mobile_connected e"
  by (auto simp: mobile_launch_def mobile_wait_def run_then_answer_eq perform_def wait_for_mobile_system_tunnel_def
      split: sum.split)

lemma connect_inv_tasks:
  assumes "connect_inv r"
  shows "mob_task r t \<noteq> MStopping" "mob_task r t \<noteq> MStopChecked" "mob_task r t \<noteq> MHalted" "mob_task r t \<noteq> MStopped u"
proof -
  have "mob_task r t \<in> {MIdle} \<union> range MBegun \<union> range MChecked \<union> range MLaunched \<union> range MWaited \<union> range MStarted"
    using assms unfolding connect_inv_def by blast
  then show "mob_task r t \<noteq> MStopping" "mob_task r t \<noteq> MStopChecked" "mob_task r t \<noteq> MHalted" "mob_task r t \<noteq> MStopped u"
    by auto
qed

lemma connect_inv_step:
  assumes "mobile_step os {} r r'" and "connect_inv r"
  shows "connect_inv r'"
  using assms(1)
proof cases
  case (m_connect t opts q s)
  show ?thesis
  proof (cases q)
    case (Inl err)
    with m_connect have "s = mob_state r" by (auto simp: connect_begin_def split: if_splits)
    moreover have "(mob_task r)(t := MIdle) = mob_task r" using m_connect(2) by auto
    ultimately show ?thesis using Inl m_connect(1) assms(2) by (simp add: connect_inv_def)
  next
    case (Inr u)
    with m_connect have s: "st_engine s = st_engine (mob_state r)" "phase (st_status s) = Connecting"
      and free: "phase (st_status (mob_state r)) \<noteq> Connected" "phase (st_status (mob_state r)) \<noteq> Connecting"
      by (auto simp: connect_begin_def split: if_splits)
    then have none: "\<And>t'. mob_task r t' = MIdle"
      using assms(2) unfolding connect_inv_def under_way_def by blast
    then have "\<not> mobile_connected (st_engine (mob_state r))"
      using assms(2) free unfolding connect_inv_def marked_def by auto
    with none s show ?thesis
      unfolding m_connect(1) connect_inv_def at_task_simps Inr under_way_def marked_def by auto
  qed
next
  case (m_check t opts a x)
  with assms(2) show ?thesis
    unfolding m_check(1)
    by (intro connect_inv_advance) (auto simp: under_way_def marked_def started_cases split: sum.splits)
next
  case (m_launch t ws a x s)
  from m_launch(3) have "mobile_connected (st_engine s) = mobile_connected (st_engine (mob_state r))"
    "st_status s = st_status (mob_state r)"
    using mobile_parts_connected(1) [of a "st_engine (mob_state r)"] by (auto simp: on_engine_def split: prod.splits)
  with m_launch(2) assms(2) show ?thesis
    unfolding m_launch(1)
    by (intro connect_inv_advance) (auto simp: under_way_def marked_def started_cases split: sum.splits)
next
  case (m_wait t ws a x s)
  from m_wait(3) have "mobile_connected (st_engine s) = mobile_connected (st_engine (mob_state r))"
    "st_status s = st_status (mob_state r)"
    using mobile_parts_connected(2) [of a "st_engine (mob_state r)"] by (auto simp: on_engine_def split: prod.splits)
  with m_wait(2) assms(2) show ?thesis
    unfolding m_wait(1)
    by (intro connect_inv_advance) (auto simp: under_way_def marked_def started_cases split: sum.splits)
next
  case (m_mark t ws x s)
  then show ?thesis
    using assms(2) unfolding m_mark(1)
    by (intro connect_inv_advance) (auto simp: under_way_def marked_def on_engine_def perform_def mobile_mark_def)
next
  case (m_connected t x y s)
  have only: "mob_task r t' = MIdle" if "t' \<noteq> t" for t'
    using assms(2) m_connected(2) that unfolding connect_inv_def under_way_def by (metis mobile_task.distinct(9))
  have s: "st_engine s = st_engine (mob_state r)"
    "phase (st_status s) = (case x of Inl _ \<Rightarrow> Failed | Inr _ \<Rightarrow> Connected)"
    using m_connected(3) by (auto simp: connect_finish_def Let_def split: sum.splits)
  have "phase (st_status (mob_state r)) = Connecting"
    using assms(2) m_connected(2) unfolding connect_inv_def under_way_def by (metis mobile_task.distinct(9))
  then have "mobile_connected (st_engine (mob_state r)) \<longleftrightarrow> (\<exists>t'. marked (mob_task r t'))"
    using assms(2) unfolding connect_inv_def by auto
  moreover have "marked (mob_task r t') \<longleftrightarrow> t' = t \<and> (\<exists>ws. x = Inr ws)" for t'
    using only [of t'] m_connected(2) by (cases "t' = t") (auto simp: marked_def)
  then have "(\<exists>t'. marked (mob_task r t')) \<longleftrightarrow> (case x of Inl _ \<Rightarrow> False | Inr _ \<Rightarrow> True)"
    by (auto split: sum.split)
  moreover have "((mob_task r)(t := MIdle)) t' = MIdle" for t' using only by simp
  ultimately show ?thesis
    using s unfolding m_connected(1) connect_inv_def at_task_simps under_way_def marked_def
    by (auto split: sum.splits)
qed (use connect_inv_tasks [OF assms(2)] in simp_all)

lemma connects_keep_inv:
  assumes "mobile_steps os {} (mobile_race_start plugin) r"
  shows "connect_inv r"
  using assms
proof (induction rule: rtranclp_induct)
  case base
  show ?case
    by (simp add: connect_inv_def under_way_def marked_def mobile_race_start_def vpn_state_new_def
        default_engine_def default_connection_status_def)
next
  case (step r1 r2)
  then show ?case using connect_inv_step by blast
qed

text \<open>C28: On a phone connects exclude each other, as long as nothing else is asked. In every interleaving of the
  parts of any number of connects, with any answers of the phone, at most one is under way; the phase is
  Connecting exactly as long, and Connected exactly when the tunnel is up and all have finished; and
  none starts the native VPN while the engine knows of a tunnel.\<close>

theorem phone_connects_exclusive:
  assumes "mobile_steps os {} (mobile_race_start plugin) r"
  shows "(mob_task r t \<noteq> MIdle \<and> mob_task r t' \<noteq> MIdle \<longrightarrow> t = t') \<and>
    (phase (st_status (mob_state r)) = Connecting \<longleftrightarrow> (\<exists>t. mob_task r t \<noteq> MIdle)) \<and>
    (phase (st_status (mob_state r)) = Connected \<longleftrightarrow>
       mobile_connected (st_engine (mob_state r)) \<and> (\<forall>t. mob_task r t = MIdle)) \<and>
    (mob_task r t = MChecked ws \<longrightarrow> \<not> mobile_connected (st_engine (mob_state r)))"
proof -
  note inv = connects_keep_inv [OF assms, unfolded connect_inv_def under_way_def]
  have "\<not> mobile_connected (st_engine (mob_state r))" if "mob_task r t = MChecked ws"
  proof -
    have "\<not> marked (mob_task r t')" for t'
    proof
      assume m: "marked (mob_task r t')"
      then have "mob_task r t' \<noteq> MIdle" by (auto simp: marked_def)
      with inv that have "t' = t" by (metis mobile_task.distinct(3))
      with m that show False by (simp add: marked_def)
    qed
    moreover have "phase (st_status (mob_state r)) \<noteq> Connected"
      using inv that by (metis connection_phase.distinct(9) mobile_task.distinct(3))
    ultimately show ?thesis using inv by blast
  qed
  moreover have "marked (mob_task r t') \<Longrightarrow> mob_task r t' \<noteq> MIdle" for t' by (auto simp: marked_def)
  ultimately show ?thesis using inv by (auto simp: marked_def)
qed

lemma wire_options_checked: "mobile_check Android wire_options sample_mobile e =
    (if mobile_connected e then Inl AlreadyRunning
     else Inr [''Android requires VpnService consent before connecting''])"
proof -
  have "case generate_sing_box_config Android wire_options of Some (Inr cfg) \<Rightarrow> True | _ \<Rightarrow> False"
    by code_simp
  then obtain cfg where "the (generate_sing_box_config Android wire_options) = Inr cfg"
    by (auto split: option.splits sum.splits)
  moreover have "profile_protocol (opt_profile wire_options) = Trojan"
    by (simp add: wire_options_def wire_profile_def)
  ultimately show ?thesis
    by (simp add: mobile_check_def check_platform_requirements_def is_elevated_def sample_mobile_def)
qed

lemma launch_again:
  assumes "phase (st_status (mob_state r)) = Disconnected" and "st_mobile (mob_state r)"
    and "\<not> mobile_connected (st_engine (mob_state r))" and "mob_task r t = MIdle"
  shows "\<exists>r' ws. mobile_steps Android C r r' \<and> mob_task r' = (mob_task r)(t := MLaunched ws) \<and>
     phase (st_status (mob_state r')) = Connecting \<and> st_mobile (mob_state r') \<and>
     st_engine (mob_state r') = effect TunnelStarted (st_engine (mob_state r))"
proof -
  let ?e = "st_engine (mob_state r)" and ?a = sample_mobile
  obtain s1 where s1: "connect_begin wire_options (mob_state r) = (Inr (), s1)"
      and s1': "st_engine s1 = ?e" "st_mobile s1" "phase (st_status s1) = Connecting"
    using assms(1,2) by (simp add: connect_begin_def)
  let ?r1 = "at_task t (MBegun wire_options) s1 r"
  have 1: "mobile_steps Android C r ?r1"
    using m_connect [OF assms(4) s1, of Android C] by auto
  have plugin: "with_plugin ?r1 ?a = ?a" using s1'(2) by (simp add: sample_mobile_def)
  have "mobile_check Android wire_options (with_plugin ?r1 ?a) (st_engine (mob_state ?r1)) =
      Inr [''Android requires VpnService consent before connecting'']"
    unfolding plugin wire_options_checked using assms(3) s1'(1) by simp
  from m_check [OF _ this, of t C] obtain ws where 2: "mobile_step Android C ?r1 (at_task t (MChecked ws) s1 r)"
    by auto
  have "mobile_step Android C (at_task t (MChecked ws) s1 r)
      (at_task t (started (\<lambda>_. MLaunched ws) (Inr ())) (s1\<lparr>st_engine := effect TunnelStarted ?e\<rparr>)
        (at_task t (MChecked ws) s1 r))"
    by (rule m_launch [where a = ?a])
      (simp_all add: on_engine_def mobile_launch_def run_then_def answer_def perform_def sample_mobile_def s1'(1))
  with 1 2 have "mobile_steps Android C r (at_task t (MLaunched ws) (s1\<lparr>st_engine := effect TunnelStarted ?e\<rparr>) r)"
    by (simp add: rtranclp.rtrancl_into_rtrancl)
  then show ?thesis using s1'(2,3) by (intro exI conjI) (assumption, simp_all)
qed


theorem phone_connects_exclusive_witness:
  "\<exists>r ws. mobile_steps Android {} (mobile_race_start True) r \<and> mob_task r 0 = MLaunched ws \<and>
     phase (st_status (mob_state r)) = Connecting \<and> (\<forall>t. t \<noteq> 0 \<longrightarrow> mob_task r t = MIdle)"
proof -
  let ?r0 = "mobile_race_start True"
  have "phase (st_status (mob_state ?r0)) = Disconnected" "st_mobile (mob_state ?r0)"
    "\<not> mobile_connected (st_engine (mob_state ?r0))" "mob_task ?r0 0 = MIdle"
    by (simp_all add: mobile_race_start_def vpn_state_new_def default_engine_def default_connection_status_def)
  from launch_again [OF this, of "{}"] obtain r ws where r: "mobile_steps Android {} ?r0 r"
    "mob_task r = (mob_task ?r0)(0 := MLaunched ws)" by blast
  then have launched: "mob_task r 0 = MLaunched ws" by simp
  have connecting: "phase (st_status (mob_state r)) = Connecting"
    using phone_connects_exclusive [OF r(1), of 0 0 "[]"] launched by (metis mobile_task.distinct(5))
  have "mob_task r t = MIdle" if "t \<noteq> 0" for t
    using phone_connects_exclusive [OF r(1), of t 0 "[]"] launched that by auto
  with r(1) launched connecting show ?thesis by blast
qed

section \<open>A status query during a connect\<close>

text \<open>The answers of a phone whose tunnel is not up yet.\<close>

definition tunnel_down :: mobile_answers where
  "tunnel_down = sample_mobile\<lparr>mob_status := (\<lambda>i. Inr
     \<lparr>established = False, ns_last_error = None, ns_active_profile_id = None,
      ns_uploaded_bytes = None, ns_downloaded_bytes = None\<rparr>)\<rparr>"

text \<open>C38: One status query undoes the guard of a connect under way. On Android there is a run of a connect
  that has started the native VPN and waits for the tunnel; every other connect is refused then. A
  status query that finds the tunnel not yet up sets the phase from Connecting to Disconnected, and
  from there a second connect, with no other command given, starts the native VPN again while the
  first still waits. No disconnect takes part.\<close>

theorem status_query_admits_second_start:
  "\<exists>r z s r' ws ws'. mobile_steps Android {} (mobile_race_start True) r \<and> mob_task r 0 = MLaunched ws \<and>
     phase (st_status (mob_state r)) = Connecting \<and>
     (\<forall>opts. connect_begin opts (mob_state r) = (Inl AlreadyRunning, mob_state r)) \<and>
     status_command Android (\<lambda>_. None) tunnel_down (Inr False) (mob_state r) = (z, s) \<and>
     phase (st_status s) = Disconnected \<and>
     mobile_steps Android {} (r\<lparr>mob_state := s\<rparr>) r' \<and>
     mob_task r' 0 = MLaunched ws \<and> mob_task r' 1 = MLaunched ws' \<and>
     effects (st_engine (mob_state r')) = [TunnelStarted, TunnelStarted]"
proof -
  let ?r0 = "mobile_race_start True"
  have idle: "mob_task ?r0 = (\<lambda>_. MIdle)" by (simp add: mobile_race_start_def)
  have "phase (st_status (mob_state ?r0)) = Disconnected" "st_mobile (mob_state ?r0)"
    "\<not> mobile_connected (st_engine (mob_state ?r0))" "effects (st_engine (mob_state ?r0)) = []"
    by (simp_all add: mobile_race_start_def vpn_state_new_def default_engine_def default_connection_status_def)
  from launch_again [OF this(1-3), of 0 "{}"] this(3,4) obtain r1 ws where r1: "mobile_steps Android {} ?r0 r1"
      "mob_task r1 = (mob_task ?r0)(0 := MLaunched ws)" "phase (st_status (mob_state r1)) = Connecting"
      "st_mobile (mob_state r1)" "\<not> mobile_connected (st_engine (mob_state r1))"
      "effects (st_engine (mob_state r1)) = [TunnelStarted]"
    by (auto simp: idle effect_def)
  have refused: "connect_begin opts (mob_state r1) = (Inl AlreadyRunning, mob_state r1)" for opts
    by (simp add: connect_begin_def r1(3))
  obtain z s2 where z: "status_command Android (\<lambda>_. None) tunnel_down (Inr False) (mob_state r1) = (z, s2)"
    by fastforce
  then have s2: "phase (st_status s2) = Disconnected" "st_mobile s2" "\<not> mobile_connected (st_engine s2)"
    "effects (st_engine s2) = [TunnelStarted]"
    using r1(3-6)
    by (auto simp: status_command_def is_mobile_def on_engine_def get_mobile_status_def tunnel_down_def
        sample_mobile_def upt_conv_Cons recover_phase_def Let_def)
  let ?r2 = "r1\<lparr>mob_state := s2\<rparr>"
  from launch_again [of ?r2 1 "{}"] s2 r1(2) idle obtain r3 ws' where r3: "mobile_steps Android {} ?r2 r3"
      "mob_task r3 = (mob_task r1)(1 := MLaunched ws')"
      "st_engine (mob_state r3) = effect TunnelStarted (st_engine s2)"
    by auto
  have "mob_task r3 0 = MLaunched ws" "mob_task r3 1 = MLaunched ws'" "mob_task r1 0 = MLaunched ws"
    "effects (st_engine (mob_state r3)) = [TunnelStarted, TunnelStarted]"
    using r1(2) r3(2,3) s2(4) by (simp_all add: effect_def)
  with r1(1,3) refused z s2(1) r3(1) show ?thesis by blast
qed

text \<open>The query is a step of the interleaved commands.\<close>

lemma query_step:
  assumes "mob_task r t = MIdle" and "status_command os parse_uuid a up (mob_state r) = (z, s)"
  shows "mobile_step os {Queries} r (r\<lparr>mob_state := s\<rparr>)"
  using m_status [OF assms(1) _ assms(2), of "{Queries}"] assms(1) by (cases r) (simp add: at_task_def fun_upd_idem)

end
