(* ===== verification/Relay_Props.thy ===== *)
theory Relay_Props
  imports Socks_Props Olc_Link
begin

text \<open>
  The relay of a SOCKS5 connection (\<open>handle_socks5\<close> of \<open>src/olcrtc/client.rs\<close>), in every
  interleaving of its two pumps: which bytes it carries, over the encrypted link too, and which are
  lost when it ends.
\<close>

section \<open>Segments accepted one after the other\<close>

text \<open>What has been read already, and what is sent, does not change how segments are accepted.\<close>

definition shift :: "byte list \<Rightarrow> u32 \<Rightarrow> stream \<Rightarrow> stream" where
  "shift w n st = st\<lparr>recv_buf := w @ recv_buf st, next_send_seq := n\<rparr>"

lemma shift_fields [simp]:
  "recv_buf (shift w n st) = w @ recv_buf st" "next_recv_seq (shift w n st) = next_recv_seq st"
  "out_of_order (shift w n st) = out_of_order st"
  by (simp_all add: shift_def)

lemma shift_take [simp]:
  "(shift w n st)\<lparr>recv_buf := w @ recv_buf st @ d, next_recv_seq := k\<rparr> =
     shift w n (st\<lparr>recv_buf := recv_buf st @ d, next_recv_seq := k\<rparr>)"
  "(shift w n st)\<lparr>recv_buf := w @ recv_buf st @ d, next_recv_seq := k, out_of_order := oo\<rparr> =
     shift w n (st\<lparr>recv_buf := recv_buf st @ d, next_recv_seq := k, out_of_order := oo\<rparr>)"
  "(shift w n st)\<lparr>out_of_order := oo\<rparr> = shift w n (st\<lparr>out_of_order := oo\<rparr>)"
  by (rule stream.equality; simp add: shift_def)+

lemma drain_shift: "drain (shift w n st) = shift w n (drain st)"
proof (induction st rule: drain.induct)
  case (1 st)
  show ?case
  proof (cases "map_of (out_of_order st) (next_recv_seq st)")
    case None
    then show ?thesis by (simp add: drain.simps [of st] drain.simps [of "shift w n st"])
  next
    case (Some data)
    from "1.IH" [OF this] Some show ?thesis
      by (simp add: drain.simps [of st] drain.simps [of "shift w n st"])
  qed
qed

lemma accept_shift: "fst (accept_segment q d (shift w n st)) = shift w n (fst (accept_segment q d st))"
  by (simp add: accept_segment_def drain_shift)

text \<open>The segments of a run, accepted one after the other.\<close>

definition accept_run :: "u32 \<Rightarrow> byte list list \<Rightarrow> nat list \<Rightarrow> stream \<Rightarrow> stream" where
  "accept_run base segs js st = fold (\<lambda>i st. fst (accept_segment (seg_seq base i) (segs ! i) st)) js st"

lemma accept_run_shift: "accept_run base segs js (shift w n st) = shift w n (accept_run base segs js st)"
  unfolding accept_run_def by (induction js arbitrary: st) (simp_all add: accept_shift)

lemma accept_run_frame [simp]:
  "closed (accept_run base segs js st) = closed st" "st_client_id (accept_run base segs js st) = st_client_id st"
  "next_send_seq (accept_run base segs js st) = next_send_seq st"
  unfolding accept_run_def by (induction js arbitrary: st) simp_all

text \<open>The frames of a list of chunks in their order.\<close>

definition frames_of :: "u32 \<Rightarrow> u16 \<Rightarrow> u32 \<Rightarrow> byte list list \<Rightarrow> frame list" where
  "frames_of c sid base cs = map (seg_frame c sid base cs) [0..<length cs]"

lemma frames_of_Nil [simp]: "frames_of c sid base [] = []"
  by (simp add: frames_of_def)

lemma frames_of_append:
  "frames_of c sid base (cs @ ds) = frames_of c sid base cs @ frames_of c sid (base + of_nat (length cs)) ds"
  unfolding frames_of_def
  by (rule nth_equalityI) (auto simp: nth_append seg_frame_def seg_seq_def algebra_simps)

section \<open>What a relay holds\<close>

text \<open>The frames that arrive during a relay; the bytes taken from the stream and not yet written; the
  bytes read from the client and not yet sent.\<close>

fun arrivals :: "relay_event list \<Rightarrow> frame list" where
  "arrivals [] = []"
| "arrivals (FrameArrives frame # events) = frame # arrivals events"
| "arrivals (_ # events) = arrivals events"

definition in_flight :: "'p relay \<Rightarrow> byte list" where
  "in_flight r = (case rl_from r of Writing data \<Rightarrow> data | _ \<Rightarrow> [])"

definition unsent :: "'p relay \<Rightarrow> byte list" where
  "unsent r =
     (case rl_to r of
        Reading \<Rightarrow> []
      | Sending rest \<Rightarrow> concat rest
      | Handing frame rest \<Rightarrow> drop header_size frame @ concat rest)"

text \<open>Neither end of the client's connection fails or closes.\<close>

definition undisturbed :: "relay_event list \<Rightarrow> bool" where
  "undisturbed events \<longleftrightarrow> ClientEnds \<notin> set events \<and> ClientGone \<notin> set events"

text \<open>
  The invariant of a relay that started with the stream \<open>st0\<close> on the multiplexer of \<open>client\<close>, after
  the segments \<open>js\<close> have arrived: the stream is the one those arrivals give, less what was read,
  which is written or in flight; the frames sent are numbered chunks of what was read from the
  client, less what is not yet sent.
\<close>

definition numbered :: "u32 \<Rightarrow> u16 \<Rightarrow> u32 \<Rightarrow> nat \<Rightarrow> to_mux \<Rightarrow> u32 \<Rightarrow> bool" where
  "numbered client sid base n to next \<longleftrightarrow>
     (case to of
        Handing frame rest \<Rightarrow>
          (\<exists>chunk. frame = data_frame client sid (base + of_nat n) chunk) \<and> next = base + of_nat n + 1
      | _ \<Rightarrow> next = base + of_nat n)"

definition relay_inv ::
    "(frame list \<Rightarrow> 'p \<Rightarrow> bool) \<Rightarrow> u16 \<Rightarrow> u32 \<Rightarrow> byte list list \<Rightarrow> u32 \<Rightarrow> stream \<Rightarrow> conn \<Rightarrow> frame list \<Rightarrow>
     nat list \<Rightarrow> 'p relay \<Rightarrow> bool" where
  "relay_inv carries sid base segs client st0 s0 log js r \<longleftrightarrow>
     (\<exists>st w cs. stream_at (rl_mux r) sid = Some st \<and> mux_client_id (rl_mux r) = client \<and>
        accept_run base segs js st0 = shift w (next_send_seq st0) st \<and>
        written s0 @ w = written (rl_conn r) @ in_flight r \<and>
        write_failure (rl_conn r) = write_failure s0 \<and>
        incoming s0 = concat cs @ unsent r @ incoming (rl_conn r) \<and>
        carries (log @ frames_of client sid (next_send_seq st0) cs) (rl_out r) \<and>
        numbered client sid (next_send_seq st0) (length cs) (rl_to r) (next_send_seq st))"

lemma shift_frame [simp]:
  "closed (shift w n st) = closed st" "st_client_id (shift w n st) = st_client_id st"
  "shift w n (st\<lparr>next_send_seq := k\<rparr>) = shift w n st"
  by (simp_all add: shift_def)

lemma shift_read: "shift w n st = shift (w @ recv_buf st) n (st\<lparr>recv_buf := []\<rparr>)"
  by (simp add: shift_def)

lemma shift_self: "shift [] (next_send_seq st) st = st"
  by (simp add: shift_def)

lemma accept_run_Nil [simp]: "accept_run base segs [] st = st"
  by (simp add: accept_run_def)

lemma accept_run_snoc:
  "accept_run base segs (js @ [j]) st =
     fst (accept_segment (seg_seq base j) (segs ! j) (accept_run base segs js st))"
  by (simp add: accept_run_def)

lemma receive_data_client [simp]: "mux_client_id (receive_data c sid q d m) = mux_client_id m"
proof (cases "stream_at m sid")
  case None
  then show ?thesis by (simp add: receive_data_def entry_or_insert_def Let_def split: prod.split)
next
  case (Some st)
  then show ?thesis by (simp add: receive_data_def entry_or_insert_def Let_def split: prod.split)
qed

lemma inv_frame:
  assumes inv: "relay_inv carries sid base segs client st0 s0 log js r"
    and j: "j < length segs" and segs: "segs_ok segs"
  shows "\<exists>m. handle_frame (seg_frame (st_client_id st0) sid base segs j) (rl_mux r) = Some m \<and>
     relay_inv carries sid base segs client st0 s0 log (js @ [j]) (r\<lparr>rl_mux := m\<rparr>)"
proof -
  let ?q = "seg_seq base j" and ?d = "segs ! j"
  from inv obtain st w cs where I: "stream_at (rl_mux r) sid = Some st" "mux_client_id (rl_mux r) = client"
        "accept_run base segs js st0 = shift w (next_send_seq st0) st"
        "written s0 @ w = written (rl_conn r) @ in_flight r"
        "write_failure (rl_conn r) = write_failure s0"
        "incoming s0 = concat cs @ unsent r @ incoming (rl_conn r)"
        "carries (log @ frames_of client sid (next_send_seq st0) cs) (rl_out r)"
        "numbered client sid (next_send_seq st0) (length cs) (rl_to r) (next_send_seq st)"
    unfolding relay_inv_def by blast
  have id: "st_client_id st = st_client_id st0"
    using arg_cong [OF I(3), of st_client_id] by simp
  let ?m = "receive_data (st_client_id st0) sid ?q ?d (rl_mux r)"
  let ?st = "fst (accept_segment ?q ?d st)"
  have "0 < length ?d" "length ?d \<le> chunk_size" using segs j by (auto simp: segs_ok_def)
  then have "handle_frame (seg_frame (st_client_id st0) sid base segs j) (rl_mux r) = Some ?m"
    by (simp add: seg_frame_def handle_data_frame)
  moreover have "stream_at ?m sid = Some ?st"
    using receive_data_stream [OF I(1) id] by simp
  moreover have "accept_run base segs (js @ [j]) st0 = shift w (next_send_seq st0) ?st"
    by (simp add: accept_run_snoc I(3) accept_shift)
  moreover have "next_send_seq ?st = next_send_seq st" by simp
  ultimately show ?thesis
    using I unfolding relay_inv_def by (simp add: in_flight_def unsent_def) blast
qed


lemma relay_invE:
  assumes "relay_inv carries sid base segs client st0 s0 log js r"
  obtains st w cs where "stream_at (rl_mux r) sid = Some st" "mux_client_id (rl_mux r) = client"
    "accept_run base segs js st0 = shift w (next_send_seq st0) st"
    "written s0 @ w = written (rl_conn r) @ in_flight r"
    "write_failure (rl_conn r) = write_failure s0"
    "incoming s0 = concat cs @ unsent r @ incoming (rl_conn r)"
    "carries (log @ frames_of client sid (next_send_seq st0) cs) (rl_out r)"
    "numbered client sid (next_send_seq st0) (length cs) (rl_to r) (next_send_seq st)"
    "closed st = closed st0"
proof -
  from assms obtain st w cs where I: "stream_at (rl_mux r) sid = Some st" "mux_client_id (rl_mux r) = client"
    "accept_run base segs js st0 = shift w (next_send_seq st0) st"
    "written s0 @ w = written (rl_conn r) @ in_flight r"
    "write_failure (rl_conn r) = write_failure s0"
    "incoming s0 = concat cs @ unsent r @ incoming (rl_conn r)"
    "carries (log @ frames_of client sid (next_send_seq st0) cs) (rl_out r)"
    "numbered client sid (next_send_seq st0) (length cs) (rl_to r) (next_send_seq st)"
    unfolding relay_inv_def by blast
  show ?thesis by (rule that [OF I]) (use arg_cong [OF I(3), of closed] in simp)
qed

lemma relay_invI:
  assumes "stream_at (rl_mux r) sid = Some st" "mux_client_id (rl_mux r) = client"
    "accept_run base segs js st0 = shift w (next_send_seq st0) st"
    "written s0 @ w = written (rl_conn r) @ in_flight r"
    "write_failure (rl_conn r) = write_failure s0"
    "incoming s0 = concat cs @ unsent r @ incoming (rl_conn r)"
    "carries (log @ frames_of client sid (next_send_seq st0) cs) (rl_out r)"
    "numbered client sid (next_send_seq st0) (length cs) (rl_to r) (next_send_seq st)"
  shows "relay_inv carries sid base segs client st0 s0 log js r"
  unfolding relay_inv_def using assms by blast

lemma inv_client_gives:
  assumes "relay_inv carries sid base segs client st0 s0 log js r"
  shows "relay_inv carries sid base segs client st0 s0 log js (client_gives n r)"
proof (cases "client_gives n r = r")
  case False
  then have reading: "rl_to r = Reading" by (auto simp: client_gives_def Let_def split: if_splits)
  from assms show ?thesis
  proof (rule relay_invE)
    fix st w cs
    assume "stream_at (rl_mux r) sid = Some st" "mux_client_id (rl_mux r) = client"
      "accept_run base segs js st0 = shift w (next_send_seq st0) st"
      "written s0 @ w = written (rl_conn r) @ in_flight r"
      "write_failure (rl_conn r) = write_failure s0"
      "incoming s0 = concat cs @ unsent r @ incoming (rl_conn r)"
      "carries (log @ frames_of client sid (next_send_seq st0) cs) (rl_out r)"
      "numbered client sid (next_send_seq st0) (length cs) (rl_to r) (next_send_seq st)"
    then show ?thesis
      by (intro relay_invI [where st = st and w = w and cs = cs])
        (simp_all add: client_gives_def Let_def reading unsent_def in_flight_def numbered_def chunk_size_def)
  qed
qed (use assms in simp)

lemma inv_client_takes:
  assumes "relay_inv carries sid base segs client st0 s0 log js r"
  shows "relay_inv carries sid base segs client st0 s0 log js (client_takes n r)"
proof (cases "client_takes n r = r")
  case False
  then obtain data where writing: "rl_from r = Writing data" "0 < n"
    by (auto simp: client_takes_def split: from_mux.splits if_splits)
  from assms show ?thesis
  proof (rule relay_invE)
    fix st w cs
    assume "stream_at (rl_mux r) sid = Some st" "mux_client_id (rl_mux r) = client"
      "accept_run base segs js st0 = shift w (next_send_seq st0) st"
      "written s0 @ w = written (rl_conn r) @ in_flight r"
      "write_failure (rl_conn r) = write_failure s0"
      "incoming s0 = concat cs @ unsent r @ incoming (rl_conn r)"
      "carries (log @ frames_of client sid (next_send_seq st0) cs) (rl_out r)"
      "numbered client sid (next_send_seq st0) (length cs) (rl_to r) (next_send_seq st)"
    then show ?thesis
      by (intro relay_invI [where st = st and w = w and cs = cs])
        (auto simp: client_takes_def writing write_all_def unsent_def in_flight_def split: option.split)
  qed
qed (use assms in simp)

lemma inv_over:
  "relay_inv carries sid base segs client st0 s0 log js (r\<lparr>rl_over := b\<rparr>) =
     relay_inv carries sid base segs client st0 s0 log js r"
  by (simp add: relay_inv_def unsent_def in_flight_def)

lemma inv_client_ends:
  "relay_inv carries sid base segs client st0 s0 log js r \<Longrightarrow>
     relay_inv carries sid base segs client st0 s0 log js (client_ends r)"
  by (simp add: client_ends_def inv_over)

lemma inv_client_gone:
  "relay_inv carries sid base segs client st0 s0 log js r \<Longrightarrow>
     relay_inv carries sid base segs client st0 s0 log js (client_gone r)"
  by (simp add: client_gone_def inv_over split: from_mux.split)

lemma inv_pump_from_mux:
  assumes "relay_inv carries sid base segs client st0 s0 log js r"
  shows "relay_inv carries sid base segs client st0 s0 log js (pump_from_mux sid r)"
  using assms
proof (rule relay_invE)
  fix st w cs
  assume I: "stream_at (rl_mux r) sid = Some st" "mux_client_id (rl_mux r) = client"
    "accept_run base segs js st0 = shift w (next_send_seq st0) st"
    "written s0 @ w = written (rl_conn r) @ in_flight r"
    "write_failure (rl_conn r) = write_failure s0"
    "incoming s0 = concat cs @ unsent r @ incoming (rl_conn r)"
    "carries (log @ frames_of client sid (next_send_seq st0) cs) (rl_out r)"
    "numbered client sid (next_send_seq st0) (length cs) (rl_to r) (next_send_seq st)"
  show ?thesis
  proof (cases "rl_from r")
    case Taking
    have "accept_run base segs js st0 =
        shift (w @ recv_buf st) (next_send_seq st0) (st\<lparr>recv_buf := []\<rparr>)"
      using I(3) by (simp only: shift_read [symmetric])
    then show ?thesis
      using I by (intro relay_invI [where st = "st\<lparr>recv_buf := []\<rparr>" and w = "w @ recv_buf st" and cs = cs])
        (auto simp: pump_from_mux_def Taking read_stream_def unsent_def in_flight_def)
  qed (use I assms in \<open>auto intro!: relay_invI [where st = st and w = w and cs = cs]
      simp: pump_from_mux_def wait_check_def entry_or_insert_def unsent_def in_flight_def inv_over\<close>)
qed


lemma frames_of_snoc:
  "frames_of c sid base (cs @ [d]) = frames_of c sid base cs @ [data_frame c sid (base + of_nat (length cs)) d]"
  by (simp add: frames_of_append) (simp add: frames_of_def seg_frame_def seg_seq_def)

lemma drop_data_frame [simp]: "drop header_size (data_frame c sid q d) = d"
  by (simp add: data_frame_def header_size_def be_u32_def be_u16_def)

lemma stays_gives: "rl_over (client_gives n r) = rl_over r"
  by (simp add: client_gives_def Let_def)

lemma stays_from_mux:
  assumes "relay_inv carries sid base segs client st0 s0 log js r" and "\<not> closed st0"
  shows "rl_over (pump_from_mux sid r) = rl_over r"
  using assms(1)
proof (rule relay_invE)
  fix st assume "stream_at (rl_mux r) sid = Some st" and "closed st = closed st0"
  with assms(2) have "\<not> stream_closed sid (rl_mux r)" by (simp add: stream_closed_def)
  then show ?thesis by (simp add: pump_from_mux_def split: from_mux.split prod.split)
qed

lemma stays_takes:
  assumes "relay_inv carries sid base segs client st0 s0 log js r" and "write_failure s0 = None"
  shows "rl_over (client_takes n r) = rl_over r"
proof -
  have "write_failure (rl_conn r) = None" using assms by (auto simp: relay_inv_def)
  then show ?thesis by (simp add: client_takes_def write_all_def split: from_mux.split)
qed

text \<open>Over a channel that carries frames the invariant holds in every step of the relay.\<close>

context carrier begin

lemma inv_pump_to_mux:
  assumes "relay_inv carries sid base segs client st0 s0 log js r" and "\<not> closed st0"
  shows "relay_inv carries sid base segs client st0 s0 log js (pump_to_mux send sid r) \<and>
     rl_over (pump_to_mux send sid r) = rl_over r"
  using assms(1)
proof (rule relay_invE)
  fix st w cs
  assume I: "stream_at (rl_mux r) sid = Some st" "mux_client_id (rl_mux r) = client"
    "accept_run base segs js st0 = shift w (next_send_seq st0) st"
    "written s0 @ w = written (rl_conn r) @ in_flight r"
    "write_failure (rl_conn r) = write_failure s0"
    "incoming s0 = concat cs @ unsent r @ incoming (rl_conn r)"
    "carries (log @ frames_of client sid (next_send_seq st0) cs) (rl_out r)"
    "numbered client sid (next_send_seq st0) (length cs) (rl_to r) (next_send_seq st)"
    and "closed st = closed st0"
  with assms(2) have open_st: "\<not> closed st" by simp
  show ?thesis
  proof (cases "rl_to r")
    case Reading
    then show ?thesis using assms(1) by (simp add: pump_to_mux_def)
  next
    case (Sending rest)
    show ?thesis
    proof (cases rest)
      case Nil
      then show ?thesis
        using I by (auto intro!: relay_invI [where st = st and w = w and cs = cs]
            simp: pump_to_mux_def Sending unsent_def in_flight_def numbered_def)
    next
      case (Cons chunk later)
      let ?st = "st\<lparr>next_send_seq := next_send_seq st + 1\<rparr>"
      from I open_st show ?thesis
        by (auto intro!: relay_invI [where st = ?st and w = w and cs = cs]
            simp: pump_to_mux_def Sending Cons unsent_def in_flight_def numbered_def)
    qed
  next
    case (Handing frame rest)
    with I(8) obtain chunk where frame: "frame = data_frame client sid (next_send_seq st0 + of_nat (length cs)) chunk"
      and seq: "next_send_seq st = next_send_seq st0 + of_nat (length cs) + 1"
      by (auto simp: numbered_def)
    obtain p where p: "send frame (rl_out r) = (Inr (), p)"
        "carries ((log @ frames_of client sid (next_send_seq st0) cs) @ [frame]) p"
      using send_carries [OF I(7)] by blast
    have "carries (log @ frames_of client sid (next_send_seq st0) (cs @ [chunk])) p"
      using p(2) by (simp add: frames_of_snoc frame)
    then show ?thesis
      using I p(1) seq by (auto intro!: relay_invI [where st = st and w = w and cs = "cs @ [chunk]"]
          simp: pump_to_mux_def Handing unsent_def in_flight_def numbered_def frame)
  qed
qed

lemma inv_step:
  assumes "relay_inv carries sid base segs client st0 s0 log js r" and "\<not> closed st0"
    and "\<And>frame. event \<noteq> FrameArrives frame"
  shows "\<exists>r1. relay_step send sid event r = Some r1 \<and>
     relay_inv carries sid base segs client st0 s0 log js r1 \<and>
     (undisturbed [event] \<and> write_failure s0 = None \<longrightarrow> rl_over r1 = rl_over r)"
  using assms(3) inv_pump_to_mux [OF assms(1,2)] stays_from_mux [OF assms(1,2)] stays_takes [OF assms(1)]
  by (cases event)
    (auto simp: relay_step_def undisturbed_def stays_gives inv_pump_from_mux inv_client_gives
      inv_client_takes inv_client_ends inv_client_gone assms(1))

lemma inv_relay_run:
  assumes "relay_inv carries sid base segs client st0 s0 log js r" and "\<not> closed st0" and "segs_ok segs"
    and "set later \<subseteq> {..<length segs}"
    and "arrivals events = map (seg_frame (st_client_id st0) sid base segs) later"
  shows "\<exists>r' n. relay_run send sid events r = Some r' \<and>
     relay_inv carries sid base segs client st0 s0 log (js @ take n later) r' \<and>
     (\<not> rl_over r' \<longrightarrow> length later \<le> n) \<and>
     (\<not> rl_over r \<and> undisturbed events \<and> write_failure s0 = None \<longrightarrow> \<not> rl_over r')"
  using assms(1,4,5)
proof (induction events arbitrary: js later r)
  case Nil
  then show ?case by (auto intro!: exI [of _ 0])
next
  case (Cons event events)
  show ?case
  proof (cases "rl_over r")
    case True
    with Cons.prems show ?thesis by (auto intro!: exI [of _ 0])
  next
    case False
    show ?thesis
    proof (cases "\<exists>frame. event = FrameArrives frame")
      case True
      then obtain frame where event: "event = FrameArrives frame" ..
      with Cons.prems(3) obtain j rest where later: "later = j # rest"
        and frame: "frame = seg_frame (st_client_id st0) sid base segs j"
        and rest: "arrivals events = map (seg_frame (st_client_id st0) sid base segs) rest"
        by (cases later) auto
      have "j < length segs" "set rest \<subseteq> {..<length segs}" using Cons.prems(2) later by simp_all
      from inv_frame [OF Cons.prems(1) this(1) assms(3)] obtain m
        where m: "handle_frame frame (rl_mux r) = Some m"
          and inv: "relay_inv carries sid base segs client st0 s0 log (js @ [j]) (r\<lparr>rl_mux := m\<rparr>)"
        unfolding frame by blast
      from Cons.IH [OF inv \<open>set rest \<subseteq> _\<close> rest] obtain r' n
        where "relay_run send sid events (r\<lparr>rl_mux := m\<rparr>) = Some r'"
          "relay_inv carries sid base segs client st0 s0 log (js @ take (Suc n) later) r'"
          "\<not> rl_over r' \<longrightarrow> length later \<le> Suc n"
          "\<not> rl_over r \<and> undisturbed events \<and> write_failure s0 = None \<longrightarrow> \<not> rl_over r'"
        unfolding later by auto
      then show ?thesis
        using False m event by (intro exI [of _ r'] exI [of _ "Suc n"]) (simp add: relay_step_def undisturbed_def)
    next
      case other: False
      then have "arrivals (event # events) = arrivals events" by (cases event) simp_all
      with Cons.prems(3) have arr: "arrivals events = map (seg_frame (st_client_id st0) sid base segs) later"
        by simp
      from inv_step [OF Cons.prems(1) assms(2)] other obtain r1
        where r1: "relay_step send sid event r = Some r1"
          "relay_inv carries sid base segs client st0 s0 log js r1"
          "undisturbed [event] \<and> write_failure s0 = None \<longrightarrow> rl_over r1 = rl_over r"
        by blast
      from Cons.IH [OF r1(2) Cons.prems(2) arr] obtain r' n
        where r': "relay_run send sid events r1 = Some r'"
          "relay_inv carries sid base segs client st0 s0 log (js @ take n later) r'"
          "\<not> rl_over r' \<longrightarrow> length later \<le> n"
          "\<not> rl_over r1 \<and> undisturbed events \<and> write_failure s0 = None \<longrightarrow> \<not> rl_over r'"
        by blast
      have "undisturbed (event # events) \<longrightarrow> undisturbed [event] \<and> undisturbed events"
        by (simp add: undisturbed_def)
      then have "\<not> rl_over r \<and> undisturbed (event # events) \<and> write_failure s0 = None \<longrightarrow> \<not> rl_over r'"
        using r'(4) r1(3) by blast
      with r1(1) r' False show ?thesis by (intro exI [of _ r'] exI [of _ n]) simp
    qed
  qed
qed

lemma relay_conserves:
  assumes "segs_ok segs" and "carries log p" and "stream_at m sid = Some st" and "\<not> closed st"
    and "out_of_order st = []" and "unat (next_recv_seq st) + length segs < 2 ^ 32"
    and "set js \<subseteq> {..<length segs}"
    and "\<forall>t < length js. {..<js ! t - max_out_of_order} \<subseteq> set (take t js)"
    and "arrivals events = map (seg_frame (st_client_id st) sid (next_recv_seq st) segs) js"
  shows "\<exists>r st' cs n k. relay_run send sid events (relay_start m s p) = Some r \<and>
     stream_at (rl_mux r) sid = Some st' \<and>
     (\<not> rl_over r \<longrightarrow> length js \<le> n) \<and> (undisturbed events \<and> write_failure s = None \<longrightarrow> \<not> rl_over r) \<and>
     k \<notin> set (take n js) \<and> {..<k} \<subseteq> set (take n js) \<and>
     written (rl_conn r) @ in_flight r @ recv_buf st' = written s @ recv_buf st @ concat (take k segs) \<and>
     incoming s = concat cs @ unsent r @ incoming (rl_conn r) \<and>
     carries (log @ frames_of (mux_client_id m) sid (next_send_seq st) cs) (rl_out r)"
proof -
  let ?base = "next_recv_seq st" and ?inv = "relay_inv carries sid (next_recv_seq st) segs (mux_client_id m) st s log"
  have "?inv [] (relay_start m s p)"
    by (rule relay_invI [where st = st and w = "[]" and cs = "[]"])
      (use assms(2,3) in \<open>simp_all add: relay_start_def shift_self in_flight_def unsent_def numbered_def\<close>)
  from inv_relay_run [OF this assms(4,1,7,9)] obtain r n
    where run: "relay_run send sid events (relay_start m s p) = Some r" and inv: "?inv (take n js) r"
      and over: "\<not> rl_over r \<longrightarrow> length js \<le> n" "undisturbed events \<and> write_failure s = None \<longrightarrow> \<not> rl_over r"
    by (auto simp: relay_start_def)
  have sub: "set (take n js) \<subseteq> {..<length segs}" using assms(7) set_take_subset by fast
  have window: "{..<i - max_out_of_order} \<subseteq> set pre" if "take n js = pre @ i # post" for pre i post
  proof -
    have js: "js = pre @ i # post @ drop n js" using append_take_drop_id [of n js] that by simp
    have "js ! length pre = i" by (subst js) simp
    moreover have "take (length pre) js = pre" by (subst js) simp
    moreover have "length pre < length js" by (subst js) simp
    ultimately show ?thesis using assms(8) by metis
  qed
  note start = reassembly_start [OF assms(5,6)]
  have "reassembly 1 ?base (recv_buf st) segs (accept_run ?base segs (take n js) st) \<and>
      stream_got ?base (accept_run ?base segs (take n js) st) = set (take n js)"
    unfolding accept_run_def using seg.run [OF start(1) sub] window start(2) by auto
  with seg.output_prefix obtain k where k: "k \<notin> set (take n js)" "{..<k} \<subseteq> set (take n js)"
      "recv_buf (accept_run ?base segs (take n js) st) = recv_buf st @ concat (take k segs)"
    by metis
  from inv show ?thesis
  proof (rule relay_invE)
    fix st' w cs
    assume I: "stream_at (rl_mux r) sid = Some st'"
      "accept_run ?base segs (take n js) st = shift w (next_send_seq st) st'"
      "written s @ w = written (rl_conn r) @ in_flight r"
      "incoming s = concat cs @ unsent r @ incoming (rl_conn r)"
      "carries (log @ frames_of (mux_client_id m) sid (next_send_seq st) cs) (rl_out r)"
    have "w @ recv_buf st' = recv_buf st @ concat (take k segs)"
      using k(3) arg_cong [OF I(2), of recv_buf] by simp
    then have "written (rl_conn r) @ in_flight r @ recv_buf st' = written s @ recv_buf st @ concat (take k segs)"
      using I(3) by (metis append.assoc)
    with run over k I show ?thesis by blast
  qed
qed

end

interpretation recorded: carrier record_send "\<lambda>log p. p = log"
  by unfold_locales (simp add: record_send_def)

section \<open>Nothing gets stuck\<close>

lemma relay_run_append:
  "relay_run send sid (xs @ ys) r = Option.bind (relay_run send sid xs r) (relay_run send sid ys)"
proof (induction xs arbitrary: r)
  case (Cons x xs)
  have "relay_run send sid ys r = Some r" if "rl_over r" using that by (cases ys) simp_all
  then show ?case by (auto simp: Cons.IH split: Option.bind_split)
qed simp

text \<open>An open stream, a client that takes what is written.\<close>

definition flowing :: "u16 \<Rightarrow> stream \<Rightarrow> 'p relay \<Rightarrow> bool" where
  "flowing sid st r \<longleftrightarrow> stream_at (rl_mux r) sid = Some st \<and> \<not> closed st \<and>
     write_failure (rl_conn r) = None \<and> \<not> rl_over r"

text \<open>A run of polls of the second pump, during which the client takes \<open>bytes\<close>.\<close>

definition drains_to ::
    "'p send_fn \<Rightarrow> u16 \<Rightarrow> 'p relay \<Rightarrow> byte list \<Rightarrow> stream \<Rightarrow> 'p relay \<Rightarrow> bool" where
  "drains_to send sid r bytes st' r' \<longleftrightarrow>
     (\<exists>events. relay_run send sid events r = Some r' \<and> set events \<subseteq> insert PollFromMux (range ClientTakes)) \<and>
     flowing sid st' r' \<and> written (rl_conn r') = written (rl_conn r) @ bytes"

lemma drains_refl: "flowing sid st r \<Longrightarrow> drains_to send sid r [] st r"
  unfolding drains_to_def by (auto intro!: exI [of _ "[]"])

lemma drains_trans:
  assumes "drains_to send sid r xs st1 r1" and "drains_to send sid r1 ys st2 r2"
  shows "drains_to send sid r (xs @ ys) st2 r2"
proof -
  obtain as bs where "relay_run send sid as r = Some r1" "set as \<subseteq> insert PollFromMux (range ClientTakes)"
      "relay_run send sid bs r1 = Some r2" "set bs \<subseteq> insert PollFromMux (range ClientTakes)"
    using assms unfolding drains_to_def by blast
  then have "relay_run send sid (as @ bs) r = Some r2 \<and> set (as @ bs) \<subseteq> insert PollFromMux (range ClientTakes)"
    by (simp add: relay_run_append)
  then have "\<exists>events. relay_run send sid events r = Some r2 \<and> set events \<subseteq> insert PollFromMux (range ClientTakes)"
    by blast
  with assms show ?thesis by (simp add: drains_to_def)
qed

lemma drains_step:
  assumes "flowing sid st r" and "relay_step send sid event r = Some r'"
    and "event \<in> insert PollFromMux (range ClientTakes)"
    and "flowing sid st' r'" and "written (rl_conn r') = written (rl_conn r) @ bytes"
  shows "drains_to send sid r bytes st' r'"
  unfolding drains_to_def using assms by (auto simp: flowing_def intro!: exI [of _ "[event]"])

lemma drain_checking:
  assumes "flowing sid st r" and "rl_from r = Checking"
  shows "drains_to send sid r [] st (r\<lparr>rl_from := Waiting\<rparr>)"
  by (rule drains_step [where st = st and event = PollFromMux])
    (use assms in \<open>simp_all add: relay_step_def pump_from_mux_def flowing_def stream_closed_def\<close>)

lemma drain_writing:
  assumes "flowing sid st r" and "rl_from r = Writing data"
  shows "\<exists>r'. drains_to send sid r data st r' \<and> rl_from r' = Waiting"
proof -
  let ?r = "r\<lparr>rl_conn := (rl_conn r)\<lparr>written := written (rl_conn r) @ data\<rparr>, rl_from := Checking\<rparr>"
  have "drains_to send sid r data st ?r"
    by (rule drains_step [where st = st and event = "ClientTakes (Suc (length data))"])
      (use assms in \<open>simp_all add: relay_step_def client_takes_def write_all_def flowing_def\<close>)
  moreover have "drains_to send sid ?r [] st (?r\<lparr>rl_from := Waiting\<rparr>)"
    by (rule drain_checking) (use assms in \<open>simp_all add: flowing_def\<close>)
  ultimately have "drains_to send sid r (data @ []) st (?r\<lparr>rl_from := Waiting\<rparr>)"
    by (rule drains_trans)
  then show ?thesis by auto
qed

lemma drain_taking:
  assumes "flowing sid st r" and "rl_from r = Taking"
  shows "\<exists>r' st'. drains_to send sid r (recv_buf st) st' r' \<and> rl_from r' = Waiting \<and> recv_buf st' = []"
proof -
  let ?st = "st\<lparr>recv_buf := []\<rparr>"
  let ?r = "r\<lparr>rl_mux := put_stream sid ?st (rl_mux r),
      rl_from := (if recv_buf st = [] then Checking else Writing (recv_buf st))\<rparr>"
  have flow: "flowing sid ?st ?r" using assms by (simp add: flowing_def)
  have "drains_to send sid r [] ?st ?r"
    by (rule drains_step [where st = st and event = PollFromMux])
      (use assms in \<open>simp_all add: relay_step_def pump_from_mux_def read_stream_def flowing_def\<close>)
  moreover have "\<exists>r'. drains_to send sid ?r (recv_buf st) ?st r' \<and> rl_from r' = Waiting"
  proof (cases "recv_buf st = []")
    case True
    with drain_checking [OF flow] show ?thesis by force
  next
    case False
    then show ?thesis by (intro drain_writing [OF flow]) simp
  qed
  ultimately obtain r' where "drains_to send sid r (recv_buf st) ?st r'" "rl_from r' = Waiting"
    using drains_trans by fastforce
  then show ?thesis by (auto intro!: exI [of _ r'] exI [of _ ?st])
qed

lemma drain_waiting:
  assumes "flowing sid st r" and "rl_from r = Waiting"
  shows "\<exists>r' st'. drains_to send sid r (recv_buf st) st' r' \<and> rl_from r' = Waiting \<and> recv_buf st' = []"
proof (cases "recv_buf st = []")
  case True
  with assms drains_refl show ?thesis by metis
next
  case False
  let ?r = "r\<lparr>rl_from := Taking\<rparr>"
  have "drains_to send sid r [] st ?r"
    by (rule drains_step [where st = st and event = PollFromMux])
      (use assms False in \<open>simp_all add: relay_step_def pump_from_mux_def flowing_def wait_check_def
        entry_or_insert_def ready_def\<close>)
  moreover have "flowing sid st ?r" using assms by (simp add: flowing_def)
  with drain_taking obtain r' st' where "drains_to send sid ?r (recv_buf st) st' r'"
      "rl_from r' = Waiting" "recv_buf st' = []" by fastforce
  ultimately show ?thesis using drains_trans by fastforce
qed

lemma relay_drains:
  assumes "flowing sid st r"
  shows "\<exists>r' st'. drains_to send sid r (in_flight r @ recv_buf st) st' r' \<and>
     rl_from r' = Waiting \<and> recv_buf st' = []"
proof -
  have "(in_flight r = [] \<and> rl_from r = Taking) \<or>
      (\<exists>r1. drains_to send sid r (in_flight r) st r1 \<and> rl_from r1 = Waiting)"
    using drains_refl [OF assms] drain_writing [OF assms] drain_checking [OF assms]
    by (cases "rl_from r") (force simp: in_flight_def)+
  then show ?thesis
  proof
    assume "in_flight r = [] \<and> rl_from r = Taking"
    with drain_taking [OF assms] show ?thesis by simp
  next
    assume "\<exists>r1. drains_to send sid r (in_flight r) st r1 \<and> rl_from r1 = Waiting"
    then obtain r1 where r1: "drains_to send sid r (in_flight r) st r1" "rl_from r1 = Waiting" by blast
    then have "flowing sid st r1" by (simp add: drains_to_def)
    with drain_waiting r1(2) obtain r' st' where "drains_to send sid r1 (recv_buf st) st' r'"
        "rl_from r' = Waiting" "recv_buf st' = []" by blast
    with drains_trans [OF r1(1)] show ?thesis by blast
  qed
qed

section \<open>The relay carries the bytes of both sides\<close>

text \<open>C3: The relay carries the bytes of both sides, in every interleaving of its pumps, the client's
  reads and writes and the arriving frames. The segments of the peer may arrive in any order the
  window allows, with duplicates. What is written to the client is always a prefix of what the
  peer sent, and what is still in flight and in the stream is what comes next, up to the first
  segment that has not arrived; what was read from the client leaves through the encrypted link as
  packets that open to its bytes in order, numbered one after the other, and the rest is still to
  be sent. As long as the relay runs every arrival counts, and it runs until the client ends or a write fails; and
  polling the second pump alone then writes out everything there is.\<close>

theorem relay_transparent:
  assumes "segs_ok segs" and "link_carries env log l" and "stream_at m sid = Some st" and "\<not> closed st"
    and "out_of_order st = []" and "unat (next_recv_seq st) + length segs < 2 ^ 32"
    and "set js \<subseteq> {..<length segs}"
    and "\<forall>t < length js. {..<js ! t - max_out_of_order} \<subseteq> set (take t js)"
    and "arrivals events = map (seg_frame (st_client_id st) sid (next_recv_seq st) segs) js"
  shows "\<exists>r st' cs n k. relay_run (send_sealed env) sid events (relay_start m s l) = Some r \<and>
     stream_at (rl_mux r) sid = Some st' \<and>
     (\<not> rl_over r \<longrightarrow> length js \<le> n) \<and> (undisturbed events \<and> write_failure s = None \<longrightarrow> \<not> rl_over r) \<and>
     k \<notin> set (take n js) \<and> {..<k} \<subseteq> set (take n js) \<and>
     written (rl_conn r) @ in_flight r @ recv_buf st' = written s @ recv_buf st @ concat (take k segs) \<and>
     incoming s = concat cs @ unsent r @ incoming (rl_conn r) \<and>
     list_all2 (opens_to env) (packets (rl_out r)) (log @ frames_of (mux_client_id m) sid (next_send_seq st) cs) \<and>
     (flowing sid st' r \<longrightarrow>
       (\<exists>r' st''. drains_to (send_sealed env) sid r (in_flight r @ recv_buf st') st'' r' \<and> recv_buf st'' = []))"
proof -
  obtain r st' cs n k where c: "relay_run (send_sealed env) sid events (relay_start m s l) = Some r"
     "stream_at (rl_mux r) sid = Some st'"
     "\<not> rl_over r \<longrightarrow> length js \<le> n" "undisturbed events \<and> write_failure s = None \<longrightarrow> \<not> rl_over r"
     "k \<notin> set (take n js)" "{..<k} \<subseteq> set (take n js)"
     "written (rl_conn r) @ in_flight r @ recv_buf st' = written s @ recv_buf st @ concat (take k segs)"
     "incoming s = concat cs @ unsent r @ incoming (rl_conn r)"
     "link_carries env (log @ frames_of (mux_client_id m) sid (next_send_seq st) cs) (rl_out r)"
    using sealed.relay_conserves [OF assms, of s] by blast
  from c(9) have "list_all2 (opens_to env) (packets (rl_out r)) (log @ frames_of (mux_client_id m) sid (next_send_seq st) cs)"
    by (simp add: link_carries_def)
  with c relay_drains [of sid st' r "send_sealed env"] show ?thesis by blast
qed

text \<open>Two segments of the peer that arrive swapped, around a read from the client of three bytes; the
  client has taken one of the two bytes when the run ends.\<close>

definition sample_relay_events :: "relay_event list" where
  "sample_relay_events =
     [FrameArrives (seg_frame 1 5 0 [[104], [105]] 1), PollFromMux, ClientGives 3,
      PollToMux, FrameArrives (seg_frame 1 5 0 [[104], [105]] 0), PollFromMux, PollToMux,
      PollFromMux, FrameArrives (seg_frame 1 5 0 [[104], [105]] 1), ClientTakes 1]"

theorem relay_transparent_witness:
  "\<exists>r st' cs. relay_run (send_sealed sample_link_env) 5 sample_relay_events
       (relay_start (put_stream 5 (new_stream 1 0) (mux_new 9)) (sample_conn\<lparr>incoming := [71, 69, 84]\<rparr>) sample_link) = Some r \<and>
     \<not> rl_over r \<and> stream_at (rl_mux r) 5 = Some st' \<and>
     written (rl_conn r) @ in_flight r @ recv_buf st' = [104, 105] \<and>
     [71, 69, 84] = concat cs @ unsent r @ incoming (rl_conn r) \<and>
     list_all2 (opens_to sample_link_env) (packets (rl_out r)) (frames_of 9 5 0 cs)"
proof -
  let ?m = "put_stream 5 (new_stream 1 0) (mux_new 9)" and ?segs = "[[104 :: byte], [105]]"
  let ?s = "sample_conn\<lparr>incoming := [71, 69, 84]\<rparr>"
  have at: "stream_at ?m 5 = Some (new_stream 1 0)" by simp
  have ok: "segs_ok ?segs" by (simp add: segs_ok_def chunk_size_def)
  have link: "link_carries sample_link_env [] sample_link"
    by (simp add: link_carries_def sample_link_works packets_def sample_link_def new_peer_def)
  have order: "set [1, 0, 1] \<subseteq> {..<length ?segs}" by auto
  have window: "\<forall>t < length [1 :: nat, 0, 1]. {..<[1, 0, 1] ! t - max_out_of_order} \<subseteq> set (take t [1, 0, 1])"
    by (auto simp: max_out_of_order_def less_Suc_eq)
  have frames: "arrivals sample_relay_events =
      map (seg_frame (st_client_id (new_stream 1 0)) 5 (next_recv_seq (new_stream 1 0)) ?segs) [1, 0, 1]"
    by (simp add: sample_relay_events_def)
  have calm: "undisturbed sample_relay_events \<and> write_failure ?s = None"
    by (auto simp: undisturbed_def sample_relay_events_def sample_conn_def)
  have new: "\<not> closed (new_stream 1 0)" "out_of_order (new_stream 1 0) = []"
    "unat (next_recv_seq (new_stream 1 0)) + length ?segs < 2 ^ 32" by simp_all
  obtain r st' cs n k where raw: "relay_run (send_sealed sample_link_env) 5 sample_relay_events (relay_start ?m ?s sample_link) = Some r"
      "stream_at (rl_mux r) 5 = Some st'"
      "\<not> rl_over r \<longrightarrow> length [1 :: nat, 0, 1] \<le> n" "undisturbed sample_relay_events \<and> write_failure ?s = None \<longrightarrow> \<not> rl_over r"
      "k \<notin> set (take n [1, 0, 1])" "{..<k} \<subseteq> set (take n [1, 0, 1])"
      "written (rl_conn r) @ in_flight r @ recv_buf st' = written ?s @ recv_buf (new_stream 1 0) @ concat (take k ?segs)"
      "incoming ?s = concat cs @ unsent r @ incoming (rl_conn r)"
      "list_all2 (opens_to sample_link_env) (packets (rl_out r))
        ([] @ frames_of (mux_client_id ?m) 5 (next_send_seq (new_stream 1 0)) cs)"
    using relay_transparent [OF ok link at new order window frames, of ?s]
    by (elim exE conjE) (rule that)
  have id: "mux_client_id ?m = 9" by (simp add: mux_new_def)
  have c: "\<not> rl_over r" "3 \<le> n"
      "written (rl_conn r) @ in_flight r @ recv_buf st' = concat (take k ?segs)"
      "[71, 69, 84] = concat cs @ unsent r @ incoming (rl_conn r)"
      "list_all2 (opens_to sample_link_env) (packets (rl_out r)) (frames_of 9 5 0 cs)"
    using raw(3,4,7-9) calm unfolding id by (simp_all add: sample_conn_def)
  have all: "take n [1 :: nat, 0, 1] = [1, 0, 1]" using c(2) by simp
  have "k = 2"
  proof (rule ccontr)
    assume "k \<noteq> 2"
    moreover have "k \<noteq> 1" "k \<noteq> 0" using raw(5) all by auto
    ultimately have "2 \<in> {..<k}" by simp
    then have "(2 :: nat) \<in> {1, 0}" using raw(6) all by auto
    then show False by simp
  qed
  with raw(1,2) c show ?thesis
    by (intro exI [of _ r] exI [of _ st'] exI [of _ cs]) simp
qed

section \<open>A pump alone\<close>

text \<open>Polled alone, the first pump does what \<open>send_data\<close> does with what it read, and ends with it on an error.\<close>

lemma pump_sends_chunks:
  assumes "rl_to r = Sending cs" and "send_chunks send sid cs (rl_mux r) (rl_out r) = (res, m, p)"
  shows "\<exists>k. (pump_to_mux send sid ^^ k) r =
     r\<lparr>rl_to := Reading, rl_mux := m, rl_out := p, rl_over := (rl_over r \<or> isl res)\<rparr>"
  using assms
proof (induction cs arbitrary: r)
  case Nil
  then show ?case by (intro exI [of _ 1]) (auto simp: pump_to_mux_def)
next
  case (Cons c cs)
  show ?case
  proof (cases "stream_at (rl_mux r) sid")
    case None
    with Cons.prems show ?thesis by (intro exI [of _ 1]) (auto simp: pump_to_mux_def)
  next
    case (Some st)
    show ?thesis
    proof (cases "closed st")
      case True
      with Some Cons.prems show ?thesis by (intro exI [of _ 1]) (auto simp: pump_to_mux_def)
    next
      case False
      let ?f = "data_frame (mux_client_id (rl_mux r)) sid (next_send_seq st) c"
      let ?m = "put_stream sid (st\<lparr>next_send_seq := next_send_seq st + 1\<rparr>) (rl_mux r)"
      let ?r1 = "r\<lparr>rl_to := Handing ?f cs, rl_mux := ?m\<rparr>"
      have first: "pump_to_mux send sid r = ?r1"
        using Cons.prems(1) Some False by (simp add: pump_to_mux_def)
      obtain q p1 where q: "send ?f (rl_out r) = (q, p1)" by fastforce
      show ?thesis
      proof (cases q)
        case (Inl e)
        then have "pump_to_mux send sid ?r1 = r\<lparr>rl_to := Reading, rl_mux := ?m, rl_out := p1, rl_over := True\<rparr>"
          using q by (simp add: pump_to_mux_def)
        moreover have "res = Inl e" "m = ?m" "p = p1"
          using Cons.prems(2) Some False q Inl by (simp_all add: Let_def)
        ultimately show ?thesis using first by (intro exI [of _ "Suc (Suc 0)"]) simp
      next
        case (Inr u)
        let ?r2 = "?r1\<lparr>rl_to := Sending cs, rl_out := p1\<rparr>"
        have second: "pump_to_mux send sid ?r1 = ?r2" using q Inr by (simp add: pump_to_mux_def)
        have "send_chunks send sid cs (rl_mux ?r2) (rl_out ?r2) = (res, m, p)"
          using Cons.prems(2) Some False q Inr by (simp add: Let_def)
        from Cons.IH [OF _ this] obtain k where "(pump_to_mux send sid ^^ k) ?r2 =
            ?r2\<lparr>rl_to := Reading, rl_mux := m, rl_out := p, rl_over := (rl_over ?r2 \<or> isl res)\<rparr>" by auto
        moreover have "(pump_to_mux send sid ^^ Suc (Suc k)) r = (pump_to_mux send sid ^^ k) ?r2"
          by (simp only: funpow_Suc_right comp_apply first second)
        ultimately show ?thesis by (intro exI [of _ "Suc (Suc k)"]) simp
      qed
    qed
  qed
qed

section \<open>What is lost when the relay ends\<close>

lemma relay_run_over: "rl_over r \<Longrightarrow> relay_run send sid events r = Some r"
  by (cases events) simp_all

text \<open>The client's end of file ends the relay where it stands.\<close>

lemma relay_run_ends:
  assumes "relay_run send sid before r0 = Some r" and "\<not> rl_over r" and "rl_to r = Reading"
  shows "relay_run send sid (before @ ClientEnds # after) r0 = Some (r\<lparr>rl_over := True\<rparr>)"
  using assms by (simp add: relay_run_append relay_step_def client_ends_def relay_run_over)

text \<open>C39: A client that closes its sending side cuts off its answer. In every interleaving of the pumps and
  the arriving frames, in which the client has not ended before and takes what is written: when the pump from the
  client, idle, reads the end of the client's data, everything read from the client has gone out through the
  link, and the relay ends. What was written to the client until then is all it ever gets, whatever
  happens afterwards: what the other pump holds, what is buffered in the stream and every segment that
  still has to arrive is lost.\<close>

theorem half_close_drops_answer:
  assumes "segs_ok segs" and "link_carries env log l" and "stream_at m sid = Some st" and "\<not> closed st"
    and "out_of_order st = []" and "unat (next_recv_seq st) + length segs < 2 ^ 32"
    and "set js \<subseteq> {..<length segs}"
    and "\<forall>t < length js. {..<js ! t - max_out_of_order} \<subseteq> set (take t js)"
    and "arrivals before = map (seg_frame (st_client_id st) sid (next_recv_seq st) segs) js"
    and "undisturbed before" and "write_failure s = None"
  shows "\<exists>r st' cs k. relay_run (send_sealed env) sid before (relay_start m s l) = Some r \<and>
     stream_at (rl_mux r) sid = Some st' \<and> k \<notin> set js \<and> {..<k} \<subseteq> set js \<and>
     written (rl_conn r) @ in_flight r @ recv_buf st' = written s @ recv_buf st @ concat (take k segs) \<and>
     (rl_to r = Reading \<longrightarrow>
       incoming s = concat cs @ incoming (rl_conn r) \<and>
       list_all2 (opens_to env) (packets (rl_out r)) (log @ frames_of (mux_client_id m) sid (next_send_seq st) cs) \<and>
       (\<forall>after. \<exists>r'. relay_run (send_sealed env) sid (before @ ClientEnds # after) (relay_start m s l) = Some r' \<and>
          rl_over r' \<and> written (rl_conn r') = written (rl_conn r) \<and> packets (rl_out r') = packets (rl_out r)))"
proof -
  obtain r st' cs n k where c: "relay_run (send_sealed env) sid before (relay_start m s l) = Some r"
     "stream_at (rl_mux r) sid = Some st'"
     "\<not> rl_over r \<longrightarrow> length js \<le> n" "undisturbed before \<and> write_failure s = None \<longrightarrow> \<not> rl_over r"
     "k \<notin> set (take n js)" "{..<k} \<subseteq> set (take n js)"
     "written (rl_conn r) @ in_flight r @ recv_buf st' = written s @ recv_buf st @ concat (take k segs)"
     "incoming s = concat cs @ unsent r @ incoming (rl_conn r)"
     "link_carries env (log @ frames_of (mux_client_id m) sid (next_send_seq st) cs) (rl_out r)"
    using sealed.relay_conserves [OF assms(1-9), of s] by blast
  have going: "\<not> rl_over r" using c(4) assms(10,11) by blast
  then have all: "take n js = js" using c(3) by simp
  have "incoming s = concat cs @ incoming (rl_conn r) \<and>
       list_all2 (opens_to env) (packets (rl_out r)) (log @ frames_of (mux_client_id m) sid (next_send_seq st) cs) \<and>
       (\<forall>after. \<exists>r'. relay_run (send_sealed env) sid (before @ ClientEnds # after) (relay_start m s l) = Some r' \<and>
          rl_over r' \<and> written (rl_conn r') = written (rl_conn r) \<and> packets (rl_out r') = packets (rl_out r))"
    if "rl_to r = Reading"
    using c(8,9) relay_run_ends [OF c(1) going that] by (simp add: that unsent_def link_carries_def)
  with c(1,2,5-7) all show ?thesis by metis
qed

text \<open>The whole answer has arrived and lies in the stream when the client ends; it is never written.\<close>

theorem half_close_drops_answer_witness:
  "\<exists>r. relay_run (send_sealed sample_link_env) 5
       ([FrameArrives (seg_frame 1 5 0 [[104]] 0), PollFromMux] @ ClientEnds # [PollFromMux, PollFromMux, ClientTakes 1])
       (relay_start (put_stream 5 (new_stream 1 0) (mux_new 9)) sample_conn sample_link) = Some r \<and>
     rl_over r \<and> written (rl_conn r) = []"
proof -
  let ?m = "put_stream 5 (new_stream 1 0) (mux_new 9)" and ?segs = "[[104 :: byte]]"
  let ?before = "[FrameArrives (seg_frame 1 5 0 [[104]] 0), PollFromMux]"
  have at: "stream_at ?m 5 = Some (new_stream 1 0)" by simp
  have ok: "segs_ok ?segs" by (simp add: segs_ok_def chunk_size_def)
  have link: "link_carries sample_link_env [] sample_link"
    by (simp add: link_carries_def sample_link_works packets_def sample_link_def new_peer_def)
  have new: "\<not> closed (new_stream 1 0)" "out_of_order (new_stream 1 0) = []"
    "unat (next_recv_seq (new_stream 1 0)) + length ?segs < 2 ^ 32" "set [0 :: nat] \<subseteq> {..<length ?segs}"
    "\<forall>t < length [0 :: nat]. {..<[0] ! t - max_out_of_order} \<subseteq> set (take t [0])"
    "arrivals ?before = map (seg_frame (st_client_id (new_stream 1 0)) 5 (next_recv_seq (new_stream 1 0)) ?segs) [0]"
    "undisturbed ?before" "write_failure sample_conn = None"
    by (simp_all add: undisturbed_def sample_conn_def)
  obtain r where r:
    "relay_run (send_sealed sample_link_env) 5 ?before (relay_start ?m sample_conn sample_link) = Some r"
    "rl_to r = Reading \<longrightarrow> (\<forall>after. \<exists>r'. relay_run (send_sealed sample_link_env) 5
       (?before @ ClientEnds # after) (relay_start ?m sample_conn sample_link) = Some r' \<and>
       rl_over r' \<and> written (rl_conn r') = written (rl_conn r))"
    using half_close_drops_answer [OF ok link at new] by blast
  from r(1) have "rl_to r = Reading" "rl_conn r = sample_conn"
    by (auto simp: relay_step_def relay_start_def pump_from_mux_def bind_eq_Some_conv Let_def split: prod.splits if_splits)
  with r(2) obtain r' where "relay_run (send_sealed sample_link_env) 5
       (?before @ ClientEnds # [PollFromMux, PollFromMux, ClientTakes 1]) (relay_start ?m sample_conn sample_link) = Some r'"
       "rl_over r'" "written (rl_conn r') = written sample_conn" by metis
  then show ?thesis by (intro exI [of _ r'] conjI) (simp_all only: sample_conn_def conn.simps)
qed

text \<open>The tail of a closing stream is lost: when the last bytes read have been written and, before the
  pump asks whether the stream is closed, a last data frame and the close frame arrive, the relay
  ends with the last data in the buffer.\<close>

theorem pump_loses_tail:
  assumes "rl_from r = Writing data" and "flowing sid st r" and "recv_buf st = []" and "st_client_id st = c"
    and "out_of_order st = []" and "0 < length tail" and "length tail \<le> chunk_size" and "data \<noteq> []"
  shows "\<exists>r' st'. relay_run send sid [ClientTakes (length data), FrameArrives (data_frame c sid (next_recv_seq st) tail),
         FrameArrives (close_frame c sid), PollFromMux] r = Some r' \<and>
     rl_over r' \<and> written (rl_conn r') = written (rl_conn r) @ data \<and>
     stream_at (rl_mux r') sid = Some st' \<and> recv_buf st' = tail"
proof -
  let ?m1 = "receive_data c sid (next_recv_seq st) tail (rl_mux r)"
  let ?st = "st\<lparr>recv_buf := tail, next_recv_seq := next_recv_seq st + 1\<rparr>"
  note flow = assms(2) [unfolded flowing_def]
  have frame: "handle_frame (data_frame c sid (next_recv_seq st) tail) (rl_mux r) = Some ?m1"
    using assms(6,7) by (rule handle_data_frame)
  have close: "handle_frame (close_frame c sid) x = Some (mark_closed sid c x)" for x
    using handle_frame_header [of c sid 0 0 "[]" x] by (simp add: close_frame_def)
  have "stream_at ?m1 sid = Some ?st"
    using flow assms(3-5) receive_data_stream [of "rl_mux r" sid st c "next_recv_seq st" tail sid]
    by (simp add: accept_segment_def drain.simps)
  then have "stream_at (mark_closed sid c ?m1) sid = Some (?st\<lparr>closed := True\<rparr>)"
    using assms(4) by (simp add: mark_closed_def)
  then show ?thesis
    using flow assms(1,8) by (simp add: relay_step_def client_takes_def write_all_def frame close
        pump_from_mux_def stream_closed_def)
qed

theorem pump_loses_tail_witness:
  "\<exists>r' st'. relay_run record_send 5 [ClientTakes 1, FrameArrives (data_frame 1 5 0 [105]), FrameArrives (close_frame 1 5), PollFromMux]
       ((relay_start (put_stream 5 (new_stream 1 0) (mux_new 9)) sample_conn [])\<lparr>rl_from := Writing [104]\<rparr>) = Some r' \<and>
     written (rl_conn r') = [104] \<and> stream_at (rl_mux r') 5 = Some st' \<and> recv_buf st' = [105]"
proof -
  let ?r = "(relay_start (put_stream 5 (new_stream 1 0) (mux_new 9)) sample_conn [])\<lparr>rl_from := Writing [104]\<rparr>"
  have "flowing 5 (new_stream 1 0) ?r" by (simp add: flowing_def relay_start_def sample_conn_def)
  from pump_loses_tail [OF _ this _ _ _ _ _, of "[104]" 1 "[105]" record_send] show ?thesis
    by (auto simp: chunk_size_def relay_start_def sample_conn_def)
qed

end
