(* ===== verification/Olc_Runtime.thy ===== *)
theory Olc_Runtime
  imports Relay_Props
begin

text \<open>
  \<open>OlcRtcRuntime\<close> of \<open>src/olcrtc/client.rs\<close>: what a start hands to the engine, and what becomes of
  the accept loop, the room and the running tunnels when the engine stops it, and when it only goes
  out of scope.
\<close>

section \<open>The runtime\<close>

text \<open>
  \<open>rt_events\<close> is what the accept loop has seen; the link is shared with the tunnels, through the
  send callback of the multiplexer.
\<close>

record runtime =
  rt_events :: "accept_event list"
  rt_aborted :: bool
  rt_link :: link

definition new_runtime :: "link \<Rightarrow> runtime" where
  "new_runtime l = \<lparr>rt_events = [], rt_aborted = False, rt_link = l\<rparr>"

text \<open>What the accept loop sees; an aborted task sees nothing.\<close>

definition loop_sees :: "accept_event \<Rightarrow> runtime \<Rightarrow> runtime" where
  "loop_sees event rt = (if rt_aborted rt then rt else rt\<lparr>rt_events := rt_events rt @ [event]\<rparr>)"

definition runtime_connections :: "runtime \<Rightarrow> nat list" where
  "runtime_connections rt = fst (accept_loop (rt_events rt))"

definition loop_over :: "runtime \<Rightarrow> bool" where
  "loop_over rt \<longleftrightarrow> rt_aborted rt \<or> snd (accept_loop (rt_events rt))"

definition close_link :: "link \<Rightarrow> link" where
  "close_link l = l\<lparr>link_peer := peer_close (link_peer l)\<rparr>"

text \<open>
  \<open>stop\<close> sets the flag, aborts the task and closes the peer. \<open>late\<close> is what the loop still sees before
  the abort takes effect: the flag, or connections that were ready in the poll under way.
\<close>

definition runtime_stop :: "accept_event list \<Rightarrow> runtime \<Rightarrow> runtime" where
  "runtime_stop late rt =
     (let rt1 = fold loop_sees late rt
      in rt1\<lparr>rt_aborted := True, rt_link := close_link (rt_link rt1)\<rparr>)"

text \<open>
  Going out of scope drops the sender, so the loop comes to see a closed channel; the task handle is only
  detached, and the clones of the peer keep the room.
\<close>

definition runtime_drop :: "accept_event list \<Rightarrow> runtime \<Rightarrow> runtime" where
  "runtime_drop late rt = loop_sees (ShutdownChanged True False) (fold loop_sees late rt)"

lemma sees_link [simp]: "rt_link (loop_sees event rt) = rt_link rt"
  by (simp add: loop_sees_def)

lemma late_link [simp]: "rt_link (fold loop_sees late rt) = rt_link rt"
  by (induction late arbitrary: rt) simp_all

section \<open>The accept loop\<close>

lemma accept_loop_append:
  "accept_loop (xs @ ys) =
     (let (cs, over) = accept_loop xs
      in if over then (cs, True) else (cs @ fst (accept_loop ys), snd (accept_loop ys)))"
  by (induction xs rule: accept_loop.induct) (auto simp: Let_def split: prod.splits)

lemma loop_over_stays:
  assumes "loop_over rt"
  shows "loop_over (loop_sees event rt) \<and> runtime_connections (loop_sees event rt) = runtime_connections rt"
  using assms by (auto simp: loop_over_def loop_sees_def runtime_connections_def accept_loop_append split: prod.splits)

lemma loop_over_later:
  "loop_over rt \<Longrightarrow> runtime_connections (fold loop_sees events rt) = runtime_connections rt"
proof (induction events arbitrary: rt)
  case (Cons event events)
  from loop_over_stays [OF Cons.prems] Cons.IH [of "loop_sees event rt"] show ?case by simp
qed simp

lemma stop_loop: "loop_over (runtime_stop late rt)"
  by (simp add: loop_over_def runtime_stop_def Let_def)

lemma drop_loop: "loop_over (runtime_drop late rt)"
  by (auto simp: loop_over_def runtime_drop_def loop_sees_def accept_loop_append split: prod.split)

lemma stop_connections: "runtime_connections (runtime_stop late rt) = runtime_connections (fold loop_sees late rt)"
  by (simp add: runtime_connections_def runtime_stop_def Let_def)

lemma drop_connections: "runtime_connections (runtime_drop late rt) = runtime_connections (fold loop_sees late rt)"
  by (auto simp: runtime_connections_def runtime_drop_def loop_sees_def accept_loop_append split: prod.split)

section \<open>A closed link\<close>

lemma publish_one_closed:
  "peer_closed (link_peer (publish_one env l)) = peer_closed (link_peer l) \<and>
   prefix (packets (publish_one env l)) (packets l) \<and>
   room_closes (link_peer (publish_one env l)) = room_closes (link_peer l)"
  by (auto simp: publish_one_def packets_def Let_def split: list.split)

lemma publish_closed:
  "peer_closed (link_peer ((publish_one env ^^ n) l)) = peer_closed (link_peer l) \<and>
   prefix (packets ((publish_one env ^^ n) l)) (packets l) \<and>
   room_closes (link_peer ((publish_one env ^^ n) l)) = room_closes (link_peer l)"
proof (induction n)
  case (Suc n)
  with publish_one_closed [of env "(publish_one env ^^ n) l"] show ?case
    by (auto intro: prefix_order.trans)
qed simp

text \<open>Sending on a closed link fails and adds no packet.\<close>

lemma send_closed:
  assumes "peer_closed (link_peer l)"
  shows "\<exists>e l'. send_sealed env frame l = (Inl e, l') \<and> peer_closed (link_peer l') \<and>
     prefix (packets l') (packets l) \<and> room_closes (link_peer l') = room_closes (link_peer l)"
proof -
  let ?l = "(publish_one env ^^ pace env (nonces_used l)) l"
  have "peer_closed (link_peer ?l)" using publish_closed assms by blast
  moreover have "packets (?l\<lparr>nonces_used := n\<rparr>) = packets ?l" for n by (simp add: packets_def)
  ultimately show ?thesis
    using publish_closed [where env = env and n = "pace env (nonces_used l)" and l = l]
    by (auto simp: send_sealed_def Let_def await_send.simps peer_send_def split: sum.split)
qed

lemma relay_step_closed:
  assumes "peer_closed (link_peer (rl_out r))" and "relay_step (send_sealed env) sid event r = Some r'"
  shows "peer_closed (link_peer (rl_out r')) \<and> prefix (packets (rl_out r')) (packets (rl_out r)) \<and>
    room_closes (link_peer (rl_out r')) = room_closes (link_peer (rl_out r))"
proof (cases "\<exists>frame rest. event = PollToMux \<and> rl_to r = Handing frame rest")
  case True
  then obtain frame rest where h: "event = PollToMux" "rl_to r = Handing frame rest" by blast
  from send_closed [OF assms(1), of env frame] h assms(2) show ?thesis
    by (auto simp: relay_step_def pump_to_mux_def)
next
  case False
  with assms(2) have "rl_out r' = rl_out r"
    by (cases event)
      (auto simp: relay_step_def pump_to_mux_def pump_from_mux_def client_gives_def client_ends_def
        client_takes_def client_gone_def Let_def split: to_mux.splits from_mux.splits list.splits option.splits
        prod.splits sum.splits if_splits)
  with assms(1) show ?thesis by simp
qed

lemma relay_run_closed:
  assumes "peer_closed (link_peer (rl_out r))" and "relay_run (send_sealed env) sid events r = Some r'"
  shows "prefix (packets (rl_out r')) (packets (rl_out r)) \<and>
    room_closes (link_peer (rl_out r')) = room_closes (link_peer (rl_out r))"
  using assms
proof (induction events arbitrary: r)
  case (Cons event events)
  show ?case
  proof (cases "rl_over r")
    case False
    with Cons.prems(2) obtain r1 where r1: "relay_step (send_sealed env) sid event r = Some r1"
        "relay_run (send_sealed env) sid events r1 = Some r'"
      by (auto simp: bind_eq_Some_conv)
    from relay_step_closed [OF Cons.prems(1) r1(1)] Cons.IH [OF _ r1(2)] show ?thesis
      by (auto intro: prefix_order.trans)
  qed (use Cons.prems in auto)
qed simp

section \<open>Stopping and dropping\<close>

text \<open>C25: A stopped runtime is sealed off. No connection is accepted once the abort has taken effect, and the
  room is closed exactly once, also when it is stopped again. A tunnel on the link gets no packet
  out: in whatever way it goes on, what leaves the link is at most what was queued before, and the
  first frame it hands over ends it. A runtime that only goes out of scope stops accepting too, but
  its link, and with it the room, stays as it is.\<close>

theorem runtime_stop_seals:
  assumes "\<not> peer_closed (link_peer (rt_link rt))" and "room_closes (link_peer (rt_link rt)) = 0"
  shows "runtime_connections (fold loop_sees events (runtime_stop late rt)) = runtime_connections (fold loop_sees late rt) \<and>
     room_closes (link_peer (rt_link (runtime_stop late rt))) = 1 \<and>
     rt_link (runtime_stop later (runtime_stop late rt)) = rt_link (runtime_stop late rt) \<and>
     (\<forall>r polls r'. rl_out r = rt_link (runtime_stop late rt) \<longrightarrow>
        relay_run (send_sealed env) sid polls r = Some r' \<longrightarrow>
        prefix (packets (rl_out r')) (packets (rt_link rt)) \<and> room_closes (link_peer (rl_out r')) = 1) \<and>
     (\<forall>r frame rest. rl_out r = rt_link (runtime_stop late rt) \<and> rl_to r = Handing frame rest \<longrightarrow>
        rl_over (pump_to_mux (send_sealed env) sid r)) \<and>
     runtime_connections (fold loop_sees events (runtime_drop late rt)) = runtime_connections (fold loop_sees late rt) \<and>
     rt_link (runtime_drop late rt) = rt_link rt"
proof -
  let ?l = "rt_link (runtime_stop late rt)"
  have l: "?l = close_link (rt_link rt)" by (simp add: runtime_stop_def Let_def)
  have closed: "peer_closed (link_peer ?l)" "room_closes (link_peer ?l) = 1" "packets ?l = packets (rt_link rt)"
    using assms by (simp_all add: l close_link_def peer_close_def packets_def)
  have again: "rt_link (runtime_stop later (runtime_stop late rt)) = ?l"
    using closed(1) by (simp add: runtime_stop_def [of later] Let_def close_link_def peer_close_def)
  have ends: "rl_over (pump_to_mux (send_sealed env) sid r)"
    if "rl_out r = ?l" "rl_to r = Handing frame rest" for r frame rest
    using that send_closed [OF closed(1), of env frame] by (auto simp: pump_to_mux_def)
  have quiet: "prefix (packets (rl_out r')) (packets (rt_link rt)) \<and> room_closes (link_peer (rl_out r')) = 1"
    if "rl_out r = ?l" "relay_run (send_sealed env) sid polls r = Some r'" for r polls r'
    using relay_run_closed [of r env sid polls r'] that closed by simp
  show ?thesis
    using loop_over_later [OF stop_loop] loop_over_later [OF drop_loop] stop_connections drop_connections
      closed(2) again quiet ends by (simp add: runtime_drop_def)
qed

text \<open>One connection is accepted before the stop, one while the abort is under way, one never.\<close>

theorem runtime_stop_seals_witness:
  "runtime_connections (fold loop_sees [Accepted 3]
       (runtime_stop [Accepted 2, ShutdownChanged False True] (loop_sees (Accepted 1) (new_runtime sample_link)))) = [1, 2] \<and>
   room_closes (link_peer (rt_link
       (runtime_stop [Accepted 2, ShutdownChanged False True] (loop_sees (Accepted 1) (new_runtime sample_link))))) = 1"
  using runtime_stop_seals [of "loop_sees (Accepted 1) (new_runtime sample_link)" "[Accepted 3]"
      "[Accepted 2, ShutdownChanged False True]", where later = "[]" and env = sample_link_env and sid = 5]
  by (simp add: new_runtime_def loop_sees_def sample_link_def new_peer_def runtime_connections_def)

text \<open>A runtime that goes out of scope leaves its tunnels running: what they read still leaves.\<close>

theorem dropped_runtime_relays:
  assumes "link_carries env log (rt_link rt)"
  shows "link_carries env log (rt_link (runtime_drop late rt)) \<and>
     room_closes (link_peer (rt_link (runtime_drop late rt))) = room_closes (link_peer (rt_link rt)) \<and>
     (\<exists>l'. send_sealed env frame (rt_link (runtime_drop late rt)) = (Inr (), l') \<and> link_carries env (log @ [frame]) l')"
proof -
  have "rt_link (runtime_drop late rt) = rt_link rt" by (simp add: runtime_drop_def)
  with assms send_sealed_carries show ?thesis by simp
qed

theorem dropped_runtime_relays_witness:
  "\<exists>l'. send_sealed sample_link_env [1] (rt_link (runtime_drop [] (new_runtime sample_link))) = (Inr (), l')"
proof -
  have "link_carries sample_link_env [] (rt_link (new_runtime sample_link))"
    by (simp add: link_carries_def sample_link_works packets_def sample_link_def new_peer_def new_runtime_def)
  from dropped_runtime_relays [OF this] show ?thesis by blast
qed

end
