(* ===== verification/Engine_Rooms.thy ===== *)
theory Engine_Rooms
  imports Olc_Runtime Engine_Props
begin

text \<open>
  The engine and the OLC RTC runtimes it starts, together: what the trace of the engine means for the
  accept loops and the rooms of \<open>Olc_Runtime\<close>. Which rooms are still open, and what a stop that
  timed out does to later starts.
\<close>

section \<open>The runtimes behind a trace\<close>

definition fresh_link :: link where
  "fresh_link = \<lparr>nonces_used = 0, link_peer = new_peer, published = []\<rparr>"

text \<open>Every runtime, by the number the engine knows it by.\<close>

definition runtime_effect :: "engine_effect \<Rightarrow> (nat \<Rightarrow> runtime option) \<Rightarrow> nat \<Rightarrow> runtime option" where
  "runtime_effect x reg =
     (case x of
        RuntimeStarted h \<Rightarrow> reg(h \<mapsto> new_runtime fresh_link)
      | RuntimeStopped h \<Rightarrow> reg(h := map_option (runtime_stop []) (reg h))
      | RuntimeDropped h \<Rightarrow> reg(h := map_option (runtime_drop []) (reg h))
      | _ \<Rightarrow> reg)"

definition runtimes_after :: "engine_effect list \<Rightarrow> nat \<Rightarrow> runtime option" where
  "runtimes_after es = fold runtime_effect es (\<lambda>h. None)"

definition accepting :: "runtime option \<Rightarrow> bool" where
  "accepting rt \<longleftrightarrow> (case rt of None \<Rightarrow> False | Some r \<Rightarrow> \<not> loop_over r)"

definition room_open :: "runtime option \<Rightarrow> bool" where
  "room_open rt \<longleftrightarrow> (case rt of None \<Rightarrow> False | Some r \<Rightarrow> \<not> peer_closed (link_peer (rt_link r)))"

lemma runtimes_after_snoc [simp]: "runtimes_after (es @ [x]) = runtime_effect x (runtimes_after es)"
  by (simp add: runtimes_after_def)

lemma stop_link: "rt_link (runtime_stop late r) = close_link (rt_link r)"
  by (simp add: runtime_stop_def Let_def)

lemma drop_link: "rt_link (runtime_drop late r) = rt_link r"
  by (simp add: runtime_drop_def)

lemma closed_link: "peer_closed (link_peer (close_link l))"
  by (simp add: close_link_def peer_close_def)

lemma accepting_simps [simp]:
  "accepting None = False" "accepting (Some r) = (\<not> loop_over r)"
  by (simp_all add: accepting_def)

lemma room_open_simps [simp]:
  "room_open None = False" "room_open (Some r) = (\<not> peer_closed (link_peer (rt_link r)))"
  by (simp_all add: room_open_def)

lemma runtime_states [simp]:
  "accepting (map_option (runtime_stop late) rt) = False" "room_open (map_option (runtime_stop late) rt) = False"
  "accepting (map_option (runtime_drop late) rt) = False" "room_open (map_option (runtime_drop late) rt) = room_open rt"
  by (cases rt; simp add: stop_loop drop_loop stop_link drop_link closed_link)+

lemma new_runtime_state [simp]:
  "loop_over (new_runtime fresh_link) = False" "peer_closed (link_peer (rt_link (new_runtime fresh_link))) = False"
  by (simp_all add: loop_over_def new_runtime_def fresh_link_def new_peer_def)

section \<open>Every room is accounted for\<close>

text \<open>
  The runtimes of an engine, given one that only a local variable holds: every number was given out
  once, the accepting runtimes are the held ones, and open rooms are held or leaked.
\<close>

definition rooms_ok :: "nat option \<Rightarrow> engine \<Rightarrow> bool" where
  "rooms_ok rt e \<longleftrightarrow>
     dom (runtimes_after (effects e)) = set_mset (runtimes_started (effects e)) \<and>
     (\<forall>h. accepting (runtimes_after (effects e) h) \<longleftrightarrow> olcrtc e = Some h \<or> rt = Some h) \<and>
     (\<forall>h. room_open (runtimes_after (effects e) h) \<longleftrightarrow>
        olcrtc e = Some h \<or> rt = Some h \<or> h \<in># runtimes_leaked (effects e)) \<and>
     (\<forall>h. olcrtc e = Some h \<or> rt = Some h \<longrightarrow> h \<notin># runtimes_leaked (effects e)) \<and>
     (rt = None \<or> rt \<noteq> olcrtc e)"

lemma rooms_ok_same:
  "effects e' = effects e \<Longrightarrow> olcrtc e' = olcrtc e \<Longrightarrow> rooms_ok rt e' = rooms_ok rt e"
  by (simp add: rooms_ok_def)

lemma rooms_quiet:
  assumes "\<And>h. x \<noteq> RuntimeStarted h \<and> x \<noteq> RuntimeStopped h \<and> x \<noteq> RuntimeDropped h"
  shows "rooms_ok rt (effect x e) = rooms_ok rt e"
proof -
  have "runtime_effect x reg = reg" for reg using assms by (cases x) (auto simp: runtime_effect_def)
  moreover have "runtimes_started [x] = {#}" "runtimes_leaked [x] = {#}"
    using assms by (cases x; simp)+
  ultimately show ?thesis by (simp add: rooms_ok_def del: account_Cons)
qed

lemma rooms_flags [simp]:
  "rooms_ok rt (e\<lparr>windows_job := b\<rparr>) = rooms_ok rt e"
  "rooms_ok rt (e\<lparr>macos_system_connected := b\<rparr>) = rooms_ok rt e"
  "rooms_ok rt (e\<lparr>privileged_pid := x\<rparr>) = rooms_ok rt e"
  "rooms_ok rt (e\<lparr>child := c\<rparr>) = rooms_ok rt e"
  "rooms_ok rt (start_stats_polling e) = rooms_ok rt e"
  "rooms_ok rt (stop_stats_polling e) = rooms_ok rt e"
  by (rule rooms_ok_same; simp add: start_stats_polling_def stop_stats_polling_def)+

lemma rooms_effects [simp]:
  "rooms_ok rt (effect TunnelStarted e) = rooms_ok rt e"
  "rooms_ok rt (effect TunnelStopped e) = rooms_ok rt e"
  "rooms_ok rt (effect (ConfigWritten m) e) = rooms_ok rt e"
  "rooms_ok rt (effect (PrivilegedStopped pid) e) = rooms_ok rt e"
  "rooms_ok rt (effect (ProcessSpawned n) e) = rooms_ok rt e"
  "rooms_ok rt (effect (ProcessEnded n) e) = rooms_ok rt e"
  "rooms_ok rt (drop_child n e) = rooms_ok rt e"
  "rooms_ok rt (log_line m e) = rooms_ok rt e"
  unfolding drop_child_def log_line_def by (rule rooms_quiet; simp)+

lemma rooms_reap [simp]: "rooms_ok rt (reap_child n e) = rooms_ok rt e"
  by (simp add: reap_child_def)

lemma rooms_attach [simp]: "rooms_ok rt (attach_windows_job os a e) = rooms_ok rt e"
  by (simp add: attach_windows_job_def split: sum.split)

lemma rooms_start:
  assumes "rooms_ok None e" and "h \<notin># runtimes_started (effects e)"
  shows "rooms_ok (Some h) (effect (RuntimeStarted h) e)"
proof -
  have "runtimes_after (effects e) h = None" using assms by (auto simp: rooms_ok_def domIff)
  with assms(1) have "olcrtc e \<noteq> Some h" "h \<notin># runtimes_leaked (effects e)"
    unfolding rooms_ok_def by (metis accepting_simps(1) room_open_simps(1))+
  with assms(1) show ?thesis by (auto simp: rooms_ok_def runtime_effect_def)
qed

lemma rooms_present:
  assumes "rooms_ok rt e" and "olcrtc e = Some h \<or> rt = Some h"
  shows "\<exists>r. runtimes_after (effects e) h = Some r"
proof -
  have "accepting (runtimes_after (effects e) h)" using assms unfolding rooms_ok_def by blast
  then show ?thesis by (cases "runtimes_after (effects e) h") simp_all
qed

lemma rooms_drop [simp]: "rooms_ok rt e \<Longrightarrow> rooms_ok None (drop_runtime rt e)"
  using rooms_present [of rt e "the rt"]
  by (cases rt) (auto simp: rooms_ok_def drop_runtime_def runtime_effect_def domIff)

lemma rooms_stop [simp]: "rooms_ok rt e \<Longrightarrow> rooms_ok None (stop_runtime rt e)"
  using rooms_present [of rt e "the rt"]
  by (cases rt) (auto simp: rooms_ok_def stop_runtime_def runtime_effect_def domIff)

lemma rooms_take [simp]: "rooms_ok None e \<Longrightarrow> rooms_ok None (take_runtime e)"
  using rooms_present [of None e "the (olcrtc e)"]
  by (cases "olcrtc e") (auto simp: rooms_ok_def take_runtime_def stop_runtime_def runtime_effect_def domIff)

lemma rooms_keep [simp]: "rooms_ok rt e \<Longrightarrow> rooms_ok None (keep_runtime rt e)"
  using rooms_present [of rt e "the (olcrtc e)"]
  by (cases "olcrtc e"; cases rt)
    (auto simp: rooms_ok_def keep_runtime_def drop_runtime_def runtime_effect_def domIff)

section \<open>Starting and stopping\<close>

lemma start_core_rooms:
  assumes "rooms_ok rt e" and "start_core os ws path rt a e = (r, e')"
  shows "rooms_ok None e'"
  using assms by (auto simp: start_core_def Let_def split: sum.splits option.splits)

lemma start_macos_rooms:
  assumes "rooms_ok rt e" and "start_macos opts cfg ws rt a e = (r, e')"
  shows "rooms_ok None e'"
  using assms by (auto simp: start_macos_def Let_def split: sum.splits)

text \<open>The numbers are fresh: no start answers with a runtime that was there before.\<close>

definition fresh_answers :: "start_answers \<Rightarrow> engine \<Rightarrow> bool" where
  "fresh_answers a e \<longleftrightarrow>
     (\<forall>config h. ans_olcrtc_start a config = Inr h \<longrightarrow> h \<notin># runtimes_started (effects e))"

lemma start_olcrtc_rooms:
  assumes "rooms_ok None e" and "fresh_answers a e" and "start_olcrtc opts a e = (r, e')"
  shows "(case r of Inl _ \<Rightarrow> rooms_ok None e' | Inr rt \<Rightarrow> rooms_ok rt e')"
proof (cases "profile_protocol (opt_profile opts) = OlcRtc")
  case False
  with assms(1,3) show ?thesis by (auto simp: start_olcrtc_def answer_def)
next
  case True
  show ?thesis
  proof (cases "and_then (from_profile (opt_profile opts)) (ans_olcrtc_start a)")
    case (Inl err)
    with True assms(1,3) show ?thesis by (auto simp: start_olcrtc_def run_then_answer_eq)
  next
    case (Inr h)
    then obtain config where "ans_olcrtc_start a config = Inr h" by (auto simp: and_then_def split: sum.splits)
    with assms(2) have "h \<notin># runtimes_started (effects e)" by (auto simp: fresh_answers_def)
    with True Inr assms(1,3) show ?thesis
      by (auto simp: start_olcrtc_def run_then_answer_eq perform_def run_then_def answer_def rooms_start)
  qed
qed

lemma start_desktop_rooms:
  assumes "rooms_ok None e" and "fresh_answers a e" and "start_desktop os opts a e = (r, e')"
  shows "rooms_ok None e'"
  using assms(3) unfolding start_desktop_def
proof (cases rule: run_then_cases)
  case (error x)
  with assms(1) start_guard_cases show ?thesis by blast
next
  case (next_call u e1)
  then have e1: "e1 = e" using start_guard_cases by blast
  from next_call(2) show ?thesis
  proof (cases rule: run_then_cases)
    case (error x)
    with assms(1) e1 show ?thesis by (auto elim: prepare_config_cases)
  next
    case prep: (next_call z e2)
    then obtain ws cfg path where z: "z = (ws, cfg, path)" and "e2 = effect (ConfigWritten cfg) e"
      using e1 by (auto elim: prepare_config_cases)
    then have e2: "rooms_ok None e2" "fresh_answers a e2" using assms(1,2) by (simp_all add: fresh_answers_def)
    from prep(2) show ?thesis
      unfolding z prod.case
    proof (cases rule: run_then_cases)
      case (error x)
      with e2(1) check_installation_state show ?thesis by (metis snd_conv)
    next
      case inst: (next_call v e3)
      then have e3: "e3 = e2" using check_installation_state by (metis snd_conv)
      show ?thesis
      proof (cases "ans_cleanup a")
        case (Inl x)
        with inst(2) e3 e2(1) show ?thesis by (auto simp: run_then_answer_eq)
      next
        case (Inr w)
        with inst(2) e3 have "run_then (start_olcrtc opts a) (\<lambda>rt.
            if os = MacOS then start_macos opts cfg ws rt a else start_core os ws path rt a) e2 = (r, e')"
          by (simp add: run_then_answer_eq)
        then show ?thesis
        proof (cases rule: run_then_cases)
          case (error x)
          with start_olcrtc_rooms [OF e2 error(1)] show ?thesis by simp
        next
          case (next_call rt e4)
          with start_olcrtc_rooms [OF e2 next_call(1)] have "rooms_ok rt e4" by simp
          with next_call(2) start_core_rooms start_macos_rooms show ?thesis
            by (auto split: if_splits)
        qed
      qed
    qed
  qed
qed

lemma stop_core_rooms:
  assumes "rooms_ok None e" and "stop_core a e = (r, e')"
  shows "rooms_ok None e'"
  using assms by (auto simp: stop_core_def Let_def split: option.splits kill_outcome.splits sum.splits)

lemma stop_desktop_rooms:
  assumes "rooms_ok None e" and "stop_desktop os a e = (r, e')"
  shows "rooms_ok None e'"
proof -
  have e: "rooms_ok None (stop_stats_polling e)" using assms(1) by simp
  show ?thesis
    using assms(2) e stop_core_rooms [OF e]
    by (auto simp: stop_desktop_def stop_macos_tunnel_def stop_macos_privileged_def Let_def
        split: if_splits option.splits sum.splits)
qed

section \<open>Over the life of an engine\<close>

text \<open>Starts and stops in any order, with any answers but for the fresh numbers.\<close>

inductive engine_lives :: "target_os \<Rightarrow> engine \<Rightarrow> bool" for os where
  life_begins: "engine_lives os default_engine"
| life_start: "engine_lives os e \<Longrightarrow> fresh_answers a e \<Longrightarrow> start_desktop os opts a e = (r, e') \<Longrightarrow>
    engine_lives os e'"
| life_stop: "engine_lives os e \<Longrightarrow> stop_desktop os b e = (u, e') \<Longrightarrow> engine_lives os e'"

lemma default_rooms: "rooms_ok None default_engine"
  by (simp add: rooms_ok_def default_engine_def runtimes_after_def)

lemma lives_rooms: "engine_lives os e \<Longrightarrow> rooms_ok None e"
  by (induction rule: engine_lives.induct)
    (auto intro: default_rooms start_desktop_rooms stop_desktop_rooms)

lemma lives_balanced: "engine_lives os e \<Longrightarrow> balanced None None e"
  by (induction rule: engine_lives.induct)
    (auto intro: default_balanced start_desktop_balanced stop_desktop_balanced)

text \<open>C40: Every OLC RTC room of the engine is accounted for. Whatever sequence of starts and stops ran and
  whatever failed in it, the only runtime that still accepts connections is the one the engine
  holds, and the rooms still open are its own and those of the runtimes that went out of scope
  without a stop; every other runtime ever started was stopped once.\<close>

theorem rooms_accounted:
  assumes "engine_lives os e"
  shows "(accepting (runtimes_after (effects e) h) \<longleftrightarrow> olcrtc e = Some h) \<and>
    (room_open (runtimes_after (effects e) h) \<longleftrightarrow> olcrtc e = Some h \<or> h \<in># runtimes_leaked (effects e)) \<and>
    runtimes_started (effects e) =
      runtimes_stopped (effects e) + runtimes_leaked (effects e) + held (olcrtc e)"
  using lives_rooms [OF assms] lives_balanced [OF assms] by (simp add: rooms_ok_def balanced_def)

lemma sample_running_lives: "engine_lives Linux sample_running"
  unfolding sample_running_def
  by (rule life_start [OF life_begins _ prod.collapse [symmetric]])
    (simp add: fresh_answers_def default_engine_def)

theorem rooms_accounted_witness:
  "accepting (runtimes_after (effects sample_running) 7) \<and> room_open (runtimes_after (effects sample_running) 7)"
  using rooms_accounted [OF sample_running_lives, of 7] by (simp add: sample_running_eq)

section \<open>After a stop that timed out\<close>

text \<open>An OLC RTC start whose client cannot start changes neither the core nor the runtime held.\<close>

lemma blocked_start:
  assumes "profile_protocol (opt_profile opts) = OlcRtc"
    and "\<And>config. from_profile (opt_profile opts) = Inr config \<Longrightarrow> \<exists>x. ans_olcrtc_start a config = Inl x"
    and "start_desktop os opts a e = (r, e')"
  shows "(\<exists>x. r = Inl x) \<and> child e' = child e \<and> olcrtc e' = olcrtc e"
proof -
  have fails: "\<exists>x. start_olcrtc opts a e2 = (Inl x, e2)" for e2
    using assms(1,2)
    by (cases "from_profile (opt_profile opts)") (auto simp: start_olcrtc_def run_then_answer_eq and_then_def split: sum.split)
  from assms(3) show ?thesis
    unfolding start_desktop_def
  proof (cases rule: run_then_cases)
    case (error x)
    with start_guard_cases show ?thesis by blast
  next
    case (next_call u e1)
    then have e1: "e1 = e" using start_guard_cases by blast
    from next_call(2) show ?thesis
    proof (cases rule: run_then_cases)
      case (error x)
      with e1 show ?thesis by (auto elim: prepare_config_cases)
    next
      case prep: (next_call z e2)
      then obtain ws cfg path where z: "z = (ws, cfg, path)" and e2: "e2 = effect (ConfigWritten cfg) e"
        using e1 by (auto elim: prepare_config_cases)
      from prep(2) show ?thesis
        unfolding z prod.case
      proof (cases rule: run_then_cases)
        case (error x)
        with e2 check_installation_state show ?thesis by (metis effect_fields(1,2) snd_conv)
      next
        case inst: (next_call v e3)
        then have "e3 = e2" using check_installation_state by (metis snd_conv)
        with inst(2) e2 fails [of e2] show ?thesis
          by (cases "ans_cleanup a") (auto simp: run_then_answer_eq run_then_def)
      qed
    qed
  qed
qed

text \<open>
  Starts of one profile and stops, in any order. While the engine holds a runtime, that one listens on
  the local port of the profile, so a new client cannot bind it.
\<close>

inductive retries :: "target_os \<Rightarrow> connect_options \<Rightarrow> engine \<Rightarrow> engine \<Rightarrow> bool" for os opts e where
  retry_none: "retries os opts e e"
| retry_start: "retries os opts e e1 \<Longrightarrow> start_desktop os opts a e1 = (r, e2) \<Longrightarrow>
    (\<And>config. olcrtc e1 \<noteq> None \<Longrightarrow> from_profile (opt_profile opts) = Inr config \<Longrightarrow>
       \<exists>x. ans_olcrtc_start a config = Inl x) \<Longrightarrow>
    retries os opts e e2"
| retry_stop: "retries os opts e e1 \<Longrightarrow> stop_desktop os b e1 = (u, e2) \<Longrightarrow> retries os opts e e2"

text \<open>Once a stop of an OLC RTC connection has timed out, no sequence of further starts and stops of
  that connection brings it back: the runtime the engine still holds keeps the local port, no stop
  reaches it without a core, and every start fails before it would be replaced.\<close>

theorem stop_timeout_blocks_restart:
  assumes "os \<noteq> MacOS" and "profile_protocol (opt_profile opts) = OlcRtc"
    and "child e = Some c" and "olcrtc e = Some h" and "ans_kill b = KillTimedOut"
    and "stop_desktop os b e = (u, e1)" and "retries os opts e1 e2"
  shows "child e2 = None \<and> olcrtc e2 = Some h"
proof -
  have e1: "child e1 = None \<and> olcrtc e1 = Some h"
    using assms(1,3-6) by (auto simp: stop_desktop_def stop_core_def stop_stats_polling_def Let_def)
  from assms(7) show ?thesis
  proof (induction rule: retries.induct)
    case retry_none
    show ?case by (rule e1)
  next
    case (retry_start e2 a r e3)
    then have "\<And>config. from_profile (opt_profile opts) = Inr config \<Longrightarrow> \<exists>x. ans_olcrtc_start a config = Inl x"
      by simp
    from blocked_start [OF assms(2) this retry_start.hyps(2)] retry_start.IH show ?case by simp
  next
    case (retry_stop e2 b u e3)
    with assms(1) show ?case
      by (auto simp: stop_desktop_def stop_core_def stop_stats_polling_def Let_def)
  qed
qed

theorem stop_timeout_blocks_restart_witness:
  "\<exists>u e1 r e2. stop_desktop Linux (good_stop\<lparr>ans_kill := KillTimedOut\<rparr>) sample_running = (u, e1) \<and>
     start_desktop Linux sample_options (good_answers\<lparr>ans_olcrtc_start := (\<lambda>c. Inl (Engine ''port in use''))\<rparr>) e1 = (r, e2) \<and>
     child e2 = None \<and> olcrtc e2 = Some 7"
proof -
  let ?b = "good_stop\<lparr>ans_kill := KillTimedOut\<rparr>"
  let ?a = "good_answers\<lparr>ans_olcrtc_start := (\<lambda>c. Inl (Engine ''port in use''))\<rparr>"
  obtain u e1 where stop: "stop_desktop Linux ?b sample_running = (u, e1)" by fastforce
  obtain r e2 where start: "start_desktop Linux sample_options ?a e1 = (r, e2)" by fastforce
  have "retries Linux sample_options e1 e2"
    by (rule retry_start [OF retry_none start]) simp
  from stop_timeout_blocks_restart [OF _ _ sample_running_eq(1,2) _ stop this] stop start
  show ?thesis by (simp add: sample_profile)
qed

end
