(* ===== verification/Repo_Tests.thy ===== *)
theory Repo_Tests
  imports Import_Server Sing_Config_Props Mux_Delivery Olc_Config "HOL-Library.Code_Target_Nat"
begin

text \<open>
  The repository's own tests (\<open>src/tests/import_and_config.rs\<close> and the test modules of
  \<open>src/olcrtc/mux.rs\<close> and \<open>src/olcrtc/crypto.rs\<close>) on the model: each is the conjunction of the assertions of one test,
  evaluated. The URL parser answers for the links of the tests what the \<open>url\<close> crate answers.
\<close>

section \<open>The links\<close>

definition test_url :: "string \<Rightarrow> string \<Rightarrow> string \<Rightarrow> u16 option \<Rightarrow> (string \<times> string) list \<Rightarrow> string \<Rightarrow> url" where
  "test_url scheme user host port pairs fragment =
     \<lparr>url_scheme = scheme, url_username = user, url_password = None, url_host = Some host,
      url_port = port, url_path = [], url_query_pairs = pairs, url_fragment = Some fragment\<rparr>"

definition reality_link :: string where
  "reality_link = ''vless://11111111-1111-1111-1111-111111111111@example.com:443?security=reality&type=grpc&sni=www.microsoft.com&pbk=abc&sid=01&fp=chrome#Amsterdam''"

definition grpc_link :: string where
  "grpc_link = ''vless://22222222-2222-4222-8222-222222222222@example.com:13979?type=grpc&encryption=none&security=reality&sni=www.example.com&fp=chrome&pbk=TEST_PUBLIC_KEY&sid=01020304&spx=%2F#Reality%20gRPC''"

definition trojan_link :: string where
  "trojan_link = ''trojan://test-password@example.com:443?security=tls&sni=example.com#Trojan''"

definition ss_link :: string where
  "ss_link = ''ss://YWVzLTI1Ni1nY206cGFzcw@example.com:8388#SS''"

definition node_link :: string where
  "node_link = ''vless://11111111-1111-1111-1111-111111111111@example.com:443?security=tls&sni=example.com#Node''"

definition test_key :: string where
  "test_key = ''000102030405060708090a0b0c0d0e0f101112131415161718191a1b1c1d1e1f''"

definition olcrtc_link :: string where
  "olcrtc_link = ''olcrtc://room-123?key='' @ test_key @ ''&localPort=18080#WB''"

definition test_urls :: "(string \<times> url) list" where
  "test_urls =
     [(reality_link, test_url ''vless'' ''11111111-1111-1111-1111-111111111111'' ''example.com'' (Some 443)
         [(''security'', ''reality''), (''type'', ''grpc''), (''sni'', ''www.microsoft.com''), (''pbk'', ''abc''),
          (''sid'', ''01''), (''fp'', ''chrome'')] ''Amsterdam''),
      (grpc_link, test_url ''vless'' ''22222222-2222-4222-8222-222222222222'' ''example.com'' (Some 13979)
         [(''type'', ''grpc''), (''encryption'', ''none''), (''security'', ''reality''), (''sni'', ''www.example.com''),
          (''fp'', ''chrome''), (''pbk'', ''TEST_PUBLIC_KEY''), (''sid'', ''01020304''), (''spx'', ''/'')] ''Reality%20gRPC''),
      (trojan_link, test_url ''trojan'' ''test-password'' ''example.com'' (Some 443)
         [(''security'', ''tls''), (''sni'', ''example.com'')] ''Trojan''),
      (''ss://YWVzLTI1Ni1nY206cGFzcw@example.com:8388'',
         (test_url ''ss'' ''YWVzLTI1Ni1nY206cGFzcw'' ''example.com'' (Some 8388) [] [])\<lparr>url_fragment := None\<rparr>),
      (node_link, test_url ''vless'' ''11111111-1111-1111-1111-111111111111'' ''example.com'' (Some 443)
         [(''security'', ''tls''), (''sni'', ''example.com'')] ''Node''),
      (olcrtc_link, test_url ''olcrtc'' [] ''room-123'' None
         [(''key'', test_key), (''localPort'', ''18080'')] ''WB'')]"

definition test_env :: import_env where
  "test_env =
     \<lparr>url_parse = (\<lambda>s. case map_of test_urls s of None \<Rightarrow> Inl ''not a link of the tests'' | Some u \<Rightarrow> Inr u),
      form_parse = (\<lambda>s. [(if s = ''Reality%20gRPC'' then ''Reality gRPC'' else s, [])]),
      base64_decode = (\<lambda>s. if s = ''YWVzLTI1Ni1nY206cGFzcw=='' then Inr (bytes_of ''aes-256-gcm:pass'') else Inl ''bad''),
      json_from_slice = (\<lambda>_. Inl ''no JSON''), utf8_error = (\<lambda>_. []), new_uuid = 1\<rparr>"

definition imported :: "string \<Rightarrow> (vpn_profile \<Rightarrow> bool) \<Rightarrow> bool" where
  "imported link check =
     (case import_server test_env link of Inl e \<Rightarrow> False | Inr server \<Rightarrow> check (imported_profile server))"

section \<open>The importer\<close>

definition imports_vless_reality_uri :: bool where
  "imports_vless_reality_uri \<longleftrightarrow>
     imported reality_link (\<lambda>p. profile_name p = ''Amsterdam'' \<and> profile_server p = ''example.com'' \<and>
       profile_reality p \<noteq> None)"

lemma imports_vless_reality_uri_passes: imports_vless_reality_uri
  by code_simp

definition imports_trojan_uri :: bool where
  "imports_trojan_uri \<longleftrightarrow>
     imported trojan_link (\<lambda>p. auth_password (profile_auth p) = Some ''test-password'')"

lemma imports_trojan_uri_passes: imports_trojan_uri
  by code_simp

definition imports_3x_ui_vless_reality_grpc_uri :: bool where
  "imports_3x_ui_vless_reality_grpc_uri \<longleftrightarrow>
     imported grpc_link (\<lambda>p. profile_name p = ''Reality gRPC'' \<and> profile_server p = ''example.com'' \<and>
       profile_port p = 13979 \<and> auth_uuid (profile_auth p) = Some ''22222222-2222-4222-8222-222222222222'' \<and>
       profile_reality p \<noteq> None)"

lemma imports_3x_ui_passes: imports_3x_ui_vless_reality_grpc_uri
  by code_simp

definition imports_shadowsocks_uri :: bool where
  "imports_shadowsocks_uri \<longleftrightarrow>
     imported ss_link (\<lambda>p. auth_method (profile_auth p) = Some ''aes-256-gcm'')"

lemma imports_shadowsocks_uri_passes: imports_shadowsocks_uri
  by code_simp

definition imports_olcrtc_wbstream_uri :: bool where
  "imports_olcrtc_wbstream_uri \<longleftrightarrow>
     imported olcrtc_link (\<lambda>p. profile_protocol p = OlcRtc \<and> profile_name p = ''WB'' \<and>
       profile_server p = ''room-123'' \<and> auth_password (profile_auth p) = Some test_key)"

lemma imports_olcrtc_wbstream_uri_passes: imports_olcrtc_wbstream_uri
  by code_simp

section \<open>The generator\<close>

definition options_of :: "string \<Rightarrow> dns_options \<Rightarrow> connect_options option" where
  "options_of link dns =
     (case import_server test_env link of
        Inl e \<Rightarrow> None
      | Inr server \<Rightarrow>
          Some \<lparr>opt_profile = imported_profile server, opt_route_mode = Global, opt_route_bypass_cidrs = [],
            opt_dns = dns, opt_kill_switch = True\<rparr>)"

definition generated :: "target_os \<Rightarrow> string \<Rightarrow> dns_options \<Rightarrow> (json \<Rightarrow> bool) \<Rightarrow> bool" where
  "generated os link dns check =
     (case options_of link dns of
        None \<Rightarrow> False
      | Some opts \<Rightarrow>
          (case generate_sing_box_config os opts of
             Some (Inr config) \<Rightarrow> check config
           | _ \<Rightarrow> False))"

text \<open>\<open>config["a"][i]["b"]\<close>, and the resolver with a tag.\<close>

definition json_at :: "json \<Rightarrow> string \<Rightarrow> nat \<Rightarrow> string \<Rightarrow> json" where
  "json_at j list_key i key =
     (let js = elems (json_index j list_key) in if i < length js then json_index (js ! i) key else JNull)"

definition server_tagged :: "string \<Rightarrow> json \<Rightarrow> json option" where
  "server_tagged tag config =
     find (\<lambda>s. json_index s ''tag'' = JStr tag) (elems (json_index (json_index config ''dns'') ''servers''))"

definition generates_sing_box_config :: "target_os \<Rightarrow> bool" where
  "generates_sing_box_config os \<longleftrightarrow>
     generated os node_link default_dns_options (\<lambda>config.
       json_at config ''outbounds'' 0 ''type'' = JStr ''vless'' \<and>
       json_at config ''inbounds'' 0 ''type'' = JStr ''tun'' \<and>
       json_index (json_index config ''route'') ''auto_detect_interface'' = JBool True)"

lemma generates_sing_box_config_passes: "list_all generates_sing_box_config [Windows, MacOS, Linux]"
  by code_simp

definition generates_doh_dns_for_public_resolvers :: "target_os \<Rightarrow> bool" where
  "generates_doh_dns_for_public_resolvers os \<longleftrightarrow>
     generated os node_link default_dns_options (\<lambda>config.
       (case (server_tagged ''dns-0'' config, server_tagged ''dns-1'' config) of
          (Some cloudflare, Some google) \<Rightarrow>
            json_index cloudflare ''type'' = JStr ''https'' \<and>
            json_index cloudflare ''server'' = JStr ''1.1.1.1'' \<and>
            json_index cloudflare ''detour'' = JStr ''proxy'' \<and>
            json_index (json_index cloudflare ''tls'') ''server_name'' = JStr ''cloudflare-dns.com'' \<and>
            json_index google ''type'' = JStr ''https'' \<and>
            json_index (json_index google ''tls'') ''server_name'' = JStr ''dns.google''
        | _ \<Rightarrow> False))"

lemma generates_doh_dns_passes: "list_all generates_doh_dns_for_public_resolvers [Windows, MacOS, Linux]"
  by code_simp

definition keeps_bootstrap_dns_direct :: "target_os \<Rightarrow> bool" where
  "keeps_bootstrap_dns_direct os \<longleftrightarrow>
     generated os node_link default_dns_options (\<lambda>config.
       (case server_tagged ''dns-bootstrap'' config of
          Some bootstrap \<Rightarrow>
            json_index bootstrap ''type'' = JStr ''udp'' \<and> json_index bootstrap ''server'' = JStr ''1.1.1.1'' \<and>
            (case bootstrap of JObj members \<Rightarrow> map_of members ''detour'' = None | _ \<Rightarrow> True)
        | None \<Rightarrow> False))"

lemma keeps_bootstrap_dns_direct_passes: "list_all keeps_bootstrap_dns_direct [Windows, MacOS, Linux]"
  by code_simp

definition falls_back_to_ipv4_dns :: "target_os \<Rightarrow> bool" where
  "falls_back_to_ipv4_dns os \<longleftrightarrow>
     generated os node_link \<lparr>dns_opt_strategy = Ipv6Only, dns_servers = [''2606:4700:4700::1111'']\<rparr> (\<lambda>config.
       json_index (json_index config ''dns'') ''strategy'' = JStr ''ipv4_only'' \<and>
       server_tagged ''dns-0'' config \<noteq> None \<and>
       list_ex (\<lambda>s. json_index s ''server'' = JStr ''1.1.1.1'')
         (elems (json_index (json_index config ''dns'') ''servers'')))"

lemma falls_back_to_ipv4_dns_passes: "list_all falls_back_to_ipv4_dns [Windows, MacOS, Linux]"
  by code_simp

definition generates_olcrtc_sing_box_socks_outbound :: "target_os \<Rightarrow> bool" where
  "generates_olcrtc_sing_box_socks_outbound os \<longleftrightarrow>
     generated os olcrtc_link default_dns_options (\<lambda>config.
       json_at config ''outbounds'' 0 ''type'' = JStr ''socks'' \<and>
       json_at config ''outbounds'' 0 ''server'' = JStr ''127.0.0.1'' \<and>
       json_at config ''outbounds'' 0 ''server_port'' = jnat 18080)"

lemma generates_olcrtc_socks_passes:
  "list_all generates_olcrtc_sing_box_socks_outbound [Windows, MacOS, Linux]"
  by code_simp

definition generates_olcrtc_transport_bypass_rules :: "target_os \<Rightarrow> bool" where
  "generates_olcrtc_transport_bypass_rules os \<longleftrightarrow>
     generated os olcrtc_link default_dns_options (\<lambda>config.
       (let rules = elems (json_index (json_index config ''route'') ''rules'') in
        list_ex (\<lambda>rule. json_index rule ''outbound'' = JStr ''direct'' \<and>
           list_ex (\<lambda>domain. domain = JStr ''stream.wb.ru'') (elems (json_index rule ''domain''))) rules \<and>
        list_ex (\<lambda>rule. json_index rule ''outbound'' = JStr ''direct'' \<and>
           list_ex (\<lambda>port. port = jnat 3478) (elems (json_index rule ''port''))) rules \<and>
        list_ex (\<lambda>rule. json_index rule ''network'' = JStr ''udp'' \<and>
           json_index rule ''action'' = JStr ''reject'') rules))"

lemma generates_olcrtc_bypass_passes:
  "list_all generates_olcrtc_transport_bypass_rules [Windows, MacOS, Linux]"
  by code_simp

section \<open>The multiplexer\<close>

text \<open>A frame as the tests build it: client, stream, length, sequence number, payload.\<close>

definition test_frame :: "u32 \<Rightarrow> u16 \<Rightarrow> byte list \<Rightarrow> frame" where
  "test_frame client sid payload =
     be_u32 client @ be_u16 sid @ be_u16 (of_nat (length payload)) @ be_u32 0 @ payload"

definition frames_are_sent_with_olcrtc_header :: bool where
  "frames_are_sent_with_olcrtc_header \<longleftrightarrow>
     (case open_stream (mux_new 0x01020304) of
        None \<Rightarrow> False
      | Some (sid, m) \<Rightarrow>
          (case send_data record_send sid (bytes_of ''abc'') m [] of
             (Inr _, _, sent) \<Rightarrow>
               (case sent of
                  [] \<Rightarrow> False
                | first # _ \<Rightarrow>
                    take 4 first = [1, 2, 3, 4] \<and> u16_from_be (take 2 (drop 4 first)) = sid \<and>
                    drop 12 first = bytes_of ''abc'')
           | (Inl _, _, _) \<Rightarrow> False))"

lemma opened_test [simp]:
  "open_stream (mux_new c) = Some (1, put_stream 1 (new_stream 0 0) ((mux_new c)\<lparr>next_id := 2, next_notify := 1\<rparr>))"
  by (simp add: open_stream.simps mux_new_def)

lemma frames_are_sent_passes: frames_are_sent_with_olcrtc_header
  unfolding frames_are_sent_with_olcrtc_header_def opened_test by code_simp

definition received_frames_are_buffered_by_sequence :: bool where
  "received_frames_are_buffered_by_sequence \<longleftrightarrow>
     (case open_stream (mux_new 1) of
        None \<Rightarrow> False
      | Some (sid, m) \<Rightarrow>
          (case handle_frame (test_frame 2 sid (bytes_of ''hey'')) m of
             None \<Rightarrow> False
           | Some m1 \<Rightarrow> fst (read_stream sid m1) = bytes_of ''hey''))"

lemma received_frames_passes: received_frames_are_buffered_by_sequence
  unfolding received_frames_are_buffered_by_sequence_def opened_test by code_simp

text \<open>The waiter parks, the frame arrives, and the notification it left lets the waiter return.\<close>

definition server_response_wakes_waiter_on_client_opened_stream :: bool where
  "server_response_wakes_waiter_on_client_opened_stream \<longleftrightarrow>
     (case open_stream (mux_new 0x01020304) of
        None \<Rightarrow> False
      | Some (sid, m) \<Rightarrow>
          (case wait_check sid m of
             (None, _) \<Rightarrow> False
           | (Some handle, m1) \<Rightarrow>
               (case Option.bind (handle_frame (test_frame 0 sid [0]) m1) (consume_permit handle) of
                  None \<Rightarrow> False
                | Some m2 \<Rightarrow>
                    (case wait_check sid m2 of
                       (None, m3) \<Rightarrow> fst (read_stream sid m3) = [0]
                     | (Some _, _) \<Rightarrow> False))))"

lemma server_response_wakes_waiter_passes: server_response_wakes_waiter_on_client_opened_stream
  unfolding server_response_wakes_waiter_on_client_opened_stream_def opened_test by code_simp

definition wait_for_data_returns_when_data_arrived_before_wait :: bool where
  "wait_for_data_returns_when_data_arrived_before_wait \<longleftrightarrow>
     (case open_stream (mux_new 1) of
        None \<Rightarrow> False
      | Some (sid, m) \<Rightarrow>
          (case handle_frame (test_frame 0 sid [0]) m of
             None \<Rightarrow> False
           | Some m1 \<Rightarrow>
               (case wait_check sid m1 of
                  (None, m2) \<Rightarrow> fst (read_stream sid m2) = [0]
                | (Some _, _) \<Rightarrow> False)))"

lemma wait_for_data_returns_passes: wait_for_data_returns_when_data_arrived_before_wait
  unfolding wait_for_data_returns_when_data_arrived_before_wait_def opened_test by code_simp

section \<open>The cipher\<close>

definition round_trips_olcrtc_ciphertext :: "aead_fn \<Rightarrow> aead_fn \<Rightarrow> byte list \<Rightarrow> bool" where
  "round_trips_olcrtc_ciphertext aead_encrypt aead_decrypt nonce \<longleftrightarrow>
     (case cipher_from_hex test_key of
        Some (Inr key) \<Rightarrow>
          (case encrypt aead_encrypt key nonce (bytes_of ''hello'') of
             Inr encrypted \<Rightarrow>
               encrypted \<noteq> bytes_of ''hello'' \<and> decrypt aead_decrypt key encrypted = Inr (bytes_of ''hello'')
           | Inl _ \<Rightarrow> False)
      | _ \<Rightarrow> False)"

text \<open>It passes for every AEAD that opens what it sealed, and every nonce of the length the code draws.\<close>

lemma round_trips_olcrtc_ciphertext_passes:
  assumes "length nonce = nonce_len"
    and "\<And>key n m. \<exists>c. aead_encrypt key n m = Inr c \<and> aead_decrypt key n c = Inr m"
  shows "round_trips_olcrtc_ciphertext aead_encrypt aead_decrypt nonce"
proof -
  have "valid_key_hex test_key"
    by (simp add: valid_key_hex_def test_key_def is_hexdigit_def to_digit_def)
  then obtain key where key: "cipher_from_hex test_key = Some (Inr key)"
    using decoded_key by (auto simp: cipher_from_hex_def)
  obtain c where c: "aead_encrypt key nonce (bytes_of ''hello'') = Inr c"
      "aead_decrypt key nonce c = Inr (bytes_of ''hello'')"
    using assms(2) by blast
  have "length (nonce @ c) \<noteq> length (bytes_of ''hello'')"
    using assms(1) by (simp add: nonce_len_def bytes_of_def)
  then have "nonce @ c \<noteq> bytes_of ''hello''" by metis
  with key c assms(1) show ?thesis
    by (simp add: round_trips_olcrtc_ciphertext_def encrypt_def decrypt_def)
qed

end
