(* ===== verification/Spec2Isabelle.thy ===== *)
theory Spec2Isabelle
  imports Vpn_Protocols Olc_Config Sing_Config_Props Mux_Frames Mux_Delivery Mux_Wakeup
    Import_Props Engine_Props Script_Quoting Commands_Props Command_Races Socks_Props Wb_Stream
    Olc_Link Engine_Tasks_Props Macos_Vpn Plugin Wire_Format
    Wire_Requests Wire_Types Wire_Commands Sing_Outbound Windows_Calls
    Mobile_Races Relay_Props Olc_Runtime Engine_Rooms Repo_Tests
begin

text \<open>
  Verification of the Tauri VPN plugin: the Rust crate under \<open>src/src/\<close>. A user interface imports
  or writes a server profile, and the commands connect, disconnect and report; the engine turns the
  profile into a configuration of the sing-box core and runs that core, or asks the native VPN of
  the platform to; for OLC RTC profiles a local SOCKS5 client carries the connections as streams
  over an encrypted room of WB Stream.

  \<^bold>\<open>The parts and their theories\<close>

  \<^item> \<open>errors.rs\<close>, \<open>models.rs\<close>: \<open>Vpn_Models\<close> (errors with their texts, JSON values, the profile and the
    other records, their defaults). \<open>Vpn_Prelude\<close> holds the shared vocabulary (results as sums with
    \<open>and_then\<close>, \<open>map_err\<close>, \<open>ok_or\<close>, options, chunks, big-endian words), \<open>Vpn_Strings\<close> the string
    functions the source uses (\<open>trim\<close>, \<open>split\<close>, number parsing, UTF-8).
  \<^item> the command bridge: \<open>Wire_Format\<close> (the JSON that the serde attributes of \<open>models.rs\<close> and
    \<open>errors.rs\<close> describe), \<open>Wire_Requests\<close> (\<open>connect_options_roundtrip\<close>: what a client leaves out of, or
    adds to, any object of a request, from the options down to the parts of the profile), \<open>Wire_Types\<close>
    (no object with two fields of one name, from the request to the generated configuration),
    \<open>Wire_Commands\<close> (the six commands \<open>lib.rs\<close> registers, invoked with JSON arguments, and the messages of
    the native plugin).
  \<^item> \<open>protocols.rs\<close>, \<open>platform.rs\<close>: \<open>Vpn_Protocols\<close>: the protocol table, the validator, the platform
    facts. \<open>validate_iff\<close> characterises the accepted profiles.
  \<^item> \<open>config.rs\<close>: \<open>Sing_Config\<close>, with properties in \<open>Sing_Config_Props\<close>: when generation succeeds, that
    no tag dangles, the order of the rules, the proxy outbound and the resolvers. \<open>Sing_Outbound\<close>:
    the credentials, TLS, Reality and transport settings of the proxy outbound are those of the profile.
  \<^item> \<open>import.rs\<close>: \<open>Import_Server\<close> and \<open>Import_Props\<close>: every listed scheme is imported as its protocol
    and an imported profile generates a configuration exactly when it validates.
  \<^item> \<open>olcrtc/mod.rs\<close>, \<open>olcrtc/crypto.rs\<close>: \<open>Olc_Config\<close>: settings read from a profile, the key, the
    envelope of the cipher.
  \<^item> \<open>olcrtc/mux.rs\<close>: \<open>Mux\<close> (the operations, one function per critical section), \<open>Mux_Frames\<close>
    (parsing, robustness, stream identifiers), \<open>Mux_Delivery\<close> (reassembly; locale
    \<open>reassembler\<close>), \<open>Mux_Wakeup\<close> (all interleavings of the lock sections, parked readers and
    notifications).
  \<^item> \<open>olcrtc/client.rs\<close>: \<open>Socks_Client\<close> (handshake, request, set-up of the tunnel, and the relay as
    small steps of its two pumps, which \<open>select!\<close> interleaves and cuts off), \<open>Socks_Props\<close> (handshake
    to tunnel), \<open>Relay_Props\<close> (\<open>relay_transparent\<close>: in every interleaving of the pumps, over the sealed
    link, the bytes of both sides are carried in order; what is lost when one side ends). The start of the client
    and its accept loop are in \<open>Wb_Stream\<close>; \<open>Olc_Runtime\<close> has the handle that stops the client.
  \<^item> \<open>olcrtc/wbstream.rs\<close>: \<open>Wb_Stream\<close> (the HTTP exchange for a room token, the send queue) and
    \<open>Olc_Link\<close> (the tasks of the peer; the send callback and the receiving task of the client; locale
    \<open>carrier\<close>). \<open>encrypted_delivery\<close> composes multiplexer, cipher, queue and room.
  \<^item> \<open>engine.rs\<close>: \<open>Sing_Engine\<close> (start, stop, status, waiting, the search for the core),
    \<open>Engine_Props\<close>, \<open>Engine_Tasks\<close> (statistics and log tasks, files, the privileged macOS core,
    clean-up), \<open>Engine_Tasks_Props\<close>, \<open>Script_Quoting\<close> (locale \<open>quoting\<close>, with the shell and
    AppleScript as its instances), and \<open>Windows_Cleanup\<close> (the script and command of the clean-up on Windows, and
    which processes its two searches find). \<open>Engine_Rooms\<close> composes the engine with \<open>Olc_Runtime\<close>: which
    rooms are open after any sequence of starts and stops. \<open>Windows_Calls\<close>: the job object and the token query of
    \<open>platform.rs\<close>, with the handles they open and close.
  \<^item> \<open>commands.rs\<close>, \<open>state.rs\<close>: \<open>Commands\<close> (locales \<open>command_engine\<close> and \<open>reliable_engine\<close>),
    \<open>Commands_Props\<close> (their instances for the desktop and the mobile engine; invariants over
    sequences of commands), \<open>Command_Races\<close> (interleavings of commands and background tasks on a
    desktop; in \<open>timely\<close> runs every kill succeeds within its time-out) and \<open>Mobile_Races\<close> (the parts
    of the commands on a phone, which interleave: connects alone exclude each other, with a status query
    in between they do not; run alone the parts are the commands).
  \<^item> \<open>macos_vpn.rs\<close>: \<open>Macos_Vpn\<close>; \<open>lib.rs\<close>: \<open>Plugin\<close>, which also runs the macOS start on the
    operations of \<open>Macos_Vpn\<close>.
  \<^item> \<open>tests/\<close> and the test modules: \<open>Repo_Tests\<close>, the repository's own tests run on the model.

  \<^bold>\<open>How the code is modelled\<close>

  A record stands for a struct, a sum \<open>vpn_result\<close> for \<open>Result\<close>, an option around it for a call that
  may panic or not return. A state behind a lock is a value that each operation takes and returns.
  The engine keeps a trace of what it did to the outside (processes spawned and dropped, runtimes,
  tunnels, events). What the code asks of libraries, processes, file systems, sockets and clocks
  is an argument: the records \<open>import_env\<close>, \<open>start_answers\<close>, \<open>stop_answers\<close>, \<open>mobile_answers\<close>,
  \<open>core_lookup\<close>, \<open>tunnel_env\<close>, \<open>platform_env\<close>, \<open>link_env\<close>, \<open>cleanup_env\<close>,
  \<open>network_extension\<close>, \<open>bridge_env\<close>, \<open>job_answers\<close>, \<open>token_answers\<close>, the functions \<open>http\<close> and
  \<open>aead_fn\<close>. What is relied on of them is a named hypothesis of the property that needs it (\<open>link_works\<close>, \<open>saves_persist\<close>).
  \<open>#[cfg(target_os)]\<close> is the argument \<open>target_os\<close>.

  \<^bold>\<open>Bounds\<close>

  The readiness checks have 20 rounds as in the code. The wait for a system tunnel is cut at 41
  rounds: with 500 ms between two polls the clock is past 20 seconds by then, and
  \<open>tunnel_wait_bounded\<close> shows that more rounds change nothing. The search for a free stream
  identifier is a \<open>partial_function\<close>, so a run that does not return is \<^const>\<open>None\<close>
  (\<open>open_stream_spec\<close> says when). The reassembly window of 100 segments is the code's bound on
  buffered segments; the delivery theorems hold while the 32-bit sequence number does not wrap.

  \<^bold>\<open>Not modelled\<close>

  The window flags of child processes; the texts of serde errors and the form of
  a struct as an array; the pauses between retries. Of the PowerShell script that cleans up on
  Windows the model has the text and which processes it selects; the adapters it resets are part of
  the text only. \<open>desktop_phase_exact\<close> and \<open>mobile_phase_true\<close> are about commands that run one after the
  other: the parts of two commands interleave, and \<open>Command_Races\<close> and \<open>Mobile_Races\<close> show that
  they can then go wrong. A completion
  handler of macOS that runs after its caller timed out is seen only as a save that went through.
\<close>

end
